theory Spec2Isabelle
  imports Complex_Main
begin

section \<open>Log-probabilities, errors, containers\<close>

text \<open>
  Scores are logarithms of probabilities.  A probability is a non-negative real; its
  logarithm is a real number, or minus infinity when the probability is zero
  (\<open>torch.log(0.) = -inf\<close>).  Rounding is not modelled: arithmetic is exact.
\<close>

datatype logp = NegInf | Fin real

instantiation logp :: linorder
begin

definition less_eq_logp :: "logp \<Rightarrow> logp \<Rightarrow> bool" where
  "less_eq_logp a b =
     (case a of NegInf \<Rightarrow> True
      | Fin x \<Rightarrow> (case b of NegInf \<Rightarrow> False | Fin y \<Rightarrow> x \<le> y))"

definition less_logp :: "logp \<Rightarrow> logp \<Rightarrow> bool" where
  "less_logp a b = (a \<le> b \<and> \<not> b \<le> (a::logp))"

instance
  by standard (auto simp: less_eq_logp_def less_logp_def split: logp.splits)

end

fun logp_add :: "logp \<Rightarrow> logp \<Rightarrow> logp" where
  "logp_add (Fin x) (Fin y) = Fin (x + y)"
| "logp_add _ _ = NegInf"

definition torch_log :: "real \<Rightarrow> logp" where
  "torch_log p = (if 0 < p then Fin (ln p) else NegInf)"

definition finite_score :: "logp \<Rightarrow> bool" where
  "finite_score s = (case s of NegInf \<Rightarrow> False | Fin _ \<Rightarrow> True)"

datatype error = IndexError | KeyError | AttributeError | ZeroDivisionError

definition ebind :: "error + 'a \<Rightarrow> ('a \<Rightarrow> error + 'b) \<Rightarrow> error + 'b" where
  "ebind m f = (case m of Inl e \<Rightarrow> Inl e | Inr x \<Rightarrow> f x)"

definition nth_err :: "'a list \<Rightarrow> nat \<Rightarrow> error + 'a" where
  "nth_err xs i = (if i < length xs then Inr (xs ! i) else Inl IndexError)"

definition lookup_err :: "('k \<rightharpoonup> 'v) \<Rightarrow> 'k \<Rightarrow> error + 'v" where
  "lookup_err m k = (case m k of None \<Rightarrow> Inl KeyError | Some v \<Rightarrow> Inr v)"

section \<open>Actions and hypotheses\<close>

type_synonym token = string
type_synonym production = string
type_synonym field = string
type_synonym vec = "real list"
type_synonym dstate = "vec \<times> vec \<times> vec"

text \<open>The three action classes of the transition system, and their instances.\<close>

datatype action_type = ApplyRuleAction | ReduceAction | GenTokenAction

datatype action = ApplyRule production | Reduce | GenToken token

record action_info =
  ai_action :: action
  ai_t :: nat
  parent_t :: "nat option"
  frontier_prod :: "production option"
  frontier_field :: "field option"
  copy_from_src :: bool
  src_token_position :: "nat list option"

record hypothesis =
  action_infos :: "action_info list"
  hyp_t :: nat
  score :: logp

text \<open>
  Modelled from the spec: \<open>DecodeHypothesis.clone_and_apply_action_info\<close>
  (components/decode\_hypothesis.py is not among the sources).  A hypothesis owns an
  ordered action history, a step counter and a score; applying an action yields a clone
  whose history is extended by that action and whose step counter is advanced.  The tree,
  its frontier and the \<open>completed\<close> flag are functions of the history; they are read
  through the parameters below.
\<close>

definition clone_and_apply_action_info :: "hypothesis \<Rightarrow> action_info \<Rightarrow> hypothesis" where
  "clone_and_apply_action_info h ai =
     h\<lparr>action_infos := action_infos h @ [ai], hyp_t := Suc (hyp_t h)\<rparr>"

definition DecodeHypothesis :: hypothesis where
  "DecodeHypothesis = \<lparr>action_infos = [], hyp_t = 0, score = Fin 0\<rparr>"

section \<open>Collaborators of \<open>Parser.parse\<close>\<close>

text \<open>
  One row of the batched outputs of the numeric layers for one live hypothesis:
  the new decoder state, the log-softmax over productions and Reduce, the softmax over
  the primitive vocabulary, the pointer-network distribution over source positions and
  the (generate, copy) gate.
\<close>

record sout =
  h_t :: vec
  cell_t :: vec
  att_t :: vec
  apply_rule_log_prob :: "logp list"
  gen_from_vocab_prob :: "real list"
  primitive_copy_prob :: "real list"
  primitive_predictor_prob :: "real \<times> real"

text \<open>
  Everything \<open>parse\<close> consults and that is not part of the two source files: the
  arguments (\<open>args\<close>), the grammar's id tables, the primitive vocabulary, the
  transition system, the hypothesis tree's read-only properties, the numeric layers
  (\<open>scorer\<close>: lines 636-736, from the decoder input to the distributions; row \<open>i\<close>
  of its result belongs to hypothesis \<open>i\<close>) and \<open>torch.topk\<close>, which returns the
  positions of the selected entries.
\<close>

record env =
  no_copy :: bool
  decode_max_time_step :: nat
  grammar_len :: nat
  prod2id :: "production \<rightharpoonup> nat"
  id2prod :: "nat \<rightharpoonup> production"
  prim_vocab :: "token \<rightharpoonup> nat"
  unk :: nat
  unk_word :: token
  idxToLabel :: "nat \<rightharpoonup> token"
  get_valid_continuation_types :: "hypothesis \<Rightarrow> action_type list"
  get_valid_continuating_productions :: "hypothesis \<Rightarrow> production list"
  completed :: "hypothesis \<Rightarrow> bool"
  frontier_node_created_time :: "hypothesis \<Rightarrow> nat"
  frontier_node_production :: "hypothesis \<Rightarrow> production"
  frontier_field_field :: "hypothesis \<Rightarrow> field"
  init_decoder_state :: "token list \<Rightarrow> vec \<times> vec"
  scorer :: "token list \<Rightarrow> nat \<Rightarrow> hypothesis list \<Rightarrow> dstate list list
               \<Rightarrow> (vec \<times> vec) list \<Rightarrow> vec list \<Rightarrow> nat \<Rightarrow> sout"
  topk :: "logp list \<Rightarrow> nat \<Rightarrow> nat list"

section \<open>Aggregating source tokens (lines 610-613)\<close>

text \<open>
  \<open>aggregated_primitive_tokens\<close> is an ordered dictionary from each surface token of
  the utterance to the list of its positions; it is an association list in order of
  first occurrence.
\<close>

fun setdefault_append :: "token \<Rightarrow> nat \<Rightarrow> (token \<times> nat list) list \<Rightarrow> (token \<times> nat list) list" where
  "setdefault_append token token_pos [] = [(token, [token_pos])]"
| "setdefault_append token token_pos ((k, ps) # rest) =
     (if k = token then (k, ps @ [token_pos]) # rest
      else (k, ps) # setdefault_append token token_pos rest)"

fun aggregate_from :: "nat \<Rightarrow> token list \<Rightarrow> (token \<times> nat list) list \<Rightarrow> (token \<times> nat list) list" where
  "aggregate_from token_pos [] d = d"
| "aggregate_from token_pos (token # rest) d =
     aggregate_from (Suc token_pos) rest (setdefault_append token token_pos d)"

definition aggregated_primitive_tokens :: "token list \<Rightarrow> (token \<times> nat list) list" where
  "aggregated_primitive_tokens src_sent = aggregate_from 0 src_sent []"

section \<open>Generate/copy aggregation for one hypothesis (lines 785-802)\<close>

type_synonym unk_copy_info = "token \<times> nat list \<times> real"

fun gather :: "real list \<Rightarrow> nat list \<Rightarrow> error + real list" where
  "gather xs [] = Inr []"
| "gather xs (i # is) =
     ebind (nth_err xs i) (\<lambda>v. ebind (gather xs is) (\<lambda>vs. Inr (v # vs)))"

text \<open>
  The loop over \<open>aggregated_primitive_tokens.items()\<close>: \<open>row\<close> is the hypothesis's row
  of \<open>primitive_prob\<close>, \<open>cp\<close> its row of \<open>primitive_copy_prob\<close>, \<open>g\<close> the copy gate
  \<open>primitive_predictor_prob[hyp_id, 1]\<close>.
\<close>

fun copy_tokens :: "(token \<rightharpoonup> nat) \<Rightarrow> real list \<Rightarrow> real \<Rightarrow> (token \<times> nat list) list
                      \<Rightarrow> real list \<Rightarrow> unk_copy_info list
                      \<Rightarrow> error + (real list \<times> unk_copy_info list)" where
  "copy_tokens pv cp g [] row infos = Inr (row, infos)"
| "copy_tokens pv cp g ((token, token_pos_list) # rest) row infos =
     ebind (gather cp token_pos_list) (\<lambda>vs.
       let gated_copy_prob = g * sum_list vs in
       (case pv token of
          Some token_id \<Rightarrow>
            if token_id < length row
            then copy_tokens pv cp g rest
                   (row[token_id := row ! token_id + gated_copy_prob]) infos
            else Inl IndexError
        | None \<Rightarrow>
            copy_tokens pv cp g rest row
              (infos @ [(token, token_pos_list, gated_copy_prob)])))"

text \<open>\<open>numpy.argmax\<close>: the first position of the largest entry.\<close>

fun argmax_aux :: "real list \<Rightarrow> nat \<Rightarrow> nat \<Rightarrow> real \<Rightarrow> nat" where
  "argmax_aux [] i best bv = best"
| "argmax_aux (x # xs) i best bv =
     (if bv < x then argmax_aux xs (Suc i) i x else argmax_aux xs (Suc i) best bv)"

definition argmax :: "real list \<Rightarrow> nat" where
  "argmax xs = (case xs of [] \<Rightarrow> 0 | x # rest \<Rightarrow> argmax_aux rest 1 0 x)"

text \<open>The initial row of \<open>primitive_prob\<close> (lines 729-739).\<close>

definition init_primitive_prob :: "env \<Rightarrow> sout \<Rightarrow> real list" where
  "init_primitive_prob E so =
     (if no_copy E then gen_from_vocab_prob so
      else map (\<lambda>p. fst (primitive_predictor_prob so) * p) (gen_from_vocab_prob so))"

section \<open>Collecting the candidates of one step (lines 745-802)\<close>

text \<open>
  The accumulators of the candidate loop.  \<open>primitive_prob\<close> is the matrix whose row
  \<open>i\<close> is the primitive-token distribution of hypothesis \<open>i\<close>; rows are updated in
  place by the copy aggregation.
\<close>

record cands =
  gentoken_prev_hyp_ids :: "nat list"
  gentoken_new_hyp_unks :: "token list"
  applyrule_new_hyp_scores :: "logp list"
  applyrule_new_hyp_prod_ids :: "nat list"
  applyrule_prev_hyp_ids :: "nat list"
  primitive_prob :: "nat \<Rightarrow> real list"

definition init_cands :: "env \<Rightarrow> (nat \<Rightarrow> sout) \<Rightarrow> cands" where
  "init_cands E outs =
     \<lparr>gentoken_prev_hyp_ids = [], gentoken_new_hyp_unks = [],
      applyrule_new_hyp_scores = [], applyrule_new_hyp_prod_ids = [],
      applyrule_prev_hyp_ids = [],
      primitive_prob = (\<lambda>i. init_primitive_prob E (outs i))\<rparr>"

definition add_applyrule :: "logp \<Rightarrow> nat \<Rightarrow> nat \<Rightarrow> cands \<Rightarrow> cands" where
  "add_applyrule new_hyp_score prod_id hyp_id cs =
     cs\<lparr>applyrule_new_hyp_scores := applyrule_new_hyp_scores cs @ [new_hyp_score],
        applyrule_new_hyp_prod_ids := applyrule_new_hyp_prod_ids cs @ [prod_id],
        applyrule_prev_hyp_ids := applyrule_prev_hyp_ids cs @ [hyp_id]\<rparr>"

fun apply_rule_candidates :: "env \<Rightarrow> (nat \<Rightarrow> sout) \<Rightarrow> nat \<Rightarrow> hypothesis
                                \<Rightarrow> production list \<Rightarrow> cands \<Rightarrow> error + cands" where
  "apply_rule_candidates E outs hyp_id hyp [] cs = Inr cs"
| "apply_rule_candidates E outs hyp_id hyp (production # rest) cs =
     ebind (lookup_err (prod2id E) production) (\<lambda>prod_id.
     ebind (nth_err (apply_rule_log_prob (outs hyp_id)) prod_id) (\<lambda>prod_score.
       apply_rule_candidates E outs hyp_id hyp rest
         (add_applyrule (logp_add (score hyp) prod_score) prod_id hyp_id cs)))"

definition reduce_candidate :: "env \<Rightarrow> (nat \<Rightarrow> sout) \<Rightarrow> nat \<Rightarrow> hypothesis
                                  \<Rightarrow> cands \<Rightarrow> error + cands" where
  "reduce_candidate E outs hyp_id hyp cs =
     ebind (nth_err (apply_rule_log_prob (outs hyp_id)) (grammar_len E)) (\<lambda>action_score.
       Inr (add_applyrule (logp_add (score hyp) action_score) (grammar_len E) hyp_id cs))"

definition gen_token_candidates :: "env \<Rightarrow> (token \<times> nat list) list \<Rightarrow> (nat \<Rightarrow> sout)
                                      \<Rightarrow> nat \<Rightarrow> cands \<Rightarrow> error + cands" where
  "gen_token_candidates E agg outs hyp_id cs =
     (let cs1 = cs\<lparr>gentoken_prev_hyp_ids := gentoken_prev_hyp_ids cs @ [hyp_id]\<rparr> in
      if no_copy E then Inr cs1
      else
        ebind (copy_tokens (prim_vocab E) (primitive_copy_prob (outs hyp_id))
                 (snd (primitive_predictor_prob (outs hyp_id))) agg
                 (primitive_prob cs hyp_id) [])
          (\<lambda>(row, hyp_unk_copy_info).
             if hyp_unk_copy_info \<noteq> [] then
               (let unk_i = argmax (map (\<lambda>x. snd (snd x)) hyp_unk_copy_info);
                    token = fst (hyp_unk_copy_info ! unk_i);
                    copy_prob = snd (snd (hyp_unk_copy_info ! unk_i))
                in if unk E < length row
                   then Inr (cs1\<lparr>primitive_prob :=
                                    (primitive_prob cs)(hyp_id := row[unk E := copy_prob]),
                                  gentoken_new_hyp_unks := gentoken_new_hyp_unks cs @ [token]\<rparr>)
                   else Inl IndexError)
             else Inr (cs1\<lparr>primitive_prob := (primitive_prob cs)(hyp_id := row)\<rparr>)))"

fun collect_types :: "env \<Rightarrow> (token \<times> nat list) list \<Rightarrow> (nat \<Rightarrow> sout) \<Rightarrow> nat
                        \<Rightarrow> hypothesis \<Rightarrow> action_type list \<Rightarrow> cands \<Rightarrow> error + cands" where
  "collect_types E agg outs hyp_id hyp [] cs = Inr cs"
| "collect_types E agg outs hyp_id hyp (action_type # rest) cs =
     ebind (case action_type of
              ApplyRuleAction \<Rightarrow>
                apply_rule_candidates E outs hyp_id hyp
                  (get_valid_continuating_productions E hyp) cs
            | ReduceAction \<Rightarrow> reduce_candidate E outs hyp_id hyp cs
            | GenTokenAction \<Rightarrow> gen_token_candidates E agg outs hyp_id cs)
       (collect_types E agg outs hyp_id hyp rest)"

fun collect_hyps :: "env \<Rightarrow> (token \<times> nat list) list \<Rightarrow> (nat \<Rightarrow> sout) \<Rightarrow> nat
                       \<Rightarrow> hypothesis list \<Rightarrow> cands \<Rightarrow> error + cands" where
  "collect_hyps E agg outs hyp_id [] cs = Inr cs"
| "collect_hyps E agg outs hyp_id (hyp # rest) cs =
     ebind (collect_types E agg outs hyp_id hyp (get_valid_continuation_types E hyp) cs)
       (collect_hyps E agg outs (Suc hyp_id) rest)"

section \<open>The global candidate list and the selection (lines 805-823)\<close>

fun gen_token_new_hyp_scores :: "logp list \<Rightarrow> (nat \<Rightarrow> real list) \<Rightarrow> nat list
                                   \<Rightarrow> error + logp list" where
  "gen_token_new_hyp_scores hs pp [] = Inr []"
| "gen_token_new_hyp_scores hs pp (hyp_id # rest) =
     ebind (nth_err hs hyp_id) (\<lambda>s.
     ebind (gen_token_new_hyp_scores hs pp rest) (\<lambda>r.
       Inr (map (\<lambda>p. logp_add s (torch_log p)) (pp hyp_id) @ r)))"

definition new_hyp_scores :: "logp list \<Rightarrow> cands \<Rightarrow> error + logp list" where
  "new_hyp_scores hs cs =
     (if gentoken_prev_hyp_ids cs = []
      then (if applyrule_new_hyp_scores cs = [] then Inl AttributeError
            else Inr (applyrule_new_hyp_scores cs))
      else ebind (gen_token_new_hyp_scores hs (primitive_prob cs) (gentoken_prev_hyp_ids cs))
             (\<lambda>g. Inr (applyrule_new_hyp_scores cs @ g)))"

text \<open>\<open>primitive_prob.size(1)\<close>: the rows of the matrix share one length.\<close>

definition size1 :: "cands \<Rightarrow> nat" where
  "size1 cs = length (primitive_prob cs 0)"

section \<open>Materialising the selected candidates (lines 827-891)\<close>

definition select_action :: "env \<Rightarrow> hypothesis list \<Rightarrow> cands \<Rightarrow> nat
                               \<Rightarrow> error + (nat \<times> hypothesis \<times> action)" where
  "select_action E hyps cs new_hyp_pos =
     (let n = length (applyrule_new_hyp_scores cs) in
      if new_hyp_pos < n then
        ebind (nth_err (applyrule_prev_hyp_ids cs) new_hyp_pos) (\<lambda>prev_hyp_id.
        ebind (nth_err hyps prev_hyp_id) (\<lambda>prev_hyp.
        ebind (nth_err (applyrule_new_hyp_prod_ids cs) new_hyp_pos) (\<lambda>prod_id.
          if prod_id < grammar_len E
          then ebind (lookup_err (id2prod E) prod_id) (\<lambda>production.
                 Inr (prev_hyp_id, prev_hyp, ApplyRule production))
          else Inr (prev_hyp_id, prev_hyp, Reduce))))
      else if size1 cs = 0 then Inl ZeroDivisionError
      else
        (let token_id = (new_hyp_pos - n) mod size1 cs;
             k = (new_hyp_pos - n) div size1 cs
         in ebind (nth_err (gentoken_prev_hyp_ids cs) k) (\<lambda>prev_hyp_id.
            ebind (nth_err hyps prev_hyp_id) (\<lambda>prev_hyp.
            ebind (if token_id = unk E
                   then (if gentoken_new_hyp_unks cs \<noteq> []
                         then nth_err (gentoken_new_hyp_unks cs) k
                         else Inr (unk_word E))
                   else lookup_err (idxToLabel E) token_id) (\<lambda>token.
              Inr (prev_hyp_id, prev_hyp, GenToken token))))))"

definition make_action_info :: "env \<Rightarrow> (token \<times> nat list) list \<Rightarrow> nat \<Rightarrow> hypothesis
                                  \<Rightarrow> action \<Rightarrow> action_info" where
  "make_action_info E agg t prev_hyp a =
     \<lparr>ai_action = a, ai_t = t,
      parent_t = (if 0 < t then Some (frontier_node_created_time E prev_hyp) else None),
      frontier_prod = (if 0 < t then Some (frontier_node_production E prev_hyp) else None),
      frontier_field = (if 0 < t then Some (frontier_field_field E prev_hyp) else None),
      copy_from_src = (case a of GenToken token \<Rightarrow> token \<in> fst ` set agg | _ \<Rightarrow> False),
      src_token_position = (case a of GenToken token \<Rightarrow> map_of agg token | _ \<Rightarrow> None)\<rparr>"

record selection =
  live_hyp_ids :: "nat list"
  new_hypotheses :: "hypothesis list"
  sel_completed :: "hypothesis list"
  sel_saved :: "dstate list list"

text \<open>The body of the loop over the selected candidates (lines 830-891).\<close>

definition apply_pick :: "env \<Rightarrow> (token \<times> nat list) list \<Rightarrow> bool \<Rightarrow> nat \<Rightarrow> hypothesis list
                        \<Rightarrow> dstate list list \<Rightarrow> (nat \<Rightarrow> sout) \<Rightarrow> cands \<Rightarrow> logp list
                        \<Rightarrow> nat \<Rightarrow> selection \<Rightarrow> error + selection" where
  "apply_pick E agg return_states t hyps sts outs cs scores new_hyp_pos sel =
     ebind (nth_err scores new_hyp_pos) (\<lambda>new_hyp_score.
     ebind (select_action E hyps cs new_hyp_pos) (\<lambda>(prev_hyp_id, prev_hyp, a).
       let new_hyp = (clone_and_apply_action_info prev_hyp
                        (make_action_info E agg t prev_hyp a))\<lparr>score := new_hyp_score\<rparr>
       in if completed E new_hyp then
            (if return_states then
               ebind (nth_err sts prev_hyp_id) (\<lambda>st.
                 Inr (sel\<lparr>sel_saved := sel_saved sel @
                             [st @ [(h_t (outs prev_hyp_id), cell_t (outs prev_hyp_id),
                                     att_t (outs prev_hyp_id))]],
                          sel_completed := sel_completed sel @ [new_hyp]\<rparr>))
             else Inr (sel\<lparr>sel_completed := sel_completed sel @ [new_hyp]\<rparr>))
          else Inr (sel\<lparr>new_hypotheses := new_hypotheses sel @ [new_hyp],
                        live_hyp_ids := live_hyp_ids sel @ [prev_hyp_id]\<rparr>)))"

fun process_picks :: "env \<Rightarrow> (token \<times> nat list) list \<Rightarrow> bool \<Rightarrow> nat \<Rightarrow> hypothesis list
                        \<Rightarrow> dstate list list \<Rightarrow> (nat \<Rightarrow> sout) \<Rightarrow> cands \<Rightarrow> logp list
                        \<Rightarrow> nat list \<Rightarrow> selection \<Rightarrow> error + selection" where
  "process_picks E agg return_states t hyps sts outs cs scores [] sel = Inr sel"
| "process_picks E agg return_states t hyps sts outs cs scores (new_hyp_pos # rest) sel =
     ebind (apply_pick E agg return_states t hyps sts outs cs scores new_hyp_pos sel)
       (process_picks E agg return_states t hyps sts outs cs scores rest)"

section \<open>The beam and the decoding loop (lines 615-632, 893-918)\<close>

record beam =
  beam_t :: nat
  hypotheses :: "hypothesis list"
  hyp_states :: "dstate list list"
  h_tm1 :: "(vec \<times> vec) list"
  att_tm1 :: "vec list"
  hyp_scores :: "logp list"
  completed_hypotheses :: "hypothesis list"
  saved_states :: "dstate list list"

fun extend_states :: "dstate list list \<Rightarrow> (nat \<Rightarrow> sout) \<Rightarrow> nat list \<Rightarrow> error + dstate list list" where
  "extend_states sts outs [] = Inr []"
| "extend_states sts outs (i # rest) =
     ebind (nth_err sts i) (\<lambda>st.
     ebind (extend_states sts outs rest) (\<lambda>r.
       Inr ((st @ [(h_t (outs i), cell_t (outs i), att_t (outs i))]) # r)))"

text \<open>
  One iteration of the while loop up to the global candidate list (lines 634-819): the
  accumulators after the candidate loop, and \<open>new_hyp_scores\<close>.
\<close>

definition step_candidates :: "env \<Rightarrow> token list \<Rightarrow> beam \<Rightarrow> error + (cands \<times> logp list)" where
  "step_candidates E src_sent b =
     (let agg = aggregated_primitive_tokens src_sent;
          outs = scorer E src_sent (beam_t b) (hypotheses b) (hyp_states b) (h_tm1 b) (att_tm1 b)
      in ebind (collect_hyps E agg outs 0 (hypotheses b) (init_cands E outs)) (\<lambda>cs.
         ebind (new_hyp_scores (hyp_scores b) cs) (\<lambda>scores. Inr (cs, scores))))"

text \<open>The \<open>k\<close> handed to \<open>torch.topk\<close> (lines 822-823).\<close>

definition step_k :: "nat \<Rightarrow> beam \<Rightarrow> logp list \<Rightarrow> nat" where
  "step_k beam_size b scores =
     min (length scores) (beam_size - length (completed_hypotheses b))"

text \<open>The selection of one iteration: the cut by \<open>torch.topk\<close> and the materialisation.\<close>

definition step_selection :: "env \<Rightarrow> token list \<Rightarrow> bool \<Rightarrow> nat \<Rightarrow> beam \<Rightarrow> error + selection" where
  "step_selection E src_sent return_states beam_size b =
     ebind (step_candidates E src_sent b) (\<lambda>(cs, scores).
       process_picks E (aggregated_primitive_tokens src_sent) return_states (beam_t b)
         (hypotheses b) (hyp_states b)
         (scorer E src_sent (beam_t b) (hypotheses b) (hyp_states b) (h_tm1 b) (att_tm1 b))
         cs scores (topk E scores (step_k beam_size b scores))
         \<lparr>live_hyp_ids = [], new_hypotheses = [],
          sel_completed = completed_hypotheses b, sel_saved = saved_states b\<rparr>)"

text \<open>
  One iteration: \<open>True\<close> when the loop goes on with the new beam, \<open>False\<close> when it
  breaks because no live hypothesis is left (the beam's \<open>hypotheses\<close> are then the ones
  of the step before).
\<close>

definition beam_step :: "env \<Rightarrow> token list \<Rightarrow> bool \<Rightarrow> nat \<Rightarrow> beam \<Rightarrow> error + (bool \<times> beam)" where
  "beam_step E src_sent return_states beam_size b =
     (let outs = scorer E src_sent (beam_t b) (hypotheses b) (hyp_states b) (h_tm1 b) (att_tm1 b)
      in ebind (step_selection E src_sent return_states beam_size b) (\<lambda>sel.
           if live_hyp_ids sel \<noteq> [] then
             ebind (extend_states (hyp_states b) outs (live_hyp_ids sel)) (\<lambda>hs.
               Inr (True,
                    b\<lparr>hyp_states := hs,
                      h_tm1 := map (\<lambda>i. (h_t (outs i), cell_t (outs i))) (live_hyp_ids sel),
                      att_tm1 := map (\<lambda>i. att_t (outs i)) (live_hyp_ids sel),
                      hypotheses := new_hypotheses sel,
                      hyp_scores := map score (new_hypotheses sel),
                      beam_t := Suc (beam_t b),
                      completed_hypotheses := sel_completed sel,
                      saved_states := sel_saved sel\<rparr>))
           else Inr (False, b\<lparr>completed_hypotheses := sel_completed sel,
                               saved_states := sel_saved sel\<rparr>)))"

function parse_loop :: "env \<Rightarrow> token list \<Rightarrow> bool \<Rightarrow> nat \<Rightarrow> beam \<Rightarrow> error + beam" where
  "parse_loop E src_sent return_states beam_size b =
     (if length (completed_hypotheses b) < beam_size \<and> beam_t b < decode_max_time_step E
      then (case beam_step E src_sent return_states beam_size b of
              Inl e \<Rightarrow> Inl e
            | Inr r \<Rightarrow>
                if fst r
                then parse_loop E src_sent return_states beam_size
                       ((snd r)\<lparr>beam_t := Suc (beam_t b)\<rparr>)
                else Inr (snd r))
      else Inr b)"
  by pat_completeness auto
termination
  by (relation "measure (\<lambda>(E, src_sent, return_states, beam_size, b).
                   decode_max_time_step E - beam_t b)") auto

text \<open>
  \<open>xs.sort(key=lambda h: -h.score)\<close>: a stable sort in descending order of the score.
\<close>

definition sort_desc :: "('a \<Rightarrow> logp) \<Rightarrow> 'a list \<Rightarrow> 'a list" where
  "sort_desc f xs = rev (sort_key f (rev xs))"

text \<open>\<open>states[t - 1]\<close> with Python's indexing: \<open>-1\<close> is the last entry.\<close>

definition state_before :: "dstate list \<Rightarrow> nat \<Rightarrow> error + dstate" where
  "state_before states t =
     (if t = 0 then (if states = [] then Inl IndexError else Inr (last states))
      else nth_err states (t - 1))"

definition init_beam :: "env \<Rightarrow> token list \<Rightarrow> hypothesis option \<Rightarrow> dstate list \<Rightarrow> error + beam" where
  "init_beam E src_sent hyp states =
     (case hyp of
        None \<Rightarrow>
          Inr \<lparr>beam_t = 0, hypotheses = [DecodeHypothesis], hyp_states = [[]],
               h_tm1 = [init_decoder_state E src_sent], att_tm1 = [],
               hyp_scores = [Fin 0], completed_hypotheses = [], saved_states = []\<rparr>
      | Some h \<Rightarrow>
          ebind (state_before states (hyp_t h)) (\<lambda>st.
            Inr \<lparr>beam_t = hyp_t h, hypotheses = [h], hyp_states = [states],
                 h_tm1 = [(fst st, fst (snd st))], att_tm1 = [snd (snd st)],
                 hyp_scores = [Fin 0], completed_hypotheses = [], saved_states = []\<rparr>))"

definition parse_result :: "bool \<Rightarrow> beam \<Rightarrow> hypothesis list \<times> dstate list list option" where
  "parse_result return_states b =
     (sort_desc score (if completed_hypotheses b \<noteq> [] then completed_hypotheses b
                       else hypotheses b),
      if return_states
      then Some (map snd (sort_desc (\<lambda>pair. score (fst pair))
                            (zip (completed_hypotheses b) (saved_states b))))
      else None)"

definition parse :: "env \<Rightarrow> token list \<Rightarrow> hypothesis option \<Rightarrow> dstate list \<Rightarrow> bool \<Rightarrow> nat
                       \<Rightarrow> error + (hypothesis list \<times> dstate list list option)" where
  "parse E src_sent hyp states return_states beam_size =
     ebind (init_beam E src_sent hyp states) (\<lambda>b0.
     ebind (parse_loop E src_sent return_states beam_size b0) (\<lambda>b.
       Inr (parse_result return_states b)))"

section \<open>Teacher-forced scoring: \<open>Parser.score\<close> (lines 298-378)\<close>

text \<open>
  The score of one example of the batch.  A floating-point value that may be the result
  of \<open>-inf * 0\<close> is a log-probability or not a number.
\<close>

datatype fl = NaN | Num logp

fun fl_add :: "fl \<Rightarrow> fl \<Rightarrow> fl" where
  "fl_add (Num x) (Num y) = Num (logp_add x y)"
| "fl_add _ _ = NaN"

text \<open>A logarithm times a mask entry (\<open>1.\<close> or \<open>0.\<close>): \<open>-inf * 0.\<close> is not a number.\<close>

fun mul_mask :: "logp \<Rightarrow> bool \<Rightarrow> fl" where
  "mul_mask (Fin x) m = Num (Fin (if m then x else 0))"
| "mul_mask NegInf True = Num NegInf"
| "mul_mask NegInf False = NaN"

text \<open>
  One decoding step of one example: the rows of the softmax outputs at that step, the
  gold indices and the masks of the batch (mask entries are \<open>1.\<close> or \<open>0.\<close>), and the
  value of the label-smoothing loss at that position, used in training only.
\<close>

record tstep =
  apply_rule_prob :: "real list"
  apply_rule_idx :: nat
  gen_vocab_prob :: "real list"
  primitive_idx :: nat
  predictor :: "real \<times> real"
  copy_prob :: "real list"
  primitive_copy_token_idx_mask :: "bool list"
  apply_rule_mask :: bool
  gen_token_mask :: bool
  primitive_copy_mask :: bool
  label_smoothing :: logp

text \<open>\<open>torch.sum(primitive_copy_prob * batch.primitive_copy_token_idx_mask, dim=-1)\<close>\<close>

definition tgt_primitive_copy_prob :: "tstep \<Rightarrow> real" where
  "tgt_primitive_copy_prob s =
     sum_list (map2 (\<lambda>p m. p * of_bool m) (copy_prob s) (primitive_copy_token_idx_mask s))"

text \<open>Lines 321-341: the branch without copy.\<close>

definition action_prob_no_copy :: "bool \<Rightarrow> tstep \<Rightarrow> error + fl" where
  "action_prob_no_copy smoothing s =
     ebind (nth_err (apply_rule_prob s) (apply_rule_idx s)) (\<lambda>tgt_apply_rule_prob.
     ebind (nth_err (gen_vocab_prob s) (primitive_idx s)) (\<lambda>tgt_primitive_gen_from_vocab_prob.
       let tgt_primitive_gen_from_vocab_log_prob =
             (if smoothing then label_smoothing s
              else torch_log tgt_primitive_gen_from_vocab_prob)
       in Inr (fl_add (mul_mask (torch_log tgt_apply_rule_prob) (apply_rule_mask s))
                      (mul_mask tgt_primitive_gen_from_vocab_log_prob (gen_token_mask s)))))"

text \<open>Lines 342-376: the branch with copy.\<close>

definition action_mask_pad :: "tstep \<Rightarrow> bool" where
  "action_mask_pad s =
     (\<not> (apply_rule_mask s \<or> gen_token_mask s \<or> primitive_copy_mask s))"

definition action_prob_copy :: "tstep \<Rightarrow> error + fl" where
  "action_prob_copy s =
     ebind (nth_err (apply_rule_prob s) (apply_rule_idx s)) (\<lambda>tgt_apply_rule_prob.
     ebind (nth_err (gen_vocab_prob s) (primitive_idx s)) (\<lambda>tgt_primitive_gen_from_vocab_prob.
       let action_prob =
             tgt_apply_rule_prob * of_bool (apply_rule_mask s)
             + fst (predictor s) * tgt_primitive_gen_from_vocab_prob * of_bool (gen_token_mask s)
             + snd (predictor s) * tgt_primitive_copy_prob s * of_bool (primitive_copy_mask s);
           filled = (if action_mask_pad s then 1 / 10 ^ 7 else action_prob)
       in Inr (mul_mask (torch_log filled) (\<not> action_mask_pad s))))"

text \<open>Line 378: the sum over the steps.\<close>

fun sum_steps :: "(tstep \<Rightarrow> error + fl) \<Rightarrow> tstep list \<Rightarrow> fl \<Rightarrow> error + fl" where
  "sum_steps f [] acc = Inr acc"
| "sum_steps f (s # rest) acc = ebind (f s) (\<lambda>v. sum_steps f rest (fl_add acc v))"

definition score_example :: "bool \<Rightarrow> bool \<Rightarrow> tstep list \<Rightarrow> error + fl" where
  "score_example no_copy_arg smoothing steps =
     sum_steps (if no_copy_arg then action_prob_no_copy smoothing else action_prob_copy)
       steps (Num (Fin 0))"

section \<open>Notions used in the statements\<close>

text \<open>The positions at which a token occurs in the utterance.\<close>

definition occurrences :: "token list \<Rightarrow> token \<Rightarrow> nat list" where
  "occurrences src_sent token = filter (\<lambda>i. src_sent ! i = token) [0..<length src_sent]"

text \<open>The copy gate times the copy attention summed over a list of positions.\<close>

definition copy_mass :: "real list \<Rightarrow> real \<Rightarrow> nat list \<Rightarrow> real" where
  "copy_mass cp g ps = g * sum_list (map ((!) cp) ps)"

text \<open>
  What \<open>torch.topk(xs, k)\<close> promises of the positions \<open>ps\<close> it returns: \<open>k\<close>
  distinct positions of \<open>xs\<close>, in descending order of their values, none of the
  positions left out holding a larger value than a selected one.
\<close>

definition topk_ok :: "logp list \<Rightarrow> nat \<Rightarrow> nat list \<Rightarrow> bool" where
  "topk_ok xs k ps =
     (length ps = k \<and> distinct ps \<and> (\<forall>p\<in>set ps. p < length xs) \<and>
      sorted_wrt (\<lambda>p q. xs ! q \<le> xs ! p) ps \<and>
      (\<forall>i\<in>set [0..<length xs]. i \<notin> set ps \<longrightarrow> (\<forall>p\<in>set ps. xs ! i \<le> xs ! p)))"

text \<open>The promise, for the call of \<open>torch.topk\<close> in the step taken from the beam \<open>b\<close>.\<close>

definition topk_honest :: "env \<Rightarrow> token list \<Rightarrow> nat \<Rightarrow> beam \<Rightarrow> bool" where
  "topk_honest E src_sent beam_size b =
     (case step_candidates E src_sent b of
        Inl e \<Rightarrow> True
      | Inr r \<Rightarrow> topk_ok (snd r) (step_k beam_size b (snd r))
                   (topk E (snd r) (step_k beam_size b (snd r))))"

text \<open>
  Modelled from the spec: \<open>torch.topk\<close> belongs to a library that is not part of the
  sources, and \<open>parse\<close> adds no tie-breaking of its own to the call (lines 821-823).
  The spec describes the selection: the highest-scoring candidates are selected, ties
  broken by the candidate ordering, the lower flattened index winning.  So: the positions
  in descending order of their values, positions of equal value in ascending order, cut
  after \<open>k\<close>.
\<close>

definition topk_first :: "logp list \<Rightarrow> nat \<Rightarrow> nat list" where
  "topk_first xs k = take k (sort_desc (\<lambda>i. xs ! i) [0..<length xs])"

text \<open>
  A selection that keeps the promise \<open>topk_ok\<close> as well and hands ties to the higher
  position.
\<close>

definition topk_last :: "logp list \<Rightarrow> nat \<Rightarrow> nat list" where
  "topk_last xs k = take k (rev (sort_key (\<lambda>i. xs ! i) [0..<length xs]))"

text \<open>
  The unknown-copy candidates of one hypothesis: the tokens of the utterance outside the
  primitive vocabulary, in order of first occurrence, each with its copy mass; and the
  first candidate of largest mass.
\<close>

definition unk_copy_infos :: "env \<Rightarrow> token list \<Rightarrow> sout \<Rightarrow> (token \<times> real) list" where
  "unk_copy_infos E src_sent so =
     map (\<lambda>token. (token, copy_mass (primitive_copy_prob so) (snd (primitive_predictor_prob so))
                             (occurrences src_sent token)))
       (filter (\<lambda>token. prim_vocab E token = None)
          (map fst (aggregated_primitive_tokens src_sent)))"

definition best_unk :: "env \<Rightarrow> token list \<Rightarrow> sout \<Rightarrow> token \<times> real" where
  "best_unk E src_sent so =
     unk_copy_infos E src_sent so ! argmax (map snd (unk_copy_infos E src_sent so))"

text \<open>
  The copy mass that falls on a vocabulary slot: the masses of the distinct tokens of the
  utterance that the vocabulary maps to the slot.
\<close>

definition slot_mass :: "env \<Rightarrow> token list \<Rightarrow> sout \<Rightarrow> nat \<Rightarrow> real" where
  "slot_mass E src_sent so j =
     sum_list (map (\<lambda>token. copy_mass (primitive_copy_prob so)
                               (snd (primitive_predictor_prob so)) (occurrences src_sent token))
                (filter (\<lambda>token. prim_vocab E token = Some j) (remdups src_sent)))"

text \<open>
  What one GenToken pass makes of a hypothesis's row: every slot receives its copy mass,
  and the unknown slot is then set to the mass of the best unknown-copy candidate, if
  there is one.
\<close>

definition copy_pass :: "env \<Rightarrow> token list \<Rightarrow> sout \<Rightarrow> real list \<Rightarrow> real list" where
  "copy_pass E src_sent so row =
     (let row' = map (\<lambda>j. row ! j + slot_mass E src_sent so j) [0..<length row]
      in if unk_copy_infos E src_sent so = [] then row'
         else row'[unk E := snd (best_unk E src_sent so)])"

text \<open>
  What the candidate loop maintains about the rows: the row of a hypothesis has gone
  through one pass for each time the hypothesis was entered among the GenToken
  candidates.
\<close>

definition rows_passed :: "env \<Rightarrow> token list \<Rightarrow> (nat \<Rightarrow> sout) \<Rightarrow> cands \<Rightarrow> bool" where
  "rows_passed E src_sent outs cs =
     (\<forall>i. primitive_prob cs i =
            (copy_pass E src_sent (outs i) ^^ count_list (gentoken_prev_hyp_ids cs) i)
              (init_primitive_prob E (outs i)))"

text \<open>The scorer's output rows in the step taken from the beam \<open>b\<close>.\<close>

definition step_outs :: "env \<Rightarrow> token list \<Rightarrow> beam \<Rightarrow> nat \<Rightarrow> sout" where
  "step_outs E src_sent b =
     scorer E src_sent (beam_t b) (hypotheses b) (hyp_states b) (h_tm1 b) (att_tm1 b)"

text \<open>What the candidate loop maintains about the recorded unknown-copy tokens.\<close>

definition unks_recorded :: "env \<Rightarrow> token list \<Rightarrow> (nat \<Rightarrow> sout) \<Rightarrow> nat \<Rightarrow> cands \<Rightarrow> bool" where
  "unks_recorded E src_sent outs nhyps cs =
     (length (gentoken_new_hyp_unks cs) = length (gentoken_prev_hyp_ids cs) \<and>
      (\<forall>i. length (primitive_prob cs i) = length (gen_from_vocab_prob (outs i))) \<and>
      (\<forall>(hyp_id, token)\<in>set (zip (gentoken_prev_hyp_ids cs) (gentoken_new_hyp_unks cs)).
         hyp_id < nhyps \<and> unk E < length (primitive_prob cs hyp_id) \<and>
         primitive_prob cs hyp_id ! unk E = snd (best_unk E src_sent (outs hyp_id)) \<and>
         token = fst (best_unk E src_sent (outs hyp_id))))"

text \<open>
  The probability of the gold action at one step, as the masks select it: the gold
  ApplyRule/Reduce probability, the vocabulary probability of the gold token weighted by
  the generate gate, and the copy attention at the positions holding the gold token
  weighted by the copy gate.
\<close>

definition gold_action_prob :: "tstep \<Rightarrow> real" where
  "gold_action_prob s =
     (if apply_rule_mask s then apply_rule_prob s ! apply_rule_idx s else 0)
     + (if gen_token_mask s then fst (predictor s) * gen_vocab_prob s ! primitive_idx s else 0)
     + (if primitive_copy_mask s then snd (predictor s) * tgt_primitive_copy_prob s else 0)"

definition logp_sum :: "logp list \<Rightarrow> logp" where
  "logp_sum xs = foldr logp_add xs (Fin 0)"

definition gathers_in_range :: "tstep list \<Rightarrow> bool" where
  "gathers_in_range steps =
     (\<forall>s\<in>set steps. apply_rule_idx s < length (apply_rule_prob s) \<and>
                     primitive_idx s < length (gen_vocab_prob s))"









text \<open>The live hypotheses are not completed, the completed ones are.\<close>

definition beam_ok :: "env \<Rightarrow> beam \<Rightarrow> bool" where
  "beam_ok E b = ((\<forall>h\<in>set (hypotheses b). \<not> completed E h) \<and>
                  (\<forall>h\<in>set (completed_hypotheses b). completed E h))"


section \<open>A small instance: one production with a sequence of primitive tokens\<close>

text \<open>
  The grammar has the single production \<open>Root\<close> with one sequence-valued primitive
  field: a derivation is \<open>ApplyRule Root\<close>, any number of \<open>GenToken\<close>, and a closing
  \<open>Reduce\<close>.  The vocabulary holds the unknown word and \<open>a\<close>.
\<close>

definition demo_types :: "hypothesis \<Rightarrow> action_type list" where
  "demo_types h = (if action_infos h = [] then [ApplyRuleAction]
                   else [GenTokenAction, ReduceAction])"

definition demo_completed :: "hypothesis \<Rightarrow> bool" where
  "demo_completed h = (action_infos h \<noteq> [] \<and> ai_action (last (action_infos h)) = Reduce)"

definition demo_out :: "nat \<Rightarrow> sout" where
  "demo_out t =
     \<lparr>h_t = [], cell_t = [], att_t = [],
      apply_rule_log_prob = (if t = 0 then [Fin 0, NegInf] else [NegInf, Fin 0]),
      gen_from_vocab_prob = [1/2, 1/2],
      primitive_copy_prob = [1/4, 1/4, 1/2],
      primitive_predictor_prob = (1/2, 1/2)\<rparr>"

definition demo_env :: env where
  "demo_env =
     \<lparr>no_copy = False, decode_max_time_step = 3, grammar_len = 1,
      prod2id = [''Root'' \<mapsto> 0], id2prod = [0 \<mapsto> ''Root''],
      prim_vocab = [''<unk>'' \<mapsto> 0, ''a'' \<mapsto> 1],
      unk = 0, unk_word = ''<unk>'',
      idxToLabel = [0 \<mapsto> ''<unk>'', 1 \<mapsto> ''a''],
      get_valid_continuation_types = demo_types,
      get_valid_continuating_productions = (\<lambda>h. [''Root'']),
      completed = demo_completed,
      frontier_node_created_time = (\<lambda>h. 0),
      frontier_node_production = (\<lambda>h. ''Root''),
      frontier_field_field = (\<lambda>h. ''args''),
      init_decoder_state = (\<lambda>src_sent. ([], [])),
      scorer = (\<lambda>src_sent t hyps sts h a i. demo_out t),
      topk = topk_first\<rparr>"

definition demo_src :: "token list" where
  "demo_src = [''a'', ''a'', ''b'']"

text \<open>The beam of the instance at the start of a fresh decoding.\<close>

definition demo_beam0 :: beam where
  "demo_beam0 =
     \<lparr>beam_t = 0, hypotheses = [DecodeHypothesis], hyp_states = [[]],
      h_tm1 = [([], [])], att_tm1 = [], hyp_scores = [Fin 0],
      completed_hypotheses = [], saved_states = []\<rparr>"

definition demo_cands0 :: cands where
  "demo_cands0 =
     \<lparr>gentoken_prev_hyp_ids = [], gentoken_new_hyp_unks = [],
      applyrule_new_hyp_scores = [Fin 0], applyrule_new_hyp_prod_ids = [0],
      applyrule_prev_hyp_ids = [0],
      primitive_prob = (\<lambda>i. [1/4, 1/4])\<rparr>"

text \<open>The beam of the instance after its first step: \<open>Root\<close> has been applied.\<close>

definition demo_hyp1 :: hypothesis where
  "demo_hyp1 =
     \<lparr>action_infos =
        [\<lparr>ai_action = ApplyRule ''Root'', ai_t = 0, parent_t = None, frontier_prod = None,
          frontier_field = None, copy_from_src = False, src_token_position = None\<rparr>],
      hyp_t = Suc 0, score = Fin 0\<rparr>"

definition demo_beam1 :: beam where
  "demo_beam1 =
     \<lparr>beam_t = Suc 0, hypotheses = [demo_hyp1], hyp_states = [[([], [], [])]],
      h_tm1 = [([], [])], att_tm1 = [[]], hyp_scores = [Fin 0],
      completed_hypotheses = [], saved_states = []\<rparr>"

definition demo_cands1 :: cands where
  "demo_cands1 =
     \<lparr>gentoken_prev_hyp_ids = [0], gentoken_new_hyp_unks = [''b''],
      applyrule_new_hyp_scores = [Fin 0], applyrule_new_hyp_prod_ids = [Suc 0],
      applyrule_prev_hyp_ids = [0],
      primitive_prob = (\<lambda>i. if i = 0 then [1/4, 1/2] else [1/4, 1/4])\<rparr>"

definition demo_hyp2 :: hypothesis where
  "demo_hyp2 =
     \<lparr>action_infos =
        [\<lparr>ai_action = ApplyRule ''Root'', ai_t = 0, parent_t = None, frontier_prod = None,
          frontier_field = None, copy_from_src = False, src_token_position = None\<rparr>,
         \<lparr>ai_action = Reduce, ai_t = Suc 0, parent_t = Some 0, frontier_prod = Some ''Root'',
          frontier_field = Some ''args'', copy_from_src = False, src_token_position = None\<rparr>],
      hyp_t = Suc (Suc 0), score = Fin 0\<rparr>"

definition demo_sel1 :: selection where
  "demo_sel1 = \<lparr>live_hyp_ids = [], new_hypotheses = [], sel_completed = [demo_hyp2],
                 sel_saved = []\<rparr>"

text \<open>
  A second scorer for the instance: \<open>Root\<close> and \<open>Reduce\<close> have probability one half
  each at every step, so that the hypothesis reached after the first step has the score
  \<open>ln (1/2)\<close>.  \<open>resume_beam1\<close> is the beam of the uninterrupted decoding after that
  step.
\<close>

definition resume_out :: sout where
  "resume_out =
     \<lparr>h_t = [], cell_t = [], att_t = [],
      apply_rule_log_prob = [Fin (ln (1/2)), Fin (ln (1/2))],
      gen_from_vocab_prob = [1/2, 1/2],
      primitive_copy_prob = [1/4, 1/4, 1/2],
      primitive_predictor_prob = (1/2, 1/2)\<rparr>"

definition resume_env :: env where
  "resume_env = demo_env\<lparr>scorer := (\<lambda>src_sent t hyps sts h a i. resume_out)\<rparr>"

definition resume_hyp1 :: hypothesis where
  "resume_hyp1 = demo_hyp1\<lparr>score := Fin (ln (1/2))\<rparr>"

definition resume_beam1 :: beam where
  "resume_beam1 = demo_beam1\<lparr>hypotheses := [resume_hyp1], hyp_scores := [Fin (ln (1/2))]\<rparr>"

definition resume_cands1 :: cands where
  "resume_cands1 = demo_cands1\<lparr>applyrule_new_hyp_scores := [Fin (ln (1/2) + ln (1/2))]\<rparr>"

text \<open>
  A scorer for the instance whose gates and copy attention are uneven: the generate gate
  is 1/4, the copy gate 3/4, the attention on \<open>a a b\<close> is 1/8, 1/8, 3/4.
\<close>

definition mass_out :: sout where
  "mass_out =
     \<lparr>h_t = [], cell_t = [], att_t = [],
      apply_rule_log_prob = [NegInf, Fin 0],
      gen_from_vocab_prob = [1/2, 1/2],
      primitive_copy_prob = [1/8, 1/8, 3/4],
      primitive_predictor_prob = (1/4, 3/4)\<rparr>"

definition mass_env :: env where
  "mass_env = demo_env\<lparr>scorer := (\<lambda>src_sent t hyps sts h a i. mass_out)\<rparr>"

definition mass_cands1 :: cands where
  "mass_cands1 =
     \<lparr>gentoken_prev_hyp_ids = [0], gentoken_new_hyp_unks = [''b''],
      applyrule_new_hyp_scores = [Fin 0], applyrule_new_hyp_prod_ids = [Suc 0],
      applyrule_prev_hyp_ids = [0],
      primitive_prob = (\<lambda>i. if i = 0 then [9/16, 5/16] else [1/8, 1/8])\<rparr>"

text \<open>An utterance of the instance whose tokens are all in the vocabulary.\<close>

definition known_src :: "token list" where
  "known_src = [''a'']"

definition known_cands1 :: cands where
  "known_cands1 =
     \<lparr>gentoken_prev_hyp_ids = [0], gentoken_new_hyp_unks = [],
      applyrule_new_hyp_scores = [Fin 0], applyrule_new_hyp_prod_ids = [Suc 0],
      applyrule_prev_hyp_ids = [0],
      primitive_prob = (\<lambda>i. if i = 0 then [1/4, 3/8] else [1/4, 1/4])\<rparr>"

text \<open>
  A third variant of the instance: copy is disabled, the vocabulary distribution puts all
  its mass on the first slot, and the selection hands ties to the higher position.
\<close>

definition tie_out :: "nat \<Rightarrow> sout" where
  "tie_out t = (demo_out t)\<lparr>gen_from_vocab_prob := [1, 0]\<rparr>"

definition tie_env :: env where
  "tie_env = demo_env\<lparr>no_copy := True, topk := topk_last,
                       scorer := (\<lambda>src_sent t hyps sts h a i. tie_out t)\<rparr>"


definition tie_cands :: cands where
  "tie_cands =
     \<lparr>gentoken_prev_hyp_ids = [0], gentoken_new_hyp_unks = [],
      applyrule_new_hyp_scores = [Fin 0], applyrule_new_hyp_prod_ids = [Suc 0],
      applyrule_prev_hyp_ids = [0],
      primitive_prob = (\<lambda>i. [1, 0])\<rparr>"

definition tie_hyp2 :: hypothesis where
  "tie_hyp2 =
     \<lparr>action_infos =
        [\<lparr>ai_action = ApplyRule ''Root'', ai_t = 0, parent_t = None, frontier_prod = None,
          frontier_field = None, copy_from_src = False, src_token_position = None\<rparr>,
         \<lparr>ai_action = GenToken ''<unk>'', ai_t = Suc 0, parent_t = Some 0,
          frontier_prod = Some ''Root'', frontier_field = Some ''args'',
          copy_from_src = False, src_token_position = None\<rparr>],
      hyp_t = Suc (Suc 0), score = Fin 0\<rparr>"

definition tie_hyp3 :: hypothesis where
  "tie_hyp3 =
     \<lparr>action_infos =
        [\<lparr>ai_action = ApplyRule ''Root'', ai_t = 0, parent_t = None, frontier_prod = None,
          frontier_field = None, copy_from_src = False, src_token_position = None\<rparr>,
         \<lparr>ai_action = GenToken ''a'', ai_t = Suc 0, parent_t = Some 0,
          frontier_prod = Some ''Root'', frontier_field = Some ''args'',
          copy_from_src = True, src_token_position = Some [0, Suc 0]\<rparr>],
      hyp_t = Suc (Suc 0), score = NegInf\<rparr>"

text \<open>
  Gold steps for teacher-forced scoring on the utterance \<open>a a b\<close>: \<open>Root\<close> is
  applied; the token \<open>a\<close> is generated (it is in the vocabulary and occurs at the
  positions 0 and 1); the token \<open>b\<close> is copied (it is outside the vocabulary and occurs
  at position 2); a padding position.
\<close>

definition gold_apply :: tstep where
  "gold_apply =
     \<lparr>apply_rule_prob = [1/2, 1/2], apply_rule_idx = 0,
      gen_vocab_prob = [1/2, 1/2], primitive_idx = 0,
      predictor = (1/2, 1/2), copy_prob = [1/4, 1/4, 1/2],
      primitive_copy_token_idx_mask = [False, False, False],
      apply_rule_mask = True, gen_token_mask = False, primitive_copy_mask = False,
      label_smoothing = Fin 0\<rparr>"



definition gold_pad :: tstep where
  "gold_pad =
     \<lparr>apply_rule_prob = [1, 0], apply_rule_idx = Suc 0,
      gen_vocab_prob = [1, 0], primitive_idx = Suc 0,
      predictor = (1, 0), copy_prob = [1, 0, 0],
      primitive_copy_token_idx_mask = [False, False, False],
      apply_rule_mask = False, gen_token_mask = False, primitive_copy_mask = False,
      label_smoothing = Fin 0\<rparr>"

text \<open>The dictionary built from a prefix of the utterance.\<close>

definition agg_inv :: "token list \<Rightarrow> (token \<times> nat list) list \<Rightarrow> bool" where
  "agg_inv pre d = (distinct (map fst d) \<and>
     (\<forall>k. map_of d k = (if k \<in> set pre then Some (occurrences pre k) else None)))"

section \<open>Properties\<close>

subsection \<open>Basic facts\<close>

lemma logp_le_simps [simp]:
  "NegInf \<le> a" "Fin x \<le> Fin y \<longleftrightarrow> x \<le> y" "\<not> Fin x \<le> NegInf"
  by (auto simp: less_eq_logp_def split: logp.splits)

lemma logp_less_simps [simp]:
  "NegInf < Fin x" "Fin x < Fin y \<longleftrightarrow> x < y" "\<not> a < NegInf"
  by (auto simp: less_logp_def less_eq_logp_def split: logp.splits)

lemma ebind_simps [simp]:
  "ebind (Inl e) f = Inl e" "ebind (Inr x) f = f x"
  by (simp_all add: ebind_def)

lemma ebind_eq_Inr:
  "ebind m f = Inr y \<longleftrightarrow> (\<exists>x. m = Inr x \<and> f x = Inr y)"
  by (cases m) simp_all

lemma nth_err_eq_Inr: "nth_err xs i = Inr x \<longleftrightarrow> i < length xs \<and> xs ! i = x"
  by (simp add: nth_err_def)

lemma lookup_err_eq_Inr: "lookup_err m k = Inr v \<longleftrightarrow> m k = Some v"
  by (simp add: lookup_err_def split: option.splits)

subsection \<open>The aggregated tokens and the copy mass\<close>

lemma sda_keys:
  "map fst (setdefault_append t p d) = (if t \<in> fst ` set d then map fst d else map fst d @ [t])"
  by (induction d) (force+)

lemma sda_map_of:
  "map_of (setdefault_append t p d) k =
     (if k = t then Some ((case map_of d t of None \<Rightarrow> [] | Some ps \<Rightarrow> ps) @ [p]) else map_of d k)"
  by (induction d) auto

lemma occurrences_snoc:
  "occurrences (pre @ [x]) k = occurrences pre k @ (if x = k then [length pre] else [])"
proof -
  have "filter (\<lambda>i. (pre @ [x]) ! i = k) [0..<length pre] = filter (\<lambda>i. pre ! i = k) [0..<length pre]"
    by (rule filter_cong) (auto simp: nth_append)
  then show ?thesis by (simp add: occurrences_def)
qed

lemma occurrences_Nil_iff: "k \<notin> set pre \<Longrightarrow> occurrences pre k = []"
  by (auto simp: occurrences_def filter_empty_conv)

lemma agg_step:
  assumes "agg_inv pre d"
  shows "agg_inv (pre @ [x]) (setdefault_append x (length pre) d)"
proof -
  from assms have d: "distinct (map fst d)"
    and m: "\<And>k. map_of d k = (if k \<in> set pre then Some (occurrences pre k) else None)"
    by (auto simp: agg_inv_def)
  have dom: "fst ` set d = set pre"
    using m by (metis (no_types, lifting) dom_map_of_conv_image_fst domIff option.distinct(1) subsetI subset_antisym)
  have "distinct (map fst (setdefault_append x (length pre) d))"
    using d by (auto simp: sda_keys)
  moreover have "map_of (setdefault_append x (length pre) d) k =
      (if k \<in> set (pre @ [x]) then Some (occurrences (pre @ [x]) k) else None)" for k
    by (auto simp: sda_map_of m occurrences_snoc occurrences_Nil_iff)
  ultimately show ?thesis by (simp add: agg_inv_def)
qed

lemma agg_from:
  "agg_inv pre d \<Longrightarrow> agg_inv (pre @ src) (aggregate_from (length pre) src d)"
proof (induction src arbitrary: pre d)
  case Nil then show ?case by simp
next
  case (Cons x src)
  from agg_step[OF Cons.prems] have "agg_inv (pre @ [x]) (setdefault_append x (length pre) d)" .
  from Cons.IH[OF this] show ?case by simp
qed

lemma agg_inv_aggregated: "agg_inv src (aggregated_primitive_tokens src)"
  using agg_from[of "[]" "[]" src] by (simp add: aggregated_primitive_tokens_def agg_inv_def)

lemma aggregated_keys:
  "distinct (map fst (aggregated_primitive_tokens src))"
  "set (map fst (aggregated_primitive_tokens src)) = set src"
  "(tok, ps) \<in> set (aggregated_primitive_tokens src) \<Longrightarrow> ps = occurrences src tok \<and> tok \<in> set src"
proof -
  let ?d = "aggregated_primitive_tokens src"
  have d: "distinct (map fst ?d)"
    and m: "\<And>k. map_of ?d k = (if k \<in> set src then Some (occurrences src k) else None)"
    using agg_inv_aggregated[of src] by (auto simp: agg_inv_def)
  show "distinct (map fst ?d)" by (rule d)
  have "dom (map_of ?d) = set src" using m by (auto simp: dom_def)
  then show "set (map fst ?d) = set src" by (simp add: dom_map_of_conv_image_fst)
  assume "(tok, ps) \<in> set ?d"
  then have "map_of ?d tok = Some ps" using d by simp
  then show "ps = occurrences src tok \<and> tok \<in> set src" using m[of tok] by (auto split: if_splits)
qed

lemma gather_ok:
  "\<forall>i\<in>set ps. i < length cp \<Longrightarrow> gather cp ps = Inr (map ((!) cp) ps)"
  by (induction ps) (auto simp: ebind_def nth_err_def)

lemma copy_tokens_ok:
  assumes "\<forall>(tok, ps)\<in>set agg. (\<forall>i\<in>set ps. i < length cp) \<and> (\<forall>tid. pv tok = Some tid \<longrightarrow> tid < length row)"
  shows "\<exists>row'. copy_tokens pv cp g agg row infos =
           Inr (row', infos @ map (\<lambda>(tok, ps). (tok, ps, copy_mass cp g ps)) (filter (\<lambda>(tok, ps). pv tok = None) agg))
         \<and> length row' = length row
         \<and> (\<forall>j<length row. row' ! j = row ! j +
               sum_list (map (\<lambda>(tok, ps). copy_mass cp g ps) (filter (\<lambda>(tok, ps). pv tok = Some j) agg)))"
  using assms
proof (induction agg arbitrary: row infos)
  case Nil then show ?case by simp
next
  case (Cons a agg)
  obtain tok ps where a: "a = (tok, ps)" by (cases a)
  from Cons.prems a have ps: "\<forall>i\<in>set ps. i < length cp" by auto
  show ?case
  proof (cases "pv tok")
    case None
    from Cons.prems have "\<forall>(tok, ps)\<in>set agg. (\<forall>i\<in>set ps. i < length cp) \<and> (\<forall>tid. pv tok = Some tid \<longrightarrow> tid < length row)"
      by auto
    from Cons.IH[OF this, of "infos @ [(tok, ps, copy_mass cp g ps)]"] 
    show ?thesis using None a ps by (auto simp: gather_ok ebind_def copy_mass_def)
  next
    case (Some tid)
    with Cons.prems a have tid: "tid < length row" by auto
    let ?row = "row[tid := row ! tid + copy_mass cp g ps]"
    from Cons.prems have "\<forall>(tok, ps)\<in>set agg. (\<forall>i\<in>set ps. i < length cp) \<and> (\<forall>tid. pv tok = Some tid \<longrightarrow> tid < length ?row)"
      by auto
    from Cons.IH[OF this, of infos] obtain row' where
      r: "copy_tokens pv cp g agg ?row infos =
           Inr (row', infos @ map (\<lambda>(tok, ps). (tok, ps, copy_mass cp g ps)) (filter (\<lambda>(tok, ps). pv tok = None) agg))"
      and l: "length row' = length row"
      and v: "\<forall>j<length row. row' ! j = ?row ! j +
               sum_list (map (\<lambda>(tok, ps). copy_mass cp g ps) (filter (\<lambda>(tok, ps). pv tok = Some j) agg))"
      by auto
    have "copy_tokens pv cp g (a # agg) row infos = copy_tokens pv cp g agg ?row infos"
      using Some a ps tid by (simp add: gather_ok ebind_def copy_mass_def)
    then show ?thesis using r l v Some a tid by (auto simp: nth_list_update)
  qed
qed

lemma aggregated_as_map:
  "aggregated_primitive_tokens src =
     map (\<lambda>tok. (tok, occurrences src tok)) (map fst (aggregated_primitive_tokens src))"
proof -
  have "map ((\<lambda>tok. (tok, occurrences src tok)) \<circ> fst) (aggregated_primitive_tokens src)
        = aggregated_primitive_tokens src"
    by (rule map_idI) (auto dest: aggregated_keys(3))
  then show ?thesis by simp
qed

lemma demo_agg: "aggregated_primitive_tokens demo_src = [(''a'', [0, 1]), (''b'', [2])]"
  by (simp add: aggregated_primitive_tokens_def demo_src_def)

lemma demo_occ:
  "occurrences demo_src ''a'' = [0, 1]" "occurrences demo_src ''b'' = [2]"
  by (simp_all add: occurrences_def demo_src_def upt_conv_Cons)

lemma demo_keys_unk:
  "filter (\<lambda>tok. prim_vocab demo_env tok = None) (map fst (aggregated_primitive_tokens demo_src)) = [''b'']"
  by (simp add: demo_agg demo_env_def)

lemma demo_keys_slot:
  "filter (\<lambda>tok. prim_vocab demo_env tok = Some 0) (map fst (aggregated_primitive_tokens demo_src)) = []"
  "filter (\<lambda>tok. prim_vocab demo_env tok = Some (Suc 0)) (map fst (aggregated_primitive_tokens demo_src)) = [''a'']"
  by (simp_all add: demo_agg demo_env_def)

lemma demo_mass:
  "copy_mass (primitive_copy_prob (demo_out (Suc 0))) (snd (primitive_predictor_prob (demo_out (Suc 0)))) [0, Suc 0] = 1/4"
  "copy_mass (primitive_copy_prob (demo_out (Suc 0))) (snd (primitive_predictor_prob (demo_out (Suc 0)))) [2] = 1/4"
  by (simp_all add: copy_mass_def demo_out_def)

subsection \<open>The candidate loop, operation by operation\<close>

lemma add_applyrule_simps [simp]:
  "applyrule_new_hyp_scores (add_applyrule s p h cs) = applyrule_new_hyp_scores cs @ [s]"
  "applyrule_new_hyp_prod_ids (add_applyrule s p h cs) = applyrule_new_hyp_prod_ids cs @ [p]"
  "applyrule_prev_hyp_ids (add_applyrule s p h cs) = applyrule_prev_hyp_ids cs @ [h]"
  "gentoken_prev_hyp_ids (add_applyrule s p h cs) = gentoken_prev_hyp_ids cs"
  "gentoken_new_hyp_unks (add_applyrule s p h cs) = gentoken_new_hyp_unks cs"
  "primitive_prob (add_applyrule s p h cs) = primitive_prob cs"
  by (simp_all add: add_applyrule_def)

lemma apply_rule_candidates_Inr:
  "apply_rule_candidates E outs hyp_id hyp ps cs = Inr cs' \<Longrightarrow>
     (\<forall>p\<in>set ps. \<exists>pid. prod2id E p = Some pid \<and> pid < length (apply_rule_log_prob (outs hyp_id))) \<and>
     applyrule_new_hyp_scores cs' = applyrule_new_hyp_scores cs @
        map (\<lambda>p. logp_add (score hyp) (apply_rule_log_prob (outs hyp_id) ! the (prod2id E p))) ps \<and>
     applyrule_new_hyp_prod_ids cs' = applyrule_new_hyp_prod_ids cs @ map (\<lambda>p. the (prod2id E p)) ps \<and>
     applyrule_prev_hyp_ids cs' = applyrule_prev_hyp_ids cs @ replicate (length ps) hyp_id \<and>
     gentoken_prev_hyp_ids cs' = gentoken_prev_hyp_ids cs \<and>
     gentoken_new_hyp_unks cs' = gentoken_new_hyp_unks cs \<and>
     primitive_prob cs' = primitive_prob cs"
proof (induction ps arbitrary: cs)
  case Nil then show ?case by simp
next
  case (Cons p ps)
  from Cons.prems obtain pid where pid: "prod2id E p = Some pid"
    and lt: "pid < length (apply_rule_log_prob (outs hyp_id))"
    and rest: "apply_rule_candidates E outs hyp_id hyp ps
          (add_applyrule (logp_add (score hyp) (apply_rule_log_prob (outs hyp_id) ! pid)) pid hyp_id cs) = Inr cs'"
    by (auto simp: ebind_eq_Inr lookup_err_eq_Inr nth_err_eq_Inr)
  from Cons.IH[OF rest] pid lt show ?case
    by (simp add: replicate_app_Cons_same)
qed

lemma reduce_candidate_Inr:
  "reduce_candidate E outs hyp_id hyp cs = Inr cs' \<Longrightarrow>
     grammar_len E < length (apply_rule_log_prob (outs hyp_id)) \<and>
     applyrule_new_hyp_scores cs' = applyrule_new_hyp_scores cs @
        [logp_add (score hyp) (apply_rule_log_prob (outs hyp_id) ! grammar_len E)] \<and>
     applyrule_new_hyp_prod_ids cs' = applyrule_new_hyp_prod_ids cs @ [grammar_len E] \<and>
     applyrule_prev_hyp_ids cs' = applyrule_prev_hyp_ids cs @ [hyp_id] \<and>
     gentoken_prev_hyp_ids cs' = gentoken_prev_hyp_ids cs \<and>
     gentoken_new_hyp_unks cs' = gentoken_new_hyp_unks cs \<and>
     primitive_prob cs' = primitive_prob cs"
  by (auto simp: reduce_candidate_def ebind_eq_Inr nth_err_eq_Inr)

lemma gen_token_candidates_Inr:
  assumes "gen_token_candidates E agg outs hyp_id cs = Inr cs'"
  shows "applyrule_new_hyp_scores cs' = applyrule_new_hyp_scores cs \<and>
     applyrule_new_hyp_prod_ids cs' = applyrule_new_hyp_prod_ids cs \<and>
     applyrule_prev_hyp_ids cs' = applyrule_prev_hyp_ids cs \<and>
     gentoken_prev_hyp_ids cs' = gentoken_prev_hyp_ids cs @ [hyp_id] \<and>
     (\<forall>i. i \<noteq> hyp_id \<longrightarrow> primitive_prob cs' i = primitive_prob cs i) \<and>
     (if no_copy E then gentoken_new_hyp_unks cs' = gentoken_new_hyp_unks cs \<and>
                        primitive_prob cs' = primitive_prob cs
      else \<exists>row infos.
             copy_tokens (prim_vocab E) (primitive_copy_prob (outs hyp_id))
                 (snd (primitive_predictor_prob (outs hyp_id))) agg
                 (primitive_prob cs hyp_id) [] = Inr (row, infos) \<and>
             (if infos \<noteq> []
              then unk E < length row \<and>
                   primitive_prob cs' hyp_id =
                     row[unk E := snd (snd (infos ! argmax (map (\<lambda>x. snd (snd x)) infos)))] \<and>
                   gentoken_new_hyp_unks cs' = gentoken_new_hyp_unks cs @
                     [fst (infos ! argmax (map (\<lambda>x. snd (snd x)) infos))]
              else primitive_prob cs' hyp_id = row \<and>
                   gentoken_new_hyp_unks cs' = gentoken_new_hyp_unks cs))"
proof (cases "no_copy E")
  case True
  with assms show ?thesis by (auto simp: gen_token_candidates_def Let_def)
next
  case False
  let ?cs1 = "cs\<lparr>gentoken_prev_hyp_ids := gentoken_prev_hyp_ids cs @ [hyp_id]\<rparr>"
  from assms False obtain row infos where
    ct: "copy_tokens (prim_vocab E) (primitive_copy_prob (outs hyp_id))
           (snd (primitive_predictor_prob (outs hyp_id))) agg (primitive_prob cs hyp_id) []
         = Inr (row, infos)"
    and r: "(if infos \<noteq> [] then
               (if unk E < length row
                then Inr (?cs1\<lparr>primitive_prob := (primitive_prob cs)
                                   (hyp_id := row[unk E := snd (snd (infos ! argmax (map (\<lambda>x. snd (snd x)) infos)))]),
                                gentoken_new_hyp_unks := gentoken_new_hyp_unks cs @
                                   [fst (infos ! argmax (map (\<lambda>x. snd (snd x)) infos))]\<rparr>)
                else Inl IndexError)
             else Inr (?cs1\<lparr>primitive_prob := (primitive_prob cs)(hyp_id := row)\<rparr>)) = Inr cs'"
    unfolding gen_token_candidates_def Let_def by (auto simp: ebind_eq_Inr)
  show ?thesis
  proof (cases "infos = []")
    case True
    with r have "cs' = ?cs1\<lparr>primitive_prob := (primitive_prob cs)(hyp_id := row)\<rparr>" by simp
    with False ct True show ?thesis by simp
  next
    case ne: False
    with r have u: "unk E < length row"
      and "cs' = ?cs1\<lparr>primitive_prob := (primitive_prob cs)
                                   (hyp_id := row[unk E := snd (snd (infos ! argmax (map (\<lambda>x. snd (snd x)) infos)))]),
                                gentoken_new_hyp_unks := gentoken_new_hyp_unks cs @
                                   [fst (infos ! argmax (map (\<lambda>x. snd (snd x)) infos))]\<rparr>"
      by (auto split: if_splits)
    with False ct ne show ?thesis by simp
  qed
qed

lemma collect_types_preserves:
  assumes "collect_types E agg outs hyp_id hyp tys cs = Inr cs'" and "Q cs"
    and ar: "\<And>c c'. Q c \<Longrightarrow> ApplyRuleAction \<in> set tys \<Longrightarrow>
           apply_rule_candidates E outs hyp_id hyp (get_valid_continuating_productions E hyp) c = Inr c'
           \<Longrightarrow> Q c'"
    and rd: "\<And>c c'. Q c \<Longrightarrow> ReduceAction \<in> set tys \<Longrightarrow>
           reduce_candidate E outs hyp_id hyp c = Inr c' \<Longrightarrow> Q c'"
    and gt: "\<And>c c'. Q c \<Longrightarrow> GenTokenAction \<in> set tys \<Longrightarrow>
           gen_token_candidates E agg outs hyp_id c = Inr c' \<Longrightarrow> Q c'"
  shows "Q cs'"
  using assms
proof (induction tys arbitrary: cs)
  case Nil from Nil.prems(1,2) show ?case by simp
next
  case (Cons a tys)
  from Cons.prems(1) obtain c1 where
    c1: "(case a of ApplyRuleAction \<Rightarrow>
                apply_rule_candidates E outs hyp_id hyp (get_valid_continuating_productions E hyp) cs
            | ReduceAction \<Rightarrow> reduce_candidate E outs hyp_id hyp cs
            | GenTokenAction \<Rightarrow> gen_token_candidates E agg outs hyp_id cs) = Inr c1"
    and rest: "collect_types E agg outs hyp_id hyp tys c1 = Inr cs'"
    by (auto simp: ebind_eq_Inr)
  have q1: "Q c1"
  proof (cases a)
    case ApplyRuleAction
    with c1 have "apply_rule_candidates E outs hyp_id hyp (get_valid_continuating_productions E hyp) cs = Inr c1"
      by simp
    from Cons.prems(3)[OF Cons.prems(2) _ this] ApplyRuleAction show ?thesis by simp
  next
    case ReduceAction
    with c1 have "reduce_candidate E outs hyp_id hyp cs = Inr c1" by simp
    from Cons.prems(4)[OF Cons.prems(2) _ this] ReduceAction show ?thesis by simp
  next
    case GenTokenAction
    with c1 have "gen_token_candidates E agg outs hyp_id cs = Inr c1" by simp
    from Cons.prems(5)[OF Cons.prems(2) _ this] GenTokenAction show ?thesis by simp
  qed
  show ?case
  proof (rule Cons.IH[OF rest q1])
    fix c c' assume "Q c" "ApplyRuleAction \<in> set tys"
      "apply_rule_candidates E outs hyp_id hyp (get_valid_continuating_productions E hyp) c = Inr c'"
    then show "Q c'" using Cons.prems(3)[of c c'] by simp
  next
    fix c c' assume "Q c" "ReduceAction \<in> set tys" "reduce_candidate E outs hyp_id hyp c = Inr c'"
    then show "Q c'" using Cons.prems(4)[of c c'] by simp
  next
    fix c c' assume "Q c" "GenTokenAction \<in> set tys" "gen_token_candidates E agg outs hyp_id c = Inr c'"
    then show "Q c'" using Cons.prems(5)[of c c'] by simp
  qed
qed

lemma collect_hyps_preserves:
  assumes "collect_hyps E agg outs i hyps cs = Inr cs'" and "Q cs"
    and "\<And>j c c'. j < length hyps \<Longrightarrow> Q c \<Longrightarrow>
           ApplyRuleAction \<in> set (get_valid_continuation_types E (hyps ! j)) \<Longrightarrow>
           apply_rule_candidates E outs (i + j) (hyps ! j)
             (get_valid_continuating_productions E (hyps ! j)) c = Inr c' \<Longrightarrow> Q c'"
    and "\<And>j c c'. j < length hyps \<Longrightarrow> Q c \<Longrightarrow>
           ReduceAction \<in> set (get_valid_continuation_types E (hyps ! j)) \<Longrightarrow>
           reduce_candidate E outs (i + j) (hyps ! j) c = Inr c' \<Longrightarrow> Q c'"
    and "\<And>j c c'. j < length hyps \<Longrightarrow> Q c \<Longrightarrow>
           GenTokenAction \<in> set (get_valid_continuation_types E (hyps ! j)) \<Longrightarrow>
           gen_token_candidates E agg outs (i + j) c = Inr c' \<Longrightarrow> Q c'"
  shows "Q cs'"
  using assms
proof (induction hyps arbitrary: i cs)
  case Nil from Nil.prems(1,2) show ?case by simp
next
  case (Cons h hyps)
  from Cons.prems(1) obtain c1 where
    c1: "collect_types E agg outs i h (get_valid_continuation_types E h) cs = Inr c1"
    and rest: "collect_hyps E agg outs (Suc i) hyps c1 = Inr cs'"
    by (auto simp: ebind_eq_Inr)
  have q1: "Q c1"
  proof (rule collect_types_preserves[where Q=Q, OF c1 Cons.prems(2)])
    fix c c' assume "Q c" "ApplyRuleAction \<in> set (get_valid_continuation_types E h)"
      "apply_rule_candidates E outs i h (get_valid_continuating_productions E h) c = Inr c'"
    then show "Q c'" using Cons.prems(3)[of 0 c c'] by simp
  next
    fix c c' assume "Q c" "ReduceAction \<in> set (get_valid_continuation_types E h)"
      "reduce_candidate E outs i h c = Inr c'"
    then show "Q c'" using Cons.prems(4)[of 0 c c'] by simp
  next
    fix c c' assume "Q c" "GenTokenAction \<in> set (get_valid_continuation_types E h)"
      "gen_token_candidates E agg outs i c = Inr c'"
    then show "Q c'" using Cons.prems(5)[of 0 c c'] by simp
  qed
  show ?case
  proof (rule Cons.IH[OF rest q1])
    fix j c c' assume "j < length hyps" "Q c"
      "ApplyRuleAction \<in> set (get_valid_continuation_types E (hyps ! j))"
      "apply_rule_candidates E outs (Suc i + j) (hyps ! j)
             (get_valid_continuating_productions E (hyps ! j)) c = Inr c'"
    then show "Q c'" using Cons.prems(3)[of "Suc j" c c'] by simp
  next
    fix j c c' assume "j < length hyps" "Q c"
      "ReduceAction \<in> set (get_valid_continuation_types E (hyps ! j))"
      "reduce_candidate E outs (Suc i + j) (hyps ! j) c = Inr c'"
    then show "Q c'" using Cons.prems(4)[of "Suc j" c c'] by simp
  next
    fix j c c' assume "j < length hyps" "Q c"
      "GenTokenAction \<in> set (get_valid_continuation_types E (hyps ! j))"
      "gen_token_candidates E agg outs (Suc i + j) c = Inr c'"
    then show "Q c'" using Cons.prems(5)[of "Suc j" c c'] by simp
  qed
qed

subsection \<open>Every candidate stems from a legal continuation\<close>







subsection \<open>Materialising the selected candidates\<close>

lemma apply_pick_Inr:
  assumes "apply_pick E agg rs t hyps sts outs cs scores pos sel = Inr sel'"
  shows "\<exists>pid ph a h. pos < length scores \<and> select_action E hyps cs pos = Inr (pid, ph, a) \<and>
           h = (clone_and_apply_action_info ph (make_action_info E agg t ph a))\<lparr>score := scores ! pos\<rparr> \<and>
           (if completed E h
            then sel_completed sel' = sel_completed sel @ [h] \<and>
                 new_hypotheses sel' = new_hypotheses sel \<and>
                 live_hyp_ids sel' = live_hyp_ids sel
            else new_hypotheses sel' = new_hypotheses sel @ [h] \<and>
                 live_hyp_ids sel' = live_hyp_ids sel @ [pid] \<and>
                 sel_completed sel' = sel_completed sel \<and>
                 sel_saved sel' = sel_saved sel)"
proof -
  from assms obtain x where lt: "pos < length scores"
    and sa: "select_action E hyps cs pos = Inr x"
    and r: "(case x of (prev_hyp_id, prev_hyp, a) \<Rightarrow>
       let new_hyp = (clone_and_apply_action_info prev_hyp
                        (make_action_info E agg t prev_hyp a))\<lparr>score := scores ! pos\<rparr>
       in if completed E new_hyp then
            (if rs then
               ebind (nth_err sts prev_hyp_id) (\<lambda>st.
                 Inr (sel\<lparr>sel_saved := sel_saved sel @
                             [st @ [(h_t (outs prev_hyp_id), cell_t (outs prev_hyp_id),
                                     att_t (outs prev_hyp_id))]],
                          sel_completed := sel_completed sel @ [new_hyp]\<rparr>))
             else Inr (sel\<lparr>sel_completed := sel_completed sel @ [new_hyp]\<rparr>))
          else Inr (sel\<lparr>new_hypotheses := new_hypotheses sel @ [new_hyp],
                        live_hyp_ids := live_hyp_ids sel @ [prev_hyp_id]\<rparr>)) = Inr sel'"
    unfolding apply_pick_def ebind_eq_Inr nth_err_eq_Inr by blast
  obtain pid ph a where x: "x = (pid, ph, a)" by (cases x)
  let ?h = "(clone_and_apply_action_info ph (make_action_info E agg t ph a))\<lparr>score := scores ! pos\<rparr>"
  have "if completed E ?h
            then sel_completed sel' = sel_completed sel @ [?h] \<and>
                 new_hypotheses sel' = new_hypotheses sel \<and>
                 live_hyp_ids sel' = live_hyp_ids sel
            else new_hypotheses sel' = new_hypotheses sel @ [?h] \<and>
                 live_hyp_ids sel' = live_hyp_ids sel @ [pid] \<and>
                 sel_completed sel' = sel_completed sel \<and>
                 sel_saved sel' = sel_saved sel"
    using r unfolding x Let_def
    by (auto simp: ebind_eq_Inr split: if_splits)
  with lt sa x show ?thesis by blast
qed

lemma process_picks_Inr:
  assumes "process_picks E agg rs t hyps sts outs cs scores picks sel = Inr sel'"
  shows "\<exists>news comps.
           new_hypotheses sel' = new_hypotheses sel @ news \<and>
           sel_completed sel' = sel_completed sel @ comps \<and>
           length (live_hyp_ids sel') = length (live_hyp_ids sel) + length news \<and>
           length news + length comps = length picks \<and>
           (\<forall>h\<in>set news. \<not> completed E h) \<and> (\<forall>h\<in>set comps. completed E h) \<and>
           (\<forall>h\<in>set news \<union> set comps. \<exists>pos\<in>set picks. \<exists>pid ph a.
               pos < length scores \<and> select_action E hyps cs pos = Inr (pid, ph, a) \<and>
               h = (clone_and_apply_action_info ph (make_action_info E agg t ph a))
                     \<lparr>score := scores ! pos\<rparr>)"
  using assms
proof (induction picks arbitrary: sel)
  case Nil
  then show ?case by simp
next
  case (Cons pos picks)
  from Cons.prems obtain s1 where
    a1: "apply_pick E agg rs t hyps sts outs cs scores pos sel = Inr s1"
    and rest: "process_picks E agg rs t hyps sts outs cs scores picks s1 = Inr sel'"
    by (auto simp: ebind_eq_Inr)
  from apply_pick_Inr[OF a1] obtain pid ph a h where
    lt: "pos < length scores" and sa: "select_action E hyps cs pos = Inr (pid, ph, a)"
    and h: "h = (clone_and_apply_action_info ph (make_action_info E agg t ph a))\<lparr>score := scores ! pos\<rparr>"
    and c: "if completed E h
            then sel_completed s1 = sel_completed sel @ [h] \<and>
                 new_hypotheses s1 = new_hypotheses sel \<and>
                 live_hyp_ids s1 = live_hyp_ids sel
            else new_hypotheses s1 = new_hypotheses sel @ [h] \<and>
                 live_hyp_ids s1 = live_hyp_ids sel @ [pid] \<and>
                 sel_completed s1 = sel_completed sel \<and>
                 sel_saved s1 = sel_saved sel"
    by blast
  from Cons.IH[OF rest] obtain news comps where
    ih: "new_hypotheses sel' = new_hypotheses s1 @ news"
      "sel_completed sel' = sel_completed s1 @ comps"
      "length (live_hyp_ids sel') = length (live_hyp_ids s1) + length news"
      "length news + length comps = length picks"
      "\<forall>h\<in>set news. \<not> completed E h" "\<forall>h\<in>set comps. completed E h"
      "\<forall>h\<in>set news \<union> set comps. \<exists>pos\<in>set picks. \<exists>pid ph a.
               pos < length scores \<and> select_action E hyps cs pos = Inr (pid, ph, a) \<and>
               h = (clone_and_apply_action_info ph (make_action_info E agg t ph a))
                     \<lparr>score := scores ! pos\<rparr>"
    by blast
  have hp: "\<exists>pos'\<in>set (pos # picks). \<exists>pid ph a.
               pos' < length scores \<and> select_action E hyps cs pos' = Inr (pid, ph, a) \<and>
               h = (clone_and_apply_action_info ph (make_action_info E agg t ph a))
                     \<lparr>score := scores ! pos'\<rparr>"
    using lt sa h by auto
  have tl: "\<forall>h\<in>set news \<union> set comps. \<exists>pos'\<in>set (pos # picks). \<exists>pid ph a.
               pos' < length scores \<and> select_action E hyps cs pos' = Inr (pid, ph, a) \<and>
               h = (clone_and_apply_action_info ph (make_action_info E agg t ph a))
                     \<lparr>score := scores ! pos'\<rparr>"
    using ih(7) by (meson list.set_intros(2))
  show ?case
  proof (cases "completed E h")
    case True
    show ?thesis
      apply (rule exI[of _ news], rule exI[of _ "h # comps"])
      using True c ih(1-6) hp tl by auto
  next
    case False
    show ?thesis
      apply (rule exI[of _ "h # news"], rule exI[of _ comps])
      using False c ih(1-6) hp tl by auto
  qed
qed

subsection \<open>The instance, evaluated\<close>

lemma demo_agg_Suc: "aggregated_primitive_tokens demo_src = [(''a'', [0, Suc 0]), (''b'', [2])]"
  by (simp add: aggregated_primitive_tokens_def demo_src_def)

lemma demo_copy_tokens:
  "copy_tokens (prim_vocab demo_env) [1/4, 1/4, 1/2] (1/2) [(''a'', [0, Suc 0]), (''b'', [2])] [1/4, 1/4] []
     = Inr ([1/4, 1/2], [(''b'', [2], 1/4)])"
  by (simp add: demo_env_def nth_err_def)

lemma demo_gen:
  "gen_token_candidates demo_env (aggregated_primitive_tokens demo_src) (\<lambda>i. demo_out (Suc 0)) 0
      (init_cands demo_env (\<lambda>i. demo_out (Suc 0)))
   = Inr ((init_cands demo_env (\<lambda>i. demo_out (Suc 0)))
           \<lparr>gentoken_prev_hyp_ids := [0], gentoken_new_hyp_unks := [''b''],
            primitive_prob := (\<lambda>i. if i = 0 then [1/4, 1/2] else [1/4, 1/4])\<rparr>)"
proof -
  have a: "primitive_prob (init_cands demo_env (\<lambda>i. demo_out (Suc 0))) = (\<lambda>i. [1/4, 1/4])"
    by (simp add: init_cands_def init_primitive_prob_def demo_env_def demo_out_def)
  have b: "primitive_copy_prob (demo_out (Suc 0)) = [1/4, 1/4, 1/2]"
    "snd (primitive_predictor_prob (demo_out (Suc 0))) = 1/2" by (simp_all add: demo_out_def)
  have c: "\<not> no_copy demo_env" "unk demo_env = 0" by (simp_all add: demo_env_def)
  have d: "(\<lambda>i. [1/4, 1/4::real])(0 := [1/4, 1/2]) = (\<lambda>i. if i = 0 then [1/4, 1/2] else [1/4, 1/4])"
    by auto
  have ct: "copy_tokens (prim_vocab demo_env) (primitive_copy_prob (demo_out (Suc 0)))
              (snd (primitive_predictor_prob (demo_out (Suc 0))))
              (aggregated_primitive_tokens demo_src)
              (primitive_prob (init_cands demo_env (\<lambda>i. demo_out (Suc 0))) 0) []
            = Inr ([1/4, 1/2], [(''b'', [2], 1/4)])"
    by (simp only: a b demo_agg_Suc demo_copy_tokens)
  show ?thesis
    unfolding gen_token_candidates_def Let_def ct
    by (simp add: a c d argmax_def) (simp add: init_cands_def)
qed

lemma demo_collect:
  "collect_hyps demo_env (aggregated_primitive_tokens demo_src) (\<lambda>i. demo_out (Suc 0)) 0 [demo_hyp1]
      (init_cands demo_env (\<lambda>i. demo_out (Suc 0))) = Inr demo_cands1"
proof -
  have t: "get_valid_continuation_types demo_env demo_hyp1 = [GenTokenAction, ReduceAction]"
    by (simp add: demo_env_def demo_types_def demo_hyp1_def)
  have r: "reduce_candidate demo_env (\<lambda>i. demo_out (Suc 0)) 0 demo_hyp1 c
            = Inr (add_applyrule (Fin 0) (Suc 0) 0 c)" for c
    by (simp add: reduce_candidate_def demo_env_def demo_out_def nth_err_def demo_hyp1_def)
  have "collect_hyps demo_env (aggregated_primitive_tokens demo_src) (\<lambda>i. demo_out (Suc 0)) 0 [demo_hyp1]
      (init_cands demo_env (\<lambda>i. demo_out (Suc 0)))
    = Inr (add_applyrule (Fin 0) (Suc 0) 0 ((init_cands demo_env (\<lambda>i. demo_out (Suc 0)))
           \<lparr>gentoken_prev_hyp_ids := [0], gentoken_new_hyp_unks := [''b''],
            primitive_prob := (\<lambda>i. if i = 0 then [1/4, 1/2] else [1/4, 1/4])\<rparr>))"
    by (simp add: t demo_gen r)
  then show ?thesis
    by (simp add: add_applyrule_def demo_cands1_def init_cands_def)
qed

lemma demo_scores:
  "new_hyp_scores [Fin 0] demo_cands1 = Inr [Fin 0, Fin (ln (1/4)), Fin (ln (1/2))]"
  by (simp add: new_hyp_scores_def demo_cands1_def nth_err_def torch_log_def)

lemma demo_step_candidates:
  "step_candidates demo_env demo_src demo_beam1
     = Inr (demo_cands1, [Fin 0, Fin (ln (1/4)), Fin (ln (1/2))])"
proof -
  have s: "scorer demo_env demo_src (Suc 0) [demo_hyp1] [[([], [], [])]] [([], [])] [[]]
            = (\<lambda>i. demo_out (Suc 0))"
    by (simp add: demo_env_def)
  show ?thesis
    by (simp add: step_candidates_def Let_def demo_beam1_def s demo_collect demo_scores
          del: collect_hyps.simps)
qed

lemma demo_topk: "topk_first [Fin 0, Fin (ln (1/4)), Fin (ln (1/2))] (Suc 0) = [0]"
  by (simp add: topk_first_def sort_desc_def upt_conv_Cons)

subsection \<open>One step of the search\<close>

lemma step_candidates_Inr:
  assumes "step_candidates E src_sent b = Inr (cs, scores)"
  shows "collect_hyps E (aggregated_primitive_tokens src_sent)
           (scorer E src_sent (beam_t b) (hypotheses b) (hyp_states b) (h_tm1 b) (att_tm1 b))
           0 (hypotheses b)
           (init_cands E (scorer E src_sent (beam_t b) (hypotheses b) (hyp_states b) (h_tm1 b) (att_tm1 b)))
         = Inr cs \<and> new_hyp_scores (hyp_scores b) cs = Inr scores"
  using assms unfolding step_candidates_def Let_def
  by (auto simp: ebind_eq_Inr simp del: collect_hyps.simps)

lemma step_selection_Inr:
  assumes "step_selection E src_sent rs beam_size b = Inr sel"
  shows "\<exists>cs scores. step_candidates E src_sent b = Inr (cs, scores) \<and>
           process_picks E (aggregated_primitive_tokens src_sent) rs (beam_t b)
             (hypotheses b) (hyp_states b)
             (scorer E src_sent (beam_t b) (hypotheses b) (hyp_states b) (h_tm1 b) (att_tm1 b))
             cs scores (topk E scores (step_k beam_size b scores))
             \<lparr>live_hyp_ids = [], new_hypotheses = [],
              sel_completed = completed_hypotheses b, sel_saved = saved_states b\<rparr> = Inr sel"
  using assms unfolding step_selection_def ebind_eq_Inr
  by (auto simp del: process_picks.simps)

lemma step_selection_shape:
  assumes "step_selection E src_sent rs beam_size b = Inr sel"
  shows "\<exists>cs scores comps.
           step_candidates E src_sent b = Inr (cs, scores) \<and>
           sel_completed sel = completed_hypotheses b @ comps \<and>
           length (live_hyp_ids sel) = length (new_hypotheses sel) \<and>
           length (new_hypotheses sel) + length comps
             = length (topk E scores (step_k beam_size b scores)) \<and>
           (\<forall>h\<in>set (new_hypotheses sel). \<not> completed E h) \<and>
           (\<forall>h\<in>set comps. completed E h) \<and>
           (\<forall>h\<in>set (new_hypotheses sel) \<union> set comps.
              \<exists>pos\<in>set (topk E scores (step_k beam_size b scores)). \<exists>pid ph a.
                pos < length scores \<and>
                select_action E (hypotheses b) cs pos = Inr (pid, ph, a) \<and>
                h = (clone_and_apply_action_info ph
                       (make_action_info E (aggregated_primitive_tokens src_sent) (beam_t b) ph a))
                      \<lparr>score := scores ! pos\<rparr>)"
proof -
  from step_selection_Inr[OF assms] obtain cs scores where
    sc: "step_candidates E src_sent b = Inr (cs, scores)"
    and pp: "process_picks E (aggregated_primitive_tokens src_sent) rs (beam_t b)
             (hypotheses b) (hyp_states b)
             (scorer E src_sent (beam_t b) (hypotheses b) (hyp_states b) (h_tm1 b) (att_tm1 b))
             cs scores (topk E scores (step_k beam_size b scores))
             \<lparr>live_hyp_ids = [], new_hypotheses = [],
              sel_completed = completed_hypotheses b, sel_saved = saved_states b\<rparr> = Inr sel"
    by blast
  from process_picks_Inr[OF pp] sc show ?thesis by simp
qed


lemma demo_step_selection:
  "step_selection demo_env demo_src False (Suc 0) demo_beam1 = Inr demo_sel1"
proof -
  have k: "step_k (Suc 0) demo_beam1 [Fin 0, Fin (ln (1/4)), Fin (ln (1/2))] = Suc 0"
    by (simp add: step_k_def demo_beam1_def)
  have tk: "topk demo_env = topk_first" by (simp add: demo_env_def)
  have sa: "select_action demo_env [demo_hyp1] demo_cands1 0 = Inr (0, demo_hyp1, Reduce)"
    by (simp add: select_action_def demo_cands1_def nth_err_def demo_env_def)
  have mk: "(clone_and_apply_action_info demo_hyp1
               (make_action_info demo_env (aggregated_primitive_tokens demo_src) (Suc 0) demo_hyp1 Reduce))
              \<lparr>score := Fin 0\<rparr> = demo_hyp2"
    by (simp add: clone_and_apply_action_info_def make_action_info_def demo_hyp1_def demo_hyp2_def
          demo_env_def)
  have cp: "completed demo_env demo_hyp2"
    by (simp add: demo_env_def demo_completed_def demo_hyp2_def)
  have ap: "apply_pick demo_env (aggregated_primitive_tokens demo_src) False (Suc 0) [demo_hyp1]
              sts outs demo_cands1 [Fin 0, Fin (ln (1/4)), Fin (ln (1/2))] 0
              \<lparr>live_hyp_ids = [], new_hypotheses = [], sel_completed = [], sel_saved = []\<rparr>
            = Inr demo_sel1" for sts outs
    unfolding apply_pick_def Let_def
    by (simp add: nth_err_def sa mk cp demo_sel1_def)
  show ?thesis
    unfolding step_selection_def demo_step_candidates
    apply (simp add: k tk demo_topk del: process_picks.simps)
    apply (simp add: demo_beam1_def ap)
    done
qed


lemma beam_step_Inr:
  assumes "beam_step E src_sent rs beam_size b = Inr (cont, b')"
  shows "\<exists>sel. step_selection E src_sent rs beam_size b = Inr sel \<and>
           completed_hypotheses b' = sel_completed sel \<and>
           (if live_hyp_ids sel \<noteq> []
            then cont \<and> hypotheses b' = new_hypotheses sel \<and>
                 hyp_scores b' = map score (new_hypotheses sel) \<and>
                 beam_t b' = Suc (beam_t b)
            else \<not> cont \<and> hypotheses b' = hypotheses b \<and> beam_t b' = beam_t b \<and>
                 hyp_scores b' = hyp_scores b)"
proof -
  from assms obtain sel where s: "step_selection E src_sent rs beam_size b = Inr sel"
    and r: "(if live_hyp_ids sel \<noteq> [] then
             ebind (extend_states (hyp_states b)
                      (scorer E src_sent (beam_t b) (hypotheses b) (hyp_states b) (h_tm1 b) (att_tm1 b))
                      (live_hyp_ids sel)) (\<lambda>hs.
               Inr (True,
                    b\<lparr>hyp_states := hs,
                      h_tm1 := map (\<lambda>i. (h_t (scorer E src_sent (beam_t b) (hypotheses b) (hyp_states b) (h_tm1 b) (att_tm1 b) i),
                                          cell_t (scorer E src_sent (beam_t b) (hypotheses b) (hyp_states b) (h_tm1 b) (att_tm1 b) i)))
                                  (live_hyp_ids sel),
                      att_tm1 := map (\<lambda>i. att_t (scorer E src_sent (beam_t b) (hypotheses b) (hyp_states b) (h_tm1 b) (att_tm1 b) i))
                                  (live_hyp_ids sel),
                      hypotheses := new_hypotheses sel,
                      hyp_scores := map score (new_hypotheses sel),
                      beam_t := Suc (beam_t b),
                      completed_hypotheses := sel_completed sel,
                      saved_states := sel_saved sel\<rparr>))
           else Inr (False, b\<lparr>completed_hypotheses := sel_completed sel,
                               saved_states := sel_saved sel\<rparr>)) = Inr (cont, b')"
    unfolding beam_step_def Let_def ebind_eq_Inr by blast
  show ?thesis
  proof (cases "live_hyp_ids sel = []")
    case True
    with r have "cont = False" "b' = b\<lparr>completed_hypotheses := sel_completed sel,
                               saved_states := sel_saved sel\<rparr>" by simp_all
    with s True show ?thesis by simp
  next
    case False
    with r obtain hs where "cont = True"
      "b' = b\<lparr>hyp_states := hs,
                      h_tm1 := map (\<lambda>i. (h_t (scorer E src_sent (beam_t b) (hypotheses b) (hyp_states b) (h_tm1 b) (att_tm1 b) i),
                                          cell_t (scorer E src_sent (beam_t b) (hypotheses b) (hyp_states b) (h_tm1 b) (att_tm1 b) i)))
                                  (live_hyp_ids sel),
                      att_tm1 := map (\<lambda>i. att_t (scorer E src_sent (beam_t b) (hypotheses b) (hyp_states b) (h_tm1 b) (att_tm1 b) i))
                                  (live_hyp_ids sel),
                      hypotheses := new_hypotheses sel,
                      hyp_scores := map score (new_hypotheses sel),
                      beam_t := Suc (beam_t b),
                      completed_hypotheses := sel_completed sel,
                      saved_states := sel_saved sel\<rparr>"
      by (auto simp: ebind_eq_Inr)
    with s False show ?thesis by simp
  qed
qed

lemma topk_honest_length:
  assumes "topk_honest E src_sent beam_size b"
    and "step_candidates E src_sent b = Inr (cs, scores)"
  shows "topk_ok scores (step_k beam_size b scores) (topk E scores (step_k beam_size b scores))"
  using assms by (simp add: topk_honest_def)

text \<open>
  Claim C7.  Take a step of the loop, entered with fewer than \<open>beam_size\<close> completed
  hypotheses, in which \<open>torch.topk\<close> returns as many positions as it is asked for.
  When the loop goes on, the live hypotheses and the completed ones are together at
  least one and at most \<open>beam_size\<close>.  When the loop breaks because no live hypothesis
  survives the step, the survivors are none and the completed ones are at most
  \<open>beam_size\<close>.
\<close>

theorem beam_size_invariant:
  assumes "length (completed_hypotheses b) < beam_size"
    and "topk_honest E src_sent beam_size b"
    and "beam_step E src_sent rs beam_size b = Inr (cont, b')"
  shows "length (completed_hypotheses b') \<le> beam_size \<and>
         (if cont
          then 1 \<le> length (hypotheses b') + length (completed_hypotheses b') \<and>
               length (hypotheses b') + length (completed_hypotheses b') \<le> beam_size
          else \<exists>sel. step_selection E src_sent rs beam_size b = Inr sel \<and>
                 new_hypotheses sel = [] \<and> hypotheses b' = hypotheses b)"
proof -
  from beam_step_Inr[OF assms(3)] obtain sel where
    s: "step_selection E src_sent rs beam_size b = Inr sel"
    and c: "completed_hypotheses b' = sel_completed sel"
    and i: "if live_hyp_ids sel \<noteq> []
            then cont \<and> hypotheses b' = new_hypotheses sel \<and>
                 hyp_scores b' = map score (new_hypotheses sel) \<and>
                 beam_t b' = Suc (beam_t b)
            else \<not> cont \<and> hypotheses b' = hypotheses b \<and> beam_t b' = beam_t b \<and>
                 hyp_scores b' = hyp_scores b"
    by blast
  from step_selection_shape[OF s] obtain cs scores comps where
    sc: "step_candidates E src_sent b = Inr (cs, scores)"
    and sc2: "sel_completed sel = completed_hypotheses b @ comps"
    and l: "length (live_hyp_ids sel) = length (new_hypotheses sel)"
    and n: "length (new_hypotheses sel) + length comps
             = length (topk E scores (step_k beam_size b scores))"
    by blast
  from topk_honest_length[OF assms(2) sc]
  have "length (topk E scores (step_k beam_size b scores)) = step_k beam_size b scores"
    by (simp add: topk_ok_def)
  with n have "length (new_hypotheses sel) + length comps \<le> beam_size - length (completed_hypotheses b)"
    by (simp add: step_k_def)
  with assms(1) sc2 have bound: "length (new_hypotheses sel) + length (sel_completed sel) \<le> beam_size"
    by simp
  show ?thesis
  proof (cases "live_hyp_ids sel = []")
    case True
    with l have "new_hypotheses sel = []" by simp
    with True i s c bound show ?thesis by auto
  next
    case False
    with l have "new_hypotheses sel \<noteq> []" by auto
    then have "1 \<le> length (new_hypotheses sel)" by (cases "new_hypotheses sel") simp_all
    with False i c bound show ?thesis by auto
  qed
qed

lemma demo_step_candidates0:
  "step_candidates demo_env demo_src demo_beam0 = Inr (demo_cands0, [Fin 0])"
proof -
  have s: "scorer demo_env demo_src 0 [DecodeHypothesis] [[]] [([], [])] [] = (\<lambda>i. demo_out 0)"
    by (simp add: demo_env_def)
  have t: "get_valid_continuation_types demo_env DecodeHypothesis = [ApplyRuleAction]"
    "get_valid_continuating_productions demo_env DecodeHypothesis = [''Root'']"
    by (simp_all add: demo_env_def demo_types_def DecodeHypothesis_def)
  have a: "apply_rule_candidates demo_env (\<lambda>i. demo_out 0) 0 DecodeHypothesis [''Root''] c
            = Inr (add_applyrule (Fin 0) 0 0 c)" for c
    by (simp add: demo_env_def demo_out_def nth_err_def lookup_err_def DecodeHypothesis_def)
  have i: "add_applyrule (Fin 0) 0 0 (init_cands demo_env (\<lambda>i. demo_out 0)) = demo_cands0"
    by (simp add: add_applyrule_def init_cands_def demo_cands0_def init_primitive_prob_def
          demo_env_def demo_out_def)
  have c: "collect_hyps demo_env (aggregated_primitive_tokens demo_src) (\<lambda>i. demo_out 0) 0
             [DecodeHypothesis] (init_cands demo_env (\<lambda>i. demo_out 0)) = Inr demo_cands0"
    by (simp add: t a i del: apply_rule_candidates.simps)
  have n: "new_hyp_scores [Fin 0] demo_cands0 = Inr [Fin 0]"
    by (simp add: new_hyp_scores_def demo_cands0_def)
  show ?thesis
    by (simp add: step_candidates_def Let_def demo_beam0_def s c n del: collect_hyps.simps)
qed

lemma demo_topk0: "topk_first [Fin 0] (Suc 0) = [0]"
  by (simp add: topk_first_def sort_desc_def)

lemma demo_step_selection0:
  "step_selection demo_env demo_src False (Suc 0) demo_beam0
     = Inr \<lparr>live_hyp_ids = [0], new_hypotheses = [demo_hyp1], sel_completed = [], sel_saved = []\<rparr>"
proof -
  have k: "step_k (Suc 0) demo_beam0 [Fin 0] = Suc 0"
    by (simp add: step_k_def demo_beam0_def)
  have tk: "topk demo_env = topk_first" by (simp add: demo_env_def)
  have sa: "select_action demo_env [DecodeHypothesis] demo_cands0 0
              = Inr (0, DecodeHypothesis, ApplyRule ''Root'')"
    by (simp add: select_action_def demo_cands0_def nth_err_def lookup_err_def demo_env_def)
  have mk: "(clone_and_apply_action_info DecodeHypothesis
               (make_action_info demo_env (aggregated_primitive_tokens demo_src) 0 DecodeHypothesis
                  (ApplyRule ''Root'')))\<lparr>score := Fin 0\<rparr> = demo_hyp1"
    by (simp add: clone_and_apply_action_info_def make_action_info_def demo_hyp1_def
          DecodeHypothesis_def)
  have cp: "\<not> completed demo_env demo_hyp1"
    by (simp add: demo_env_def demo_completed_def demo_hyp1_def)
  have ap: "apply_pick demo_env (aggregated_primitive_tokens demo_src) False 0 [DecodeHypothesis]
              sts outs demo_cands0 [Fin 0] 0
              \<lparr>live_hyp_ids = [], new_hypotheses = [], sel_completed = [], sel_saved = []\<rparr>
            = Inr \<lparr>live_hyp_ids = [0], new_hypotheses = [demo_hyp1], sel_completed = [],
                   sel_saved = []\<rparr>" for sts outs
    unfolding apply_pick_def Let_def
    by (simp add: nth_err_def sa mk cp)
  show ?thesis
    unfolding step_selection_def demo_step_candidates0
    apply (simp add: k tk demo_topk0 del: process_picks.simps)
    apply (simp add: demo_beam0_def ap)
    done
qed

lemma demo_beam_step0:
  "beam_step demo_env demo_src False (Suc 0) demo_beam0 = Inr (True, demo_beam1)"
proof -
  have s: "scorer demo_env demo_src (beam_t demo_beam0) (hypotheses demo_beam0)
             (hyp_states demo_beam0) (h_tm1 demo_beam0) (att_tm1 demo_beam0) = (\<lambda>i. demo_out 0)"
    by (simp add: demo_env_def demo_beam0_def)
  show ?thesis
    unfolding beam_step_def Let_def demo_step_selection0 s
    by (simp add: demo_beam0_def demo_beam1_def demo_out_def nth_err_def demo_hyp1_def)
qed

theorem beam_size_invariant_witness:
  "length (completed_hypotheses demo_beam0) < Suc 0 \<and>
   topk_honest demo_env demo_src (Suc 0) demo_beam0 \<and>
   beam_step demo_env demo_src False (Suc 0) demo_beam0 = Inr (True, demo_beam1) \<and>
   length (hypotheses demo_beam1) + length (completed_hypotheses demo_beam1) = Suc 0"
proof -
  have h1: "length (completed_hypotheses demo_beam0) < Suc 0" by (simp add: demo_beam0_def)
  have h2: "topk_honest demo_env demo_src (Suc 0) demo_beam0"
    unfolding topk_honest_def demo_step_candidates0
    by (simp add: step_k_def demo_beam0_def demo_env_def demo_topk0 topk_ok_def)
  from beam_size_invariant[OF h1 h2 demo_beam_step0]
  have "1 \<le> length (hypotheses demo_beam1) + length (completed_hypotheses demo_beam1)"
    "length (hypotheses demo_beam1) + length (completed_hypotheses demo_beam1) \<le> Suc 0"
    by simp_all
  then have "length (hypotheses demo_beam1) + length (completed_hypotheses demo_beam1) = Suc 0"
    by simp
  with h1 h2 demo_beam_step0 show ?thesis by simp
qed

subsection \<open>The loop and the result\<close>

lemma sort_desc_props:
  "set (sort_desc f xs) = set xs"
  "length (sort_desc f xs) = length xs"
  "sorted_wrt (\<lambda>x y. f y \<le> f x) (sort_desc f xs)"
proof -
  show "set (sort_desc f xs) = set xs" by (simp add: sort_desc_def)
  show "length (sort_desc f xs) = length xs" by (simp add: sort_desc_def)
  have "sorted (map f (sort_key f (rev xs)))" by (rule sorted_sort_key)
  then have "sorted_wrt (\<lambda>x y. f x \<le> f y) (sort_key f (rev xs))"
    by (simp add: sorted_wrt_map)
  then show "sorted_wrt (\<lambda>x y. f y \<le> f x) (sort_desc f xs)"
    by (simp add: sort_desc_def sorted_wrt_rev)
qed

lemma beam_step_ok:
  assumes "beam_step E src_sent rs beam_size b = Inr (cont, b')" and "beam_ok E b"
  shows "beam_ok E b'"
proof -
  from beam_step_Inr[OF assms(1)] obtain sel where
    s: "step_selection E src_sent rs beam_size b = Inr sel"
    and c: "completed_hypotheses b' = sel_completed sel"
    and i: "if live_hyp_ids sel \<noteq> []
            then cont \<and> hypotheses b' = new_hypotheses sel \<and>
                 hyp_scores b' = map score (new_hypotheses sel) \<and>
                 beam_t b' = Suc (beam_t b)
            else \<not> cont \<and> hypotheses b' = hypotheses b \<and> beam_t b' = beam_t b \<and>
                 hyp_scores b' = hyp_scores b"
    by blast
  from step_selection_shape[OF s] obtain comps where
    sc2: "sel_completed sel = completed_hypotheses b @ comps"
    and n: "\<forall>h\<in>set (new_hypotheses sel). \<not> completed E h"
    and m: "\<forall>h\<in>set comps. completed E h"
    by blast
  have "\<forall>h\<in>set (hypotheses b'). \<not> completed E h"
    using i n assms(2) by (auto simp: beam_ok_def split: if_splits)
  moreover have "\<forall>h\<in>set (completed_hypotheses b'). completed E h"
    using c sc2 m assms(2) by (auto simp: beam_ok_def)
  ultimately show ?thesis by (simp add: beam_ok_def)
qed

lemma parse_loop_ok:
  "parse_loop E src_sent rs beam_size b = Inr b' \<Longrightarrow> beam_ok E b \<Longrightarrow> beam_ok E b'"
proof (induction E src_sent rs beam_size b rule: parse_loop.induct)
  case (1 E src_sent rs beam_size b)
  show ?case
  proof (cases "length (completed_hypotheses b) < beam_size \<and> beam_t b < decode_max_time_step E")
    case False
    with "1.prems"(1) have "b' = b" by (simp add: parse_loop.simps[of E src_sent rs beam_size b])
    with "1.prems"(2) show ?thesis by simp
  next
    case True
    show ?thesis
    proof (cases "beam_step E src_sent rs beam_size b")
      case (Inl e)
      with True "1.prems"(1) show ?thesis
        by (simp add: parse_loop.simps[of E src_sent rs beam_size b])
    next
      case (Inr r)
      then have bs: "beam_step E src_sent rs beam_size b = Inr (fst r, snd r)" by simp
      from beam_step_ok[OF bs "1.prems"(2)] have ok: "beam_ok E (snd r)" .
      show ?thesis
      proof (cases "fst r")
        case False
        with True Inr "1.prems"(1) have "b' = snd r"
          by (simp add: parse_loop.simps[of E src_sent rs beam_size b])
        with ok show ?thesis by simp
      next
        case c: True
        with True Inr "1.prems"(1)
        have "parse_loop E src_sent rs beam_size ((snd r)\<lparr>beam_t := Suc (beam_t b)\<rparr>) = Inr b'"
          by (simp add: parse_loop.simps[of E src_sent rs beam_size b])
        moreover have "beam_ok E ((snd r)\<lparr>beam_t := Suc (beam_t b)\<rparr>)"
          using ok by (simp add: beam_ok_def)
        ultimately show ?thesis using "1.IH"[OF True Inr c] by blast
      qed
    qed
  qed
qed

text \<open>
  Claim C6.  Let \<open>parse\<close> start from a hypothesis that is not completed (a fresh one, or
  the partial one handed in) and return.  Its result is sorted in descending order of
  the score.  If no hypothesis was completed when the loop ended (at the step bound, at
  the beam size, or because no live hypothesis survived a step), the result consists of
  the live hypotheses, none of which is completed; otherwise it consists of the completed
  hypotheses.
\<close>

theorem parse_returns_sorted:
  assumes "\<not> completed E (case hyp of None \<Rightarrow> DecodeHypothesis | Some h \<Rightarrow> h)"
    and "parse E src_sent hyp states rs beam_size = Inr (result, saved)"
  shows "\<exists>b0 b. init_beam E src_sent hyp states = Inr b0 \<and>
           parse_loop E src_sent rs beam_size b0 = Inr b \<and>
           sorted_wrt (\<lambda>x y. score y \<le> score x) result \<and>
           (if completed_hypotheses b = []
            then result = sort_desc score (hypotheses b) \<and>
                 set result = set (hypotheses b) \<and> (\<forall>h\<in>set result. \<not> completed E h)
            else result = sort_desc score (completed_hypotheses b) \<and>
                 set result = set (completed_hypotheses b) \<and> (\<forall>h\<in>set result. completed E h))"
proof -
  from assms(2) obtain b0 b where
    i: "init_beam E src_sent hyp states = Inr b0"
    and l: "parse_loop E src_sent rs beam_size b0 = Inr b"
    and r: "parse_result rs b = (result, saved)"
    unfolding parse_def ebind_eq_Inr by auto
  have "beam_ok E b0"
  proof (cases hyp)
    case None
    with i assms(1) show ?thesis by (auto simp: init_beam_def beam_ok_def)
  next
    case (Some h)
    with i assms(1) show ?thesis by (auto simp: init_beam_def beam_ok_def ebind_eq_Inr)
  qed
  from parse_loop_ok[OF l this] have ok: "beam_ok E b" .
  from r have res: "result = sort_desc score (if completed_hypotheses b \<noteq> []
                      then completed_hypotheses b else hypotheses b)"
    by (simp add: parse_result_def)
  have srt: "sorted_wrt (\<lambda>x y. score y \<le> score x) result"
    unfolding res by (rule sort_desc_props(3))
  show ?thesis
  proof (cases "completed_hypotheses b = []")
    case True
    with res have "result = sort_desc score (hypotheses b)" by simp
    moreover from this have "set result = set (hypotheses b)" by (simp add: sort_desc_props(1))
    moreover from this ok have "\<forall>h\<in>set result. \<not> completed E h" by (simp add: beam_ok_def)
    ultimately show ?thesis using i l srt True by auto
  next
    case False
    with res have "result = sort_desc score (completed_hypotheses b)" by simp
    moreover from this have "set result = set (completed_hypotheses b)"
      by (simp add: sort_desc_props(1))
    moreover from this ok have "\<forall>h\<in>set result. completed E h" by (simp add: beam_ok_def)
    ultimately show ?thesis using i l srt False by auto
  qed
qed

lemma demo_beam_step1:
  "beam_step demo_env demo_src False (Suc 0) demo_beam1
     = Inr (False, demo_beam1\<lparr>completed_hypotheses := [demo_hyp2], saved_states := []\<rparr>)"
  unfolding beam_step_def Let_def demo_step_selection
  by (simp add: demo_sel1_def)

lemma demo_parse_loop:
  "parse_loop demo_env demo_src False (Suc 0) demo_beam0
     = Inr (demo_beam1\<lparr>completed_hypotheses := [demo_hyp2], saved_states := []\<rparr>)"
proof -
  have g0: "length (completed_hypotheses demo_beam0) < Suc 0 \<and>
            beam_t demo_beam0 < decode_max_time_step demo_env"
    by (simp add: demo_beam0_def demo_env_def)
  have g1: "length (completed_hypotheses demo_beam1) < Suc 0 \<and>
            beam_t demo_beam1 < decode_max_time_step demo_env"
    by (simp add: demo_beam1_def demo_env_def)
  have u: "demo_beam1\<lparr>beam_t := Suc (beam_t demo_beam0)\<rparr> = demo_beam1"
    by (simp add: demo_beam1_def demo_beam0_def)
  have l1: "parse_loop demo_env demo_src False (Suc 0) demo_beam1
     = Inr (demo_beam1\<lparr>completed_hypotheses := [demo_hyp2], saved_states := []\<rparr>)"
    by (subst parse_loop.simps) (simp only: g1 demo_beam_step1 if_True sum.case fst_conv snd_conv if_False simp_thms)
  show ?thesis
    by (subst parse_loop.simps)
       (simp only: g0 demo_beam_step0 if_True sum.case fst_conv snd_conv u l1 simp_thms)
qed

theorem parse_returns_sorted_witness:
  "\<not> completed demo_env DecodeHypothesis \<and>
   parse demo_env demo_src None [] False (Suc 0) = Inr ([demo_hyp2], None) \<and>
   completed demo_env demo_hyp2 \<and>
   sorted_wrt (\<lambda>x y. score y \<le> score x) [demo_hyp2]"
proof -
  have h1: "\<not> completed demo_env (case None of None \<Rightarrow> DecodeHypothesis | Some h \<Rightarrow> h)"
    by (simp add: demo_env_def demo_completed_def DecodeHypothesis_def)
  have ib: "init_beam demo_env demo_src None [] = Inr demo_beam0"
    by (simp add: init_beam_def demo_beam0_def demo_env_def)
  have h2: "parse demo_env demo_src None [] False (Suc 0) = Inr ([demo_hyp2], None)"
    unfolding parse_def ib ebind_simps demo_parse_loop
    by (simp add: parse_result_def demo_beam1_def sort_desc_def)
  from parse_returns_sorted[OF h1 h2] obtain b where
    "parse_loop demo_env demo_src False (Suc 0) demo_beam0 = Inr b"
    "sorted_wrt (\<lambda>x y. score y \<le> score x) [demo_hyp2]"
    "if completed_hypotheses b = []
     then [demo_hyp2] = sort_desc score (hypotheses b) \<and>
          set [demo_hyp2] = set (hypotheses b) \<and> (\<forall>h\<in>set [demo_hyp2]. \<not> completed demo_env h)
     else [demo_hyp2] = sort_desc score (completed_hypotheses b) \<and>
          set [demo_hyp2] = set (completed_hypotheses b) \<and> (\<forall>h\<in>set [demo_hyp2]. completed demo_env h)"
    unfolding ib by auto
  then have "completed demo_env demo_hyp2" "sorted_wrt (\<lambda>x y. score y \<le> score x) [demo_hyp2]"
    unfolding demo_parse_loop by (auto simp: demo_beam1_def)
  with h1 h2 show ?thesis by simp
qed

subsection \<open>Re-entry with a partial hypothesis\<close>

lemma resume_copy_tokens:
  "copy_tokens (prim_vocab resume_env) [1/4, 1/4, 1/2] (1/2) [(''a'', [0, Suc 0]), (''b'', [2])] [1/4, 1/4] []
     = Inr ([1/4, 1/2], [(''b'', [2], 1/4)])"
  by (simp add: resume_env_def demo_env_def nth_err_def)

lemma resume_gen:
  "gen_token_candidates resume_env (aggregated_primitive_tokens demo_src) (\<lambda>i. resume_out) 0
      (init_cands resume_env (\<lambda>i. resume_out))
   = Inr ((init_cands resume_env (\<lambda>i. resume_out))
           \<lparr>gentoken_prev_hyp_ids := [0], gentoken_new_hyp_unks := [''b''],
            primitive_prob := (\<lambda>i. if i = 0 then [1/4, 1/2] else [1/4, 1/4])\<rparr>)"
proof -
  have a: "primitive_prob (init_cands resume_env (\<lambda>i. resume_out)) = (\<lambda>i. [1/4, 1/4])"
    by (simp add: init_cands_def init_primitive_prob_def resume_env_def demo_env_def resume_out_def)
  have b: "primitive_copy_prob resume_out = [1/4, 1/4, 1/2]"
    "snd (primitive_predictor_prob resume_out) = 1/2" by (simp_all add: resume_out_def)
  have c: "\<not> no_copy resume_env" "unk resume_env = 0" by (simp_all add: resume_env_def demo_env_def)
  have d: "(\<lambda>i. [1/4, 1/4::real])(0 := [1/4, 1/2]) = (\<lambda>i. if i = 0 then [1/4, 1/2] else [1/4, 1/4])"
    by auto
  have ct: "copy_tokens (prim_vocab resume_env) (primitive_copy_prob resume_out)
              (snd (primitive_predictor_prob resume_out))
              (aggregated_primitive_tokens demo_src)
              (primitive_prob (init_cands resume_env (\<lambda>i. resume_out)) 0) []
            = Inr ([1/4, 1/2], [(''b'', [2], 1/4)])"
    by (simp only: a b demo_agg_Suc resume_copy_tokens)
  show ?thesis
    unfolding gen_token_candidates_def Let_def ct
    by (simp add: a c d argmax_def) (simp add: init_cands_def)
qed

lemma resume_collect:
  "collect_hyps resume_env (aggregated_primitive_tokens demo_src) (\<lambda>i. resume_out) 0 [resume_hyp1]
      (init_cands resume_env (\<lambda>i. resume_out)) = Inr resume_cands1"
proof -
  have t: "get_valid_continuation_types resume_env resume_hyp1 = [GenTokenAction, ReduceAction]"
    by (simp add: resume_env_def demo_env_def demo_types_def demo_hyp1_def resume_hyp1_def)
  have r: "reduce_candidate resume_env (\<lambda>i. resume_out) 0 resume_hyp1 c
            = Inr (add_applyrule (Fin (ln (1/2) + ln (1/2))) (Suc 0) 0 c)" for c
    by (simp add: reduce_candidate_def resume_env_def demo_env_def resume_out_def nth_err_def
          resume_hyp1_def)
  have "collect_hyps resume_env (aggregated_primitive_tokens demo_src) (\<lambda>i. resume_out) 0 [resume_hyp1]
      (init_cands resume_env (\<lambda>i. resume_out))
    = Inr (add_applyrule (Fin (ln (1/2) + ln (1/2))) (Suc 0) 0 ((init_cands resume_env (\<lambda>i. resume_out))
           \<lparr>gentoken_prev_hyp_ids := [0], gentoken_new_hyp_unks := [''b''],
            primitive_prob := (\<lambda>i. if i = 0 then [1/4, 1/2] else [1/4, 1/4])\<rparr>))"
    by (simp add: t resume_gen r)
  then show ?thesis
    by (simp add: add_applyrule_def resume_cands1_def demo_cands1_def init_cands_def)
qed

lemma resume_scorer:
  "scorer resume_env src_sent t hyps sts h a = (\<lambda>i. resume_out)"
  by (simp add: resume_env_def)

lemma resume_beam_step0:
  "beam_step resume_env demo_src False (Suc 0) demo_beam0 = Inr (True, resume_beam1)"
proof -
  have t: "get_valid_continuation_types resume_env DecodeHypothesis = [ApplyRuleAction]"
    "get_valid_continuating_productions resume_env DecodeHypothesis = [''Root'']"
    by (simp_all add: resume_env_def demo_env_def demo_types_def DecodeHypothesis_def)
  have a: "apply_rule_candidates resume_env (\<lambda>i. resume_out) 0 DecodeHypothesis [''Root''] c
            = Inr (add_applyrule (Fin (ln (1/2))) 0 0 c)" for c
    by (simp add: resume_env_def demo_env_def resume_out_def nth_err_def lookup_err_def
          DecodeHypothesis_def)
  have i: "add_applyrule (Fin (ln (1/2))) 0 0 (init_cands resume_env (\<lambda>i. resume_out))
             = demo_cands0\<lparr>applyrule_new_hyp_scores := [Fin (ln (1/2))]\<rparr>"
    by (simp add: add_applyrule_def init_cands_def demo_cands0_def init_primitive_prob_def
          resume_env_def demo_env_def resume_out_def)
  have c: "collect_hyps resume_env (aggregated_primitive_tokens demo_src) (\<lambda>i. resume_out) 0
             [DecodeHypothesis] (init_cands resume_env (\<lambda>i. resume_out))
           = Inr (demo_cands0\<lparr>applyrule_new_hyp_scores := [Fin (ln (1/2))]\<rparr>)"
    by (simp add: t a i del: apply_rule_candidates.simps)
  have n: "new_hyp_scores [Fin 0] (demo_cands0\<lparr>applyrule_new_hyp_scores := [Fin (ln (1/2))]\<rparr>)
             = Inr [Fin (ln (1/2))]"
    by (simp add: new_hyp_scores_def demo_cands0_def)
  have sc: "step_candidates resume_env demo_src demo_beam0
             = Inr (demo_cands0\<lparr>applyrule_new_hyp_scores := [Fin (ln (1/2))]\<rparr>, [Fin (ln (1/2))])"
    by (simp add: step_candidates_def Let_def demo_beam0_def resume_scorer c n
          del: collect_hyps.simps)
  have k: "step_k (Suc 0) demo_beam0 [Fin (ln (1/2))] = Suc 0"
    by (simp add: step_k_def demo_beam0_def)
  have tk: "topk resume_env [Fin (ln (1/2))] (Suc 0) = [0]"
    by (simp add: resume_env_def demo_env_def topk_first_def sort_desc_def)
  have sa: "select_action resume_env [DecodeHypothesis]
              (demo_cands0\<lparr>applyrule_new_hyp_scores := [Fin (ln (1/2))]\<rparr>) 0
              = Inr (0, DecodeHypothesis, ApplyRule ''Root'')"
    by (simp add: select_action_def demo_cands0_def nth_err_def lookup_err_def resume_env_def
          demo_env_def)
  have mk: "(clone_and_apply_action_info DecodeHypothesis
               (make_action_info resume_env (aggregated_primitive_tokens demo_src) 0 DecodeHypothesis
                  (ApplyRule ''Root'')))\<lparr>score := Fin (ln (1/2))\<rparr> = resume_hyp1"
    by (simp add: clone_and_apply_action_info_def make_action_info_def demo_hyp1_def
          resume_hyp1_def DecodeHypothesis_def)
  have cp: "\<not> completed resume_env resume_hyp1"
    by (simp add: resume_env_def demo_env_def demo_completed_def demo_hyp1_def resume_hyp1_def)
  have ap: "apply_pick resume_env (aggregated_primitive_tokens demo_src) False 0 [DecodeHypothesis]
              sts outs (demo_cands0\<lparr>applyrule_new_hyp_scores := [Fin (ln (1/2))]\<rparr>)
              [Fin (ln (1/2))] 0
              \<lparr>live_hyp_ids = [], new_hypotheses = [], sel_completed = [], sel_saved = []\<rparr>
            = Inr \<lparr>live_hyp_ids = [0], new_hypotheses = [resume_hyp1], sel_completed = [],
                   sel_saved = []\<rparr>" for sts outs
    unfolding apply_pick_def Let_def
    by (simp add: nth_err_def sa mk cp)
  have ss: "step_selection resume_env demo_src False (Suc 0) demo_beam0
     = Inr \<lparr>live_hyp_ids = [0], new_hypotheses = [resume_hyp1], sel_completed = [],
            sel_saved = []\<rparr>"
    unfolding step_selection_def sc
    apply (simp add: k tk del: process_picks.simps)
    apply (simp add: demo_beam0_def ap)
    done
  show ?thesis
    unfolding beam_step_def Let_def ss resume_scorer
    by (simp add: demo_beam0_def demo_beam1_def resume_beam1_def resume_out_def nth_err_def
          resume_hyp1_def demo_hyp1_def)
qed

text \<open>
  Claim C4, at the re-entry of \<open>parse\<close>.  The uninterrupted decoding reaches
  \<open>resume_beam1\<close>, whose only hypothesis has the score \<open>ln (1/2)\<close>.  Resuming from
  that hypothesis and its state history gives the same beam except for \<open>hyp_scores\<close>,
  which is \<open>[0]\<close>.  In the next step the Reduce candidate has the score of the
  hypothesis plus the log-probability of Reduce in both runs, but the GenToken candidates
  of the resumed run carry the log-probability of the token alone: the score of the
  resumed hypothesis is not added.
\<close>

theorem resumed_gentoken_scores_drop_hypothesis_score:
  "beam_step resume_env demo_src False (Suc 0) demo_beam0 = Inr (True, resume_beam1) \<and>
   init_beam resume_env demo_src (Some resume_hyp1) [([], [], [])]
     = Inr (resume_beam1\<lparr>hyp_scores := [Fin 0]\<rparr>) \<and>
   step_candidates resume_env demo_src resume_beam1
     = Inr (resume_cands1,
            [Fin (ln (1/2) + ln (1/2)), Fin (ln (1/2) + ln (1/4)), Fin (ln (1/2) + ln (1/2))]) \<and>
   step_candidates resume_env demo_src (resume_beam1\<lparr>hyp_scores := [Fin 0]\<rparr>)
     = Inr (resume_cands1,
            [Fin (ln (1/2) + ln (1/2)), Fin (ln (1/4)), Fin (ln (1/2))])"
proof -
  have i: "init_beam resume_env demo_src (Some resume_hyp1) [([], [], [])]
     = Inr (resume_beam1\<lparr>hyp_scores := [Fin 0]\<rparr>)"
    by (simp add: init_beam_def state_before_def nth_err_def resume_hyp1_def demo_hyp1_def
          resume_beam1_def demo_beam1_def)
  have n1: "new_hyp_scores [Fin (ln (1/2))] resume_cands1
     = Inr [Fin (ln (1/2) + ln (1/2)), Fin (ln (1/2) + ln (1/4)), Fin (ln (1/2) + ln (1/2))]"
    by (simp add: new_hyp_scores_def resume_cands1_def demo_cands1_def nth_err_def torch_log_def)
  have n2: "new_hyp_scores [Fin 0] resume_cands1
     = Inr [Fin (ln (1/2) + ln (1/2)), Fin (ln (1/4)), Fin (ln (1/2))]"
    by (simp add: new_hyp_scores_def resume_cands1_def demo_cands1_def nth_err_def torch_log_def)
  have s1: "step_candidates resume_env demo_src resume_beam1
     = Inr (resume_cands1,
            [Fin (ln (1/2) + ln (1/2)), Fin (ln (1/2) + ln (1/4)), Fin (ln (1/2) + ln (1/2))])"
    by (simp add: step_candidates_def Let_def resume_scorer resume_beam1_def demo_beam1_def
          resume_collect n1 del: collect_hyps.simps)
  have s2: "step_candidates resume_env demo_src (resume_beam1\<lparr>hyp_scores := [Fin 0]\<rparr>)
     = Inr (resume_cands1,
            [Fin (ln (1/2) + ln (1/2)), Fin (ln (1/4)), Fin (ln (1/2))])"
    by (simp add: step_candidates_def Let_def resume_scorer resume_beam1_def demo_beam1_def
          resume_collect n2 del: collect_hyps.simps)
  from resume_beam_step0 i s1 s2 show ?thesis by simp
qed

subsection \<open>The unknown-copy candidates\<close>

lemma gather_Inr: "gather cp ps = Inr vs \<Longrightarrow> vs = map ((!) cp) ps"
  by (induction ps arbitrary: vs) (auto simp: ebind_eq_Inr nth_err_eq_Inr)

lemma copy_tokens_Inr:
  "copy_tokens pv cp g agg row infos = Inr (row', infos') \<Longrightarrow>
     infos' = infos @ map (\<lambda>(tok, ps). (tok, ps, copy_mass cp g ps))
                        (filter (\<lambda>(tok, ps). pv tok = None) agg) \<and>
     length row' = length row"
proof (induction agg arbitrary: row infos)
  case Nil then show ?case by simp
next
  case (Cons a agg)
  obtain tok ps where a: "a = (tok, ps)" by (cases a)
  from Cons.prems a obtain vs where vs: "gather cp ps = Inr vs"
    and r: "(case pv tok of
          Some token_id \<Rightarrow>
            if token_id < length row
            then copy_tokens pv cp g agg (row[token_id := row ! token_id + g * sum_list vs]) infos
            else Inl IndexError
        | None \<Rightarrow> copy_tokens pv cp g agg row (infos @ [(tok, ps, g * sum_list vs)]))
        = Inr (row', infos')"
    by (auto simp: ebind_eq_Inr Let_def)
  from gather_Inr[OF vs] have m: "g * sum_list vs = copy_mass cp g ps" by (simp add: copy_mass_def)
  show ?case
  proof (cases "pv tok")
    case None
    with r m have "copy_tokens pv cp g agg row (infos @ [(tok, ps, copy_mass cp g ps)]) = Inr (row', infos')"
      by simp
    from Cons.IH[OF this] None a show ?thesis by simp
  next
    case (Some tid)
    with r have "copy_tokens pv cp g agg (row[tid := row ! tid + g * sum_list vs]) infos = Inr (row', infos')"
      by (simp split: if_splits)
    from Cons.IH[OF this] Some a show ?thesis by simp
  qed
qed

lemma aggregated_filter_map:
  "map (\<lambda>(tok, ps). f tok ps) (filter (\<lambda>(tok, ps). P tok) (aggregated_primitive_tokens src))
     = map (\<lambda>tok. f tok (occurrences src tok))
         (filter P (map fst (aggregated_primitive_tokens src)))"
  by (subst (1 2) aggregated_as_map) (simp add: filter_map o_def)

lemma copy_tokens_infos:
  assumes "copy_tokens (prim_vocab E) (primitive_copy_prob so) (snd (primitive_predictor_prob so))
             (aggregated_primitive_tokens src) row [] = Inr (row', infos)"
  shows "map (\<lambda>x. (fst x, snd (snd x))) infos = unk_copy_infos E src so"
    and "length row' = length row"
proof -
  from copy_tokens_Inr[OF assms]
  have i: "infos = map (\<lambda>(tok, ps). (tok, ps, copy_mass (primitive_copy_prob so)
                                         (snd (primitive_predictor_prob so)) ps))
             (filter (\<lambda>(tok, ps). prim_vocab E tok = None) (aggregated_primitive_tokens src))"
    and l: "length row' = length row" by simp_all
  show "length row' = length row" by (rule l)
  have "infos = map (\<lambda>tok. (tok, occurrences src tok, copy_mass (primitive_copy_prob so)
                                         (snd (primitive_predictor_prob so)) (occurrences src tok)))
             (filter (\<lambda>tok. prim_vocab E tok = None) (map fst (aggregated_primitive_tokens src)))"
    unfolding i by (rule aggregated_filter_map)
  then show "map (\<lambda>x. (fst x, snd (snd x))) infos = unk_copy_infos E src so"
    by (simp add: unk_copy_infos_def o_def)
qed

lemma unk_copy_infos_empty_iff:
  "unk_copy_infos E src so = [] \<longleftrightarrow> (\<forall>tok\<in>set src. prim_vocab E tok \<noteq> None)"
  using aggregated_keys(2)[of src]
  by (auto simp: unk_copy_infos_def filter_empty_conv)

lemma argmax_aux_prop:
  assumes "best < length ys" and "bv = ys ! best" and "\<forall>y\<in>set ys. y \<le> bv"
  shows "argmax_aux xs (length ys) best bv < length (ys @ xs) \<and>
         (\<forall>z\<in>set (ys @ xs). z \<le> (ys @ xs) ! argmax_aux xs (length ys) best bv)"
  using assms
proof (induction xs arbitrary: ys best bv)
  case Nil
  then show ?case by simp
next
  case (Cons x xs)
  show ?case
  proof (cases "bv < x")
    case True
    have "argmax_aux xs (length (ys @ [x])) (length ys) x < length ((ys @ [x]) @ xs) \<and>
         (\<forall>z\<in>set ((ys @ [x]) @ xs). z \<le> ((ys @ [x]) @ xs) ! argmax_aux xs (length (ys @ [x])) (length ys) x)"
    proof (rule Cons.IH)
      show "length ys < length (ys @ [x])" by simp
      show "x = (ys @ [x]) ! length ys" by simp
      show "\<forall>y\<in>set (ys @ [x]). y \<le> x" using Cons.prems(3) True by auto
    qed
    with True show ?thesis by simp
  next
    case False
    have "argmax_aux xs (length (ys @ [x])) best bv < length ((ys @ [x]) @ xs) \<and>
         (\<forall>z\<in>set ((ys @ [x]) @ xs). z \<le> ((ys @ [x]) @ xs) ! argmax_aux xs (length (ys @ [x])) best bv)"
    proof (rule Cons.IH)
      show "best < length (ys @ [x])" using Cons.prems(1) by simp
      show "bv = (ys @ [x]) ! best" using Cons.prems(1,2) by (simp add: nth_append)
      show "\<forall>y\<in>set (ys @ [x]). y \<le> bv" using Cons.prems(3) False by auto
    qed
    with False show ?thesis by simp
  qed
qed

lemma argmax_prop:
  assumes "xs \<noteq> []"
  shows "argmax xs < length xs \<and> (\<forall>z\<in>set xs. z \<le> xs ! argmax xs)"
proof -
  from assms obtain x rest where xs: "xs = x # rest" by (cases xs) auto
  from argmax_aux_prop[of 0 "[x]" x rest] show ?thesis
    by (simp add: xs argmax_def)
qed

lemma unks_recorded_init: "unks_recorded E src outs n (init_cands E outs)"
  by (simp add: unks_recorded_def init_cands_def init_primitive_prob_def)

lemma unks_recorded_same:
  assumes "unks_recorded E src outs n c"
    and "gentoken_prev_hyp_ids c' = gentoken_prev_hyp_ids c"
    and "gentoken_new_hyp_unks c' = gentoken_new_hyp_unks c"
    and "primitive_prob c' = primitive_prob c"
  shows "unks_recorded E src outs n c'"
  unfolding unks_recorded_def assms(2,3,4)
  using assms(1) unfolding unks_recorded_def by blast

lemma unks_recorded_gen:
  assumes inv: "unks_recorded E src outs n c" and j: "j < n"
    and nc: "\<not> no_copy E" and oov: "\<exists>tok\<in>set src. prim_vocab E tok = None"
    and g: "gen_token_candidates E (aggregated_primitive_tokens src) outs j c = Inr c'"
  shows "unks_recorded E src outs n c'"
proof -
  let ?U = "unk_copy_infos E src (outs j)"
  let ?a = "argmax (map snd ?U)"
  from gen_token_candidates_Inr[OF g] nc obtain row infos where
    gids: "gentoken_prev_hyp_ids c' = gentoken_prev_hyp_ids c @ [j]"
    and other: "\<forall>i. i \<noteq> j \<longrightarrow> primitive_prob c' i = primitive_prob c i"
    and ct: "copy_tokens (prim_vocab E) (primitive_copy_prob (outs j))
                 (snd (primitive_predictor_prob (outs j))) (aggregated_primitive_tokens src)
                 (primitive_prob c j) [] = Inr (row, infos)"
    and r: "if infos \<noteq> []
              then unk E < length row \<and>
                   primitive_prob c' j =
                     row[unk E := snd (snd (infos ! argmax (map (\<lambda>x. snd (snd x)) infos)))] \<and>
                   gentoken_new_hyp_unks c' = gentoken_new_hyp_unks c @
                     [fst (infos ! argmax (map (\<lambda>x. snd (snd x)) infos))]
              else primitive_prob c' j = row \<and>
                   gentoken_new_hyp_unks c' = gentoken_new_hyp_unks c"
    by auto
  from copy_tokens_infos[OF ct] have m: "map (\<lambda>x. (fst x, snd (snd x))) infos = ?U"
    and lr: "length row = length (primitive_prob c j)" by simp_all
  from oov have une: "?U \<noteq> []" by (simp add: unk_copy_infos_empty_iff)
  with m have ine: "infos \<noteq> []" by auto
  from m have len: "length infos = length ?U" by (metis length_map)
  from m have ms: "map (\<lambda>x. snd (snd x)) infos = map snd ?U"
    by (metis (mono_tags, lifting) map_eq_conv map_map o_apply snd_conv)
  from une have alt: "?a < length ?U" using argmax_prop[of "map snd ?U"] by simp
  have nth: "?U ! ?a = (fst (infos ! ?a), snd (snd (infos ! ?a)))"
    using alt len nth_map[of ?a infos "\<lambda>x. (fst x, snd (snd x))"] m by simp
  from r ine ms have u: "unk E < length row"
    and pj: "primitive_prob c' j = row[unk E := snd (snd (infos ! ?a))]"
    and un: "gentoken_new_hyp_unks c' = gentoken_new_hyp_unks c @ [fst (infos ! ?a)]"
    by simp_all
  have best: "fst (best_unk E src (outs j)) = fst (infos ! ?a)"
    "snd (best_unk E src (outs j)) = snd (snd (infos ! ?a))"
    by (simp_all add: best_unk_def nth)
  from inv have l0: "length (gentoken_new_hyp_unks c) = length (gentoken_prev_hyp_ids c)"
    and l1: "\<And>i. length (primitive_prob c i) = length (gen_from_vocab_prob (outs i))"
    and z: "\<And>h t. (h, t) \<in> set (zip (gentoken_prev_hyp_ids c) (gentoken_new_hyp_unks c)) \<Longrightarrow>
         h < n \<and> unk E < length (primitive_prob c h) \<and>
         primitive_prob c h ! unk E = snd (best_unk E src (outs h)) \<and>
         t = fst (best_unk E src (outs h))"
    by (auto simp: unks_recorded_def)
  have len': "length (primitive_prob c' i) = length (gen_from_vocab_prob (outs i))" for i
  proof (cases "i = j")
    case True then show ?thesis using pj lr l1[of j] by simp
  next
    case False then show ?thesis using other l1[of i] by simp
  qed
  have jv: "primitive_prob c' j ! unk E = snd (best_unk E src (outs j))"
    using pj u best by simp
  have uj: "unk E < length (primitive_prob c' j)" using pj u by simp
  have zz: "zip (gentoken_prev_hyp_ids c') (gentoken_new_hyp_unks c')
          = zip (gentoken_prev_hyp_ids c) (gentoken_new_hyp_unks c) @ [(j, fst (infos ! ?a))]"
    using gids un l0 by simp
  have pair: "h < n \<and> unk E < length (primitive_prob c' h) \<and>
         primitive_prob c' h ! unk E = snd (best_unk E src (outs h)) \<and>
         t = fst (best_unk E src (outs h))"
    if "(h, t) \<in> set (zip (gentoken_prev_hyp_ids c') (gentoken_new_hyp_unks c'))" for h t
  proof (cases "h = j")
    case True
    from that zz consider "(h, t) \<in> set (zip (gentoken_prev_hyp_ids c) (gentoken_new_hyp_unks c))"
      | "t = fst (infos ! ?a)" by auto
    then have "t = fst (best_unk E src (outs j))"
    proof cases
      case 1 from z[OF 1] True show ?thesis by simp
    next
      case 2 with best show ?thesis by simp
    qed
    with True j jv uj show ?thesis by simp
  next
    case False
    with that zz have "(h, t) \<in> set (zip (gentoken_prev_hyp_ids c) (gentoken_new_hyp_unks c))"
      by auto
    from z[OF this] False other show ?thesis by simp
  qed
  show ?thesis
    unfolding unks_recorded_def
    using gids un l0 len' pair by auto
qed

lemma collect_hyps_unks_recorded:
  assumes "collect_hyps E (aggregated_primitive_tokens src) outs 0 hyps (init_cands E outs) = Inr cs"
    and nc: "\<not> no_copy E" and oov: "\<exists>tok\<in>set src. prim_vocab E tok = None"
  shows "unks_recorded E src outs (length hyps) cs"
proof (rule collect_hyps_preserves[where Q="unks_recorded E src outs (length hyps)",
        OF assms(1) unks_recorded_init])
  fix j c c' assume "j < length hyps" "unks_recorded E src outs (length hyps) c"
    "apply_rule_candidates E outs (0 + j) (hyps ! j)
       (get_valid_continuating_productions E (hyps ! j)) c = Inr c'"
  then show "unks_recorded E src outs (length hyps) c'"
    using apply_rule_candidates_Inr[of E outs j "hyps ! j" _ c c'] unks_recorded_same[of E src outs _ c c']
    by simp
next
  fix j c c' assume "j < length hyps" "unks_recorded E src outs (length hyps) c"
    "reduce_candidate E outs (0 + j) (hyps ! j) c = Inr c'"
  then show "unks_recorded E src outs (length hyps) c'"
    using reduce_candidate_Inr[of E outs j "hyps ! j" c c'] unks_recorded_same[of E src outs _ c c']
    by simp
next
  fix j c c' assume "j < length hyps" "unks_recorded E src outs (length hyps) c"
    "gen_token_candidates E (aggregated_primitive_tokens src) outs (0 + j) c = Inr c'"
  then show "unks_recorded E src outs (length hyps) c'"
    using unks_recorded_gen[of E src outs "length hyps" c j c', OF _ _ nc oov] by simp
qed

lemma collect_hyps_no_unks:
  assumes "collect_hyps E (aggregated_primitive_tokens src) outs 0 hyps (init_cands E outs) = Inr cs"
    and "no_copy E \<or> (\<forall>tok\<in>set src. prim_vocab E tok \<noteq> None)"
  shows "gentoken_new_hyp_unks cs = []"
proof (rule collect_hyps_preserves[where Q="\<lambda>c. gentoken_new_hyp_unks c = []", OF assms(1)])
  show "gentoken_new_hyp_unks (init_cands E outs) = []" by (simp add: init_cands_def)
next
  fix j c c' assume "gentoken_new_hyp_unks c = []"
    "apply_rule_candidates E outs (0 + j) (hyps ! j)
       (get_valid_continuating_productions E (hyps ! j)) c = Inr c'"
  then show "gentoken_new_hyp_unks c' = []"
    using apply_rule_candidates_Inr[of E outs j "hyps ! j" _ c c'] by simp
next
  fix j c c' assume "gentoken_new_hyp_unks c = []"
    "reduce_candidate E outs (0 + j) (hyps ! j) c = Inr c'"
  then show "gentoken_new_hyp_unks c' = []"
    using reduce_candidate_Inr[of E outs j "hyps ! j" c c'] by simp
next
  fix j c c' assume e: "gentoken_new_hyp_unks c = []"
    and g: "gen_token_candidates E (aggregated_primitive_tokens src) outs (0 + j) c = Inr c'"
  show "gentoken_new_hyp_unks c' = []"
  proof (cases "no_copy E")
    case True
    with gen_token_candidates_Inr[OF g] e show ?thesis by simp
  next
    case False
    with assms(2) have all: "\<forall>tok\<in>set src. prim_vocab E tok \<noteq> None" by simp
    from gen_token_candidates_Inr[OF g] False obtain row infos where
      ct: "copy_tokens (prim_vocab E) (primitive_copy_prob (outs (0 + j)))
                 (snd (primitive_predictor_prob (outs (0 + j)))) (aggregated_primitive_tokens src)
                 (primitive_prob c (0 + j)) [] = Inr (row, infos)"
      and r: "if infos \<noteq> []
              then unk E < length row \<and>
                   primitive_prob c' (0 + j) =
                     row[unk E := snd (snd (infos ! argmax (map (\<lambda>x. snd (snd x)) infos)))] \<and>
                   gentoken_new_hyp_unks c' = gentoken_new_hyp_unks c @
                     [fst (infos ! argmax (map (\<lambda>x. snd (snd x)) infos))]
              else primitive_prob c' (0 + j) = row \<and>
                   gentoken_new_hyp_unks c' = gentoken_new_hyp_unks c"
      by auto
    from copy_tokens_infos(1)[OF ct] all have "infos = []"
      using unk_copy_infos_empty_iff[of E src "outs (0 + j)"] by simp
    with r e show ?thesis by simp
  qed
qed

lemma step_candidates_outs:
  assumes "step_candidates E src_sent b = Inr (cs, scores)"
  shows "collect_hyps E (aggregated_primitive_tokens src_sent) (step_outs E src_sent b) 0
           (hypotheses b) (init_cands E (step_outs E src_sent b)) = Inr cs"
  using step_candidates_Inr[OF assms] by (simp add: step_outs_def)

text \<open>
  Claim C3.  Take a step with copy enabled on an utterance that has a token outside the
  primitive vocabulary, and the \<open>k\<close>-th hypothesis for which GenToken is legal.  Among
  its unknown-copy candidates the first one of largest copy mass is chosen: its mass
  stands at the unknown slot of the hypothesis's row of \<open>primitive_prob\<close>, its token is
  the \<open>k\<close>-th recorded unknown-copy token, and the candidate at the unknown slot of that
  hypothesis materialises as \<open>GenToken\<close> of that token, applied to that hypothesis.  The
  rows of the generation distribution are assumed to have one length.
\<close>

theorem unknown_copy_token_recorded:
  assumes nc: "\<not> no_copy E" and oov: "\<exists>token\<in>set src_sent. prim_vocab E token = None"
    and sc: "step_candidates E src_sent b = Inr (cs, scores)"
    and rect: "\<forall>i\<in>set [0..<length (hypotheses b)].
                 length (gen_from_vocab_prob (step_outs E src_sent b i))
                   = length (gen_from_vocab_prob (step_outs E src_sent b 0))"
    and k: "k < length (gentoken_prev_hyp_ids cs)"
  shows "best_unk E src_sent (step_outs E src_sent b (gentoken_prev_hyp_ids cs ! k))
           \<in> set (unk_copy_infos E src_sent (step_outs E src_sent b (gentoken_prev_hyp_ids cs ! k))) \<and>
         (\<forall>c\<in>set (unk_copy_infos E src_sent (step_outs E src_sent b (gentoken_prev_hyp_ids cs ! k))).
            snd c \<le> snd (best_unk E src_sent (step_outs E src_sent b (gentoken_prev_hyp_ids cs ! k)))) \<and>
         primitive_prob cs (gentoken_prev_hyp_ids cs ! k) ! unk E
           = snd (best_unk E src_sent (step_outs E src_sent b (gentoken_prev_hyp_ids cs ! k))) \<and>
         gentoken_new_hyp_unks cs ! k
           = fst (best_unk E src_sent (step_outs E src_sent b (gentoken_prev_hyp_ids cs ! k))) \<and>
         select_action E (hypotheses b) cs
             (length (applyrule_new_hyp_scores cs) + k * size1 cs + unk E)
           = Inr (gentoken_prev_hyp_ids cs ! k, hypotheses b ! (gentoken_prev_hyp_ids cs ! k),
                  GenToken (fst (best_unk E src_sent
                                   (step_outs E src_sent b (gentoken_prev_hyp_ids cs ! k)))))"
proof -
  let ?outs = "step_outs E src_sent b"
  let ?h = "gentoken_prev_hyp_ids cs ! k"
  let ?U = "unk_copy_infos E src_sent (?outs ?h)"
  let ?best = "best_unk E src_sent (?outs ?h)"
  from collect_hyps_unks_recorded[OF step_candidates_outs[OF sc] nc oov]
  have inv: "unks_recorded E src_sent ?outs (length (hypotheses b)) cs" .
  then have lu: "length (gentoken_new_hyp_unks cs) = length (gentoken_prev_hyp_ids cs)"
    and lens: "\<And>i. length (primitive_prob cs i) = length (gen_from_vocab_prob (?outs i))"
    by (simp_all add: unks_recorded_def)
  from k lu have "(?h, gentoken_new_hyp_unks cs ! k)
      \<in> set (zip (gentoken_prev_hyp_ids cs) (gentoken_new_hyp_unks cs))"
    by (auto simp: in_set_zip)
  with inv have hl: "?h < length (hypotheses b)"
    and ul: "unk E < length (primitive_prob cs ?h)"
    and pv: "primitive_prob cs ?h ! unk E = snd ?best"
    and tk: "gentoken_new_hyp_unks cs ! k = fst ?best"
    by (auto simp: unks_recorded_def)
  from oov have une: "?U \<noteq> []" by (simp add: unk_copy_infos_empty_iff)
  from argmax_prop[of "map snd ?U"] une
  have a: "argmax (map snd ?U) < length ?U" by simp
  from argmax_prop[of "map snd ?U"] une a
  have mx: "\<forall>c\<in>set ?U. snd c \<le> snd (?U ! argmax (map snd ?U))" by simp
  have mem: "?best \<in> set ?U" using a by (simp add: best_unk_def)
  have max: "\<forall>c\<in>set ?U. snd c \<le> snd ?best"
    using mx by (simp add: best_unk_def)
  from rect hl have "length (gen_from_vocab_prob (?outs ?h)) = length (gen_from_vocab_prob (?outs 0))"
    by simp
  with lens[of ?h] lens[of 0] have sz: "size1 cs = length (primitive_prob cs ?h)"
    by (simp add: size1_def)
  with ul have v: "unk E < size1 cs" by simp
  then have md: "(k * size1 cs + unk E) mod size1 cs = unk E"
    and dv: "(k * size1 cs + unk E) div size1 cs = k" by simp_all
  from k lu have une2: "gentoken_new_hyp_unks cs \<noteq> []" by auto
  have sa: "select_action E (hypotheses b) cs
             (length (applyrule_new_hyp_scores cs) + k * size1 cs + unk E)
           = Inr (?h, hypotheses b ! ?h, GenToken (fst ?best))"
    unfolding select_action_def Let_def
    using v k lu hl une2 tk by (simp add: md dv nth_err_def add.assoc)
  from mem max pv tk sa show ?thesis by blast
qed

lemma demo_unk_infos:
  "unk_copy_infos demo_env demo_src (demo_out (Suc 0)) = [(''b'', 1/4)]"
proof -
  have "aggregated_primitive_tokens demo_src = [(''a'', [0, Suc 0]), (''b'', [2])]"
    by (rule demo_agg_Suc)
  then show ?thesis
    by (simp add: unk_copy_infos_def demo_env_def demo_occ copy_mass_def demo_out_def)
qed

theorem unknown_copy_token_recorded_witness:
  "\<not> no_copy demo_env \<and> prim_vocab demo_env ''b'' = None \<and>
   step_candidates demo_env demo_src demo_beam1
     = Inr (demo_cands1, [Fin 0, Fin (ln (1/4)), Fin (ln (1/2))]) \<and>
   gentoken_prev_hyp_ids demo_cands1 = [0] \<and>
   primitive_prob demo_cands1 0 ! unk demo_env = 1/4 \<and>
   gentoken_new_hyp_unks demo_cands1 ! 0 = ''b'' \<and>
   select_action demo_env (hypotheses demo_beam1) demo_cands1 (Suc 0)
     = Inr (0, demo_hyp1, GenToken ''b'')"
proof -
  have nc: "\<not> no_copy demo_env" by (simp add: demo_env_def)
  have b: "prim_vocab demo_env ''b'' = None" by (simp add: demo_env_def)
  then have oov: "\<exists>token\<in>set demo_src. prim_vocab demo_env token = None"
    by (simp add: demo_src_def)
  have so: "step_outs demo_env demo_src demo_beam1 = (\<lambda>i. demo_out (Suc 0))"
    by (simp add: step_outs_def demo_env_def demo_beam1_def)
  have rect: "\<forall>i\<in>set [0..<length (hypotheses demo_beam1)].
                 length (gen_from_vocab_prob (step_outs demo_env demo_src demo_beam1 i))
                   = length (gen_from_vocab_prob (step_outs demo_env demo_src demo_beam1 0))"
    by (simp add: so)
  have k: "0 < length (gentoken_prev_hyp_ids demo_cands1)" by (simp add: demo_cands1_def)
  have g: "gentoken_prev_hyp_ids demo_cands1 = [0]" by (simp add: demo_cands1_def)
  have bu: "best_unk demo_env demo_src (demo_out (Suc 0)) = (''b'', 1/4)"
    by (simp add: best_unk_def demo_unk_infos argmax_def)
  have sz: "length (applyrule_new_hyp_scores demo_cands1) + 0 * size1 demo_cands1 + unk demo_env
              = Suc 0"
    by (simp add: demo_cands1_def demo_env_def)
  have hy: "hypotheses demo_beam1 ! 0 = demo_hyp1" by (simp add: demo_beam1_def)
  from unknown_copy_token_recorded[OF nc oov demo_step_candidates rect k]
  have "primitive_prob demo_cands1 0 ! unk demo_env = 1/4"
    "gentoken_new_hyp_unks demo_cands1 ! 0 = ''b''"
    "select_action demo_env (hypotheses demo_beam1) demo_cands1 (Suc 0)
       = Inr (0, demo_hyp1, GenToken ''b'')"
    unfolding g so sz by (simp_all add: bu hy)
  with nc b demo_step_candidates g show ?thesis by simp
qed

text \<open>
  Claim C10.  In a step whose list of recorded unknown-copy tokens is empty, a selected
  candidate at the unknown slot of the vocabulary materialises as \<open>GenToken\<close> of the
  vocabulary's unknown word.  The list is empty when copy is disabled and when every
  token of the utterance is in the primitive vocabulary.
\<close>

theorem unknown_slot_without_recorded_token:
  assumes sc: "step_candidates E src_sent b = Inr (cs, scores)"
    and ge: "length (applyrule_new_hyp_scores cs) \<le> new_hyp_pos"
    and slot: "(new_hyp_pos - length (applyrule_new_hyp_scores cs)) mod size1 cs = unk E"
    and sa: "select_action E (hypotheses b) cs new_hyp_pos = Inr (pid, ph, a)"
  shows "(no_copy E \<or> (\<forall>token\<in>set src_sent. prim_vocab E token \<noteq> None)
            \<longrightarrow> gentoken_new_hyp_unks cs = []) \<and>
         (gentoken_new_hyp_unks cs = [] \<longrightarrow> a = GenToken (unk_word E))"
proof (intro conjI impI)
  assume "no_copy E \<or> (\<forall>token\<in>set src_sent. prim_vocab E token \<noteq> None)"
  with collect_hyps_no_unks[OF step_candidates_outs[OF sc]]
  show "gentoken_new_hyp_unks cs = []" by blast
next
  assume e: "gentoken_new_hyp_unks cs = []"
  from ge have n: "\<not> new_hyp_pos < length (applyrule_new_hyp_scores cs)" by simp
  from sa show "a = GenToken (unk_word E)"
    unfolding select_action_def Let_def
    using n slot e by (auto simp: ebind_eq_Inr split: if_splits)
qed

lemma known_step_candidates:
  "step_candidates demo_env known_src demo_beam1
     = Inr (known_cands1, [Fin 0, Fin (ln (1/4)), Fin (ln (3/8))])"
proof -
  have ag: "aggregated_primitive_tokens known_src = [(''a'', [0])]"
    by (simp add: aggregated_primitive_tokens_def known_src_def)
  have a: "primitive_prob (init_cands demo_env (\<lambda>i. demo_out (Suc 0))) = (\<lambda>i. [1/4, 1/4])"
    by (simp add: init_cands_def init_primitive_prob_def demo_env_def demo_out_def)
  have bb: "primitive_copy_prob (demo_out (Suc 0)) = [1/4, 1/4, 1/2]"
    "snd (primitive_predictor_prob (demo_out (Suc 0))) = 1/2" by (simp_all add: demo_out_def)
  have c: "\<not> no_copy demo_env" by (simp add: demo_env_def)
  have d: "(\<lambda>i. [1/4, 1/4::real])(0 := [1/4, 3/8]) = (\<lambda>i. if i = 0 then [1/4, 3/8] else [1/4, 1/4])"
    by auto
  have ct0: "copy_tokens (prim_vocab demo_env) [1/4, 1/4, 1/2] (1/2) [(''a'', [0])] [1/4, 1/4] []
     = Inr ([1/4, 3/8], [])"
    by (simp add: demo_env_def nth_err_def)
  have ct: "copy_tokens (prim_vocab demo_env) (primitive_copy_prob (demo_out (Suc 0)))
              (snd (primitive_predictor_prob (demo_out (Suc 0))))
              (aggregated_primitive_tokens known_src)
              (primitive_prob (init_cands demo_env (\<lambda>i. demo_out (Suc 0))) 0) []
            = Inr ([1/4, 3/8], [])"
    by (simp only: a bb ag ct0)
  have gen: "gen_token_candidates demo_env (aggregated_primitive_tokens known_src) (\<lambda>i. demo_out (Suc 0)) 0
      (init_cands demo_env (\<lambda>i. demo_out (Suc 0)))
   = Inr ((init_cands demo_env (\<lambda>i. demo_out (Suc 0)))
           \<lparr>gentoken_prev_hyp_ids := [0],
            primitive_prob := (\<lambda>i. if i = 0 then [1/4, 3/8] else [1/4, 1/4])\<rparr>)"
    unfolding gen_token_candidates_def Let_def ct
    by (simp add: a c d) (simp add: init_cands_def)
  have t: "get_valid_continuation_types demo_env demo_hyp1 = [GenTokenAction, ReduceAction]"
    by (simp add: demo_env_def demo_types_def demo_hyp1_def)
  have r: "reduce_candidate demo_env (\<lambda>i. demo_out (Suc 0)) 0 demo_hyp1 c
            = Inr (add_applyrule (Fin 0) (Suc 0) 0 c)" for c
    by (simp add: reduce_candidate_def demo_env_def demo_out_def nth_err_def demo_hyp1_def)
  have "collect_hyps demo_env (aggregated_primitive_tokens known_src) (\<lambda>i. demo_out (Suc 0)) 0 [demo_hyp1]
      (init_cands demo_env (\<lambda>i. demo_out (Suc 0)))
    = Inr (add_applyrule (Fin 0) (Suc 0) 0 ((init_cands demo_env (\<lambda>i. demo_out (Suc 0)))
           \<lparr>gentoken_prev_hyp_ids := [0],
            primitive_prob := (\<lambda>i. if i = 0 then [1/4, 3/8] else [1/4, 1/4])\<rparr>))"
    by (simp add: t gen r)
  then have col: "collect_hyps demo_env (aggregated_primitive_tokens known_src) (\<lambda>i. demo_out (Suc 0)) 0
      [demo_hyp1] (init_cands demo_env (\<lambda>i. demo_out (Suc 0))) = Inr known_cands1"
    by (simp add: add_applyrule_def known_cands1_def init_cands_def)
  have n: "new_hyp_scores [Fin 0] known_cands1 = Inr [Fin 0, Fin (ln (1/4)), Fin (ln (3/8))]"
    by (simp add: new_hyp_scores_def known_cands1_def nth_err_def torch_log_def)
  have s: "scorer demo_env known_src (Suc 0) [demo_hyp1] [[([], [], [])]] [([], [])] [[]]
            = (\<lambda>i. demo_out (Suc 0))"
    by (simp add: demo_env_def)
  show ?thesis
    by (simp add: step_candidates_def Let_def demo_beam1_def s col n del: collect_hyps.simps)
qed

theorem unknown_slot_without_recorded_token_witness:
  "step_candidates demo_env known_src demo_beam1
     = Inr (known_cands1, [Fin 0, Fin (ln (1/4)), Fin (ln (3/8))]) \<and>
   length (applyrule_new_hyp_scores known_cands1) \<le> Suc 0 \<and>
   (Suc 0 - length (applyrule_new_hyp_scores known_cands1)) mod size1 known_cands1 = unk demo_env \<and>
   select_action demo_env (hypotheses demo_beam1) known_cands1 (Suc 0)
     = Inr (0, demo_hyp1, GenToken ''<unk>'') \<and>
   prim_vocab demo_env ''a'' = Some 1 \<and>
   gentoken_new_hyp_unks known_cands1 = [] \<and>
   GenToken ''<unk>'' = GenToken (unk_word demo_env)"
proof -
  have ge: "length (applyrule_new_hyp_scores known_cands1) \<le> Suc 0"
    by (simp add: known_cands1_def)
  have slot: "(Suc 0 - length (applyrule_new_hyp_scores known_cands1)) mod size1 known_cands1
                = unk demo_env"
    by (simp add: known_cands1_def size1_def demo_env_def)
  have sa: "select_action demo_env (hypotheses demo_beam1) known_cands1 (Suc 0)
     = Inr (0, demo_hyp1, GenToken ''<unk>'')"
    by (simp add: select_action_def known_cands1_def size1_def demo_env_def demo_beam1_def
          nth_err_def)
  have a: "prim_vocab demo_env ''a'' = Some 1" by (simp add: demo_env_def)
  then have all: "\<forall>token\<in>set known_src. prim_vocab demo_env token \<noteq> None"
    by (simp add: known_src_def)
  from unknown_slot_without_recorded_token[OF known_step_candidates ge slot sa] all
  have "gentoken_new_hyp_unks known_cands1 = []" "GenToken ''<unk>'' = GenToken (unk_word demo_env)"
    by blast+
  with known_step_candidates ge slot sa a show ?thesis by simp
qed

subsection \<open>The rows of the primitive-token distribution after the candidate loop\<close>

lemma copy_tokens_row:
  "copy_tokens pv cp g agg row infos = Inr (row', infos') \<Longrightarrow>
     \<forall>j<length row. row' ! j = row ! j +
        sum_list (map (\<lambda>(tok, ps). copy_mass cp g ps)
                   (filter (\<lambda>(tok, ps). pv tok = Some j) agg))"
proof (induction agg arbitrary: row infos)
  case Nil then show ?case by simp
next
  case (Cons a agg)
  obtain tok ps where a: "a = (tok, ps)" by (cases a)
  from Cons.prems a obtain vs where vs: "gather cp ps = Inr vs"
    and r: "(case pv tok of
          Some token_id \<Rightarrow>
            if token_id < length row
            then copy_tokens pv cp g agg (row[token_id := row ! token_id + g * sum_list vs]) infos
            else Inl IndexError
        | None \<Rightarrow> copy_tokens pv cp g agg row (infos @ [(tok, ps, g * sum_list vs)]))
        = Inr (row', infos')"
    by (auto simp: ebind_eq_Inr Let_def)
  from gather_Inr[OF vs] have m: "g * sum_list vs = copy_mass cp g ps" by (simp add: copy_mass_def)
  show ?case
  proof (cases "pv tok")
    case None
    with r have "copy_tokens pv cp g agg row (infos @ [(tok, ps, g * sum_list vs)]) = Inr (row', infos')"
      by simp
    from Cons.IH[OF this] None a show ?thesis by simp
  next
    case (Some tid)
    with r have lt: "tid < length row"
      and c: "copy_tokens pv cp g agg (row[tid := row ! tid + g * sum_list vs]) infos = Inr (row', infos')"
      by (simp_all split: if_splits)
    from Cons.IH[OF c]
    have "\<forall>j<length row. row' ! j = (row[tid := row ! tid + g * sum_list vs]) ! j +
        sum_list (map (\<lambda>(tok, ps). copy_mass cp g ps)
                   (filter (\<lambda>(tok, ps). pv tok = Some j) agg))"
      by simp
    then show ?thesis using Some a lt m by (auto simp: nth_list_update)
  qed
qed

lemma sum_list_same_set:
  fixes f :: "'a \<Rightarrow> real"
  assumes "distinct xs" "distinct ys" "set xs = set ys"
  shows "sum_list (map f xs) = sum_list (map f ys)"
  using assms by (simp add: sum_list_distinct_conv_sum_set)

lemma aggregated_slot_mass:
  "sum_list (map (\<lambda>(tok, ps). copy_mass (primitive_copy_prob so) (snd (primitive_predictor_prob so)) ps)
       (filter (\<lambda>(tok, ps). prim_vocab E tok = Some j) (aggregated_primitive_tokens src)))
   = slot_mass E src so j"
proof -
  let ?f = "\<lambda>tok. copy_mass (primitive_copy_prob so) (snd (primitive_predictor_prob so))
                    (occurrences src tok)"
  let ?P = "\<lambda>tok. prim_vocab E tok = Some j"
  have "map (\<lambda>(tok, ps). copy_mass (primitive_copy_prob so) (snd (primitive_predictor_prob so)) ps)
          (filter (\<lambda>(tok, ps). ?P tok) (aggregated_primitive_tokens src))
        = map ?f (filter ?P (map fst (aggregated_primitive_tokens src)))"
    by (rule aggregated_filter_map)
  moreover have "sum_list (map ?f (filter ?P (map fst (aggregated_primitive_tokens src))))
        = sum_list (map ?f (filter ?P (remdups src)))"
    by (rule sum_list_same_set) (simp_all add: aggregated_keys(1,2) del: set_map)
  ultimately show ?thesis by (simp add: slot_mass_def)
qed

lemma gen_token_pass:
  assumes g: "gen_token_candidates E (aggregated_primitive_tokens src) outs j c = Inr c'"
    and nc: "\<not> no_copy E"
  shows "primitive_prob c' j = copy_pass E src (outs j) (primitive_prob c j)"
proof -
  let ?U = "unk_copy_infos E src (outs j)"
  let ?a = "argmax (map snd ?U)"
  from gen_token_candidates_Inr[OF g] nc obtain row infos where
    ct: "copy_tokens (prim_vocab E) (primitive_copy_prob (outs j))
                 (snd (primitive_predictor_prob (outs j))) (aggregated_primitive_tokens src)
                 (primitive_prob c j) [] = Inr (row, infos)"
    and r: "if infos \<noteq> []
              then unk E < length row \<and>
                   primitive_prob c' j =
                     row[unk E := snd (snd (infos ! argmax (map (\<lambda>x. snd (snd x)) infos)))] \<and>
                   gentoken_new_hyp_unks c' = gentoken_new_hyp_unks c @
                     [fst (infos ! argmax (map (\<lambda>x. snd (snd x)) infos))]
              else primitive_prob c' j = row \<and>
                   gentoken_new_hyp_unks c' = gentoken_new_hyp_unks c"
    by auto
  from copy_tokens_infos[OF ct] have m: "map (\<lambda>x. (fst x, snd (snd x))) infos = ?U"
    and lr: "length row = length (primitive_prob c j)" by simp_all
  from copy_tokens_row[OF ct]
  have v: "\<forall>k<length (primitive_prob c j). row ! k = primitive_prob c j ! k +
             slot_mass E src (outs j) k"
    by (simp add: aggregated_slot_mass)
  have row_eq: "row = map (\<lambda>k. primitive_prob c j ! k + slot_mass E src (outs j) k)
                        [0..<length (primitive_prob c j)]"
    by (rule nth_equalityI) (use lr v in simp_all)
  show ?thesis
  proof (cases "infos = []")
    case True
    with m have "?U = []" by auto
    with r True row_eq show ?thesis by (simp add: copy_pass_def)
  next
    case False
    with m have une: "?U \<noteq> []" by auto
    from m have len: "length infos = length ?U" by (metis length_map)
    from m have ms: "map (\<lambda>x. snd (snd x)) infos = map snd ?U"
      by (metis (mono_tags, lifting) map_eq_conv map_map o_apply snd_conv)
    from une have alt: "?a < length ?U" using argmax_prop[of "map snd ?U"] by simp
    have nth: "?U ! ?a = (fst (infos ! ?a), snd (snd (infos ! ?a)))"
      using alt len nth_map[of ?a infos "\<lambda>x. (fst x, snd (snd x))"] m by simp
    from r False ms have pj: "primitive_prob c' j = row[unk E := snd (snd (infos ! ?a))]"
      by simp
    have best: "snd (best_unk E src (outs j)) = snd (snd (infos ! ?a))"
      by (simp add: best_unk_def nth)
    from pj best une show ?thesis
      unfolding copy_pass_def Let_def row_eq[symmetric] by simp
  qed
qed

lemma rows_passed_init: "rows_passed E src outs (init_cands E outs)"
  by (simp add: rows_passed_def init_cands_def)

lemma rows_passed_same:
  assumes "rows_passed E src outs c"
    and "gentoken_prev_hyp_ids c' = gentoken_prev_hyp_ids c"
    and "primitive_prob c' = primitive_prob c"
  shows "rows_passed E src outs c'"
  using assms by (simp add: rows_passed_def)

lemma rows_passed_gen:
  assumes inv: "rows_passed E src outs c" and nc: "\<not> no_copy E"
    and g: "gen_token_candidates E (aggregated_primitive_tokens src) outs j c = Inr c'"
  shows "rows_passed E src outs c'"
proof -
  from gen_token_candidates_Inr[OF g]
  have gids: "gentoken_prev_hyp_ids c' = gentoken_prev_hyp_ids c @ [j]"
    and other: "\<forall>i. i \<noteq> j \<longrightarrow> primitive_prob c' i = primitive_prob c i"
    by simp_all
  from gen_token_pass[OF g nc]
  have pj: "primitive_prob c' j = copy_pass E src (outs j) (primitive_prob c j)" .
  from inv have pc: "\<And>i. primitive_prob c i =
            (copy_pass E src (outs i) ^^ count_list (gentoken_prev_hyp_ids c) i)
              (init_primitive_prob E (outs i))"
    by (simp add: rows_passed_def)
  show ?thesis
    unfolding rows_passed_def
  proof
    fix i
    show "primitive_prob c' i =
            (copy_pass E src (outs i) ^^ count_list (gentoken_prev_hyp_ids c') i)
              (init_primitive_prob E (outs i))"
    proof (cases "i = j")
      case True
      have "count_list (gentoken_prev_hyp_ids c') j = Suc (count_list (gentoken_prev_hyp_ids c) j)"
        by (simp add: gids)
      with True pj pc[of j] show ?thesis by simp
    next
      case False
      then have "count_list (gentoken_prev_hyp_ids c') i = count_list (gentoken_prev_hyp_ids c) i"
        by (simp add: gids)
      with False other pc[of i] show ?thesis by simp
    qed
  qed
qed

lemma collect_hyps_rows_passed:
  assumes "collect_hyps E (aggregated_primitive_tokens src) outs 0 hyps (init_cands E outs) = Inr cs"
    and nc: "\<not> no_copy E"
  shows "rows_passed E src outs cs"
proof (rule collect_hyps_preserves[where Q="rows_passed E src outs",
        OF assms(1) rows_passed_init])
  fix j c c' assume "rows_passed E src outs c"
    "apply_rule_candidates E outs (0 + j) (hyps ! j)
       (get_valid_continuating_productions E (hyps ! j)) c = Inr c'"
  then show "rows_passed E src outs c'"
    using apply_rule_candidates_Inr[of E outs j "hyps ! j" _ c c'] rows_passed_same[of E src outs c c']
    by simp
next
  fix j c c' assume "rows_passed E src outs c"
    "reduce_candidate E outs (0 + j) (hyps ! j) c = Inr c'"
  then show "rows_passed E src outs c'"
    using reduce_candidate_Inr[of E outs j "hyps ! j" c c'] rows_passed_same[of E src outs c c']
    by simp
next
  fix j c c' assume "rows_passed E src outs c"
    "gen_token_candidates E (aggregated_primitive_tokens src) outs (0 + j) c = Inr c'"
  then show "rows_passed E src outs c'"
    using rows_passed_gen[of E src outs c j c', OF _ nc] by simp
qed

lemma count_list_replicate: "count_list (replicate n x) k = (if x = k then n else 0)"
  by (induction n) auto

lemma collect_types_count:
  "collect_types E agg outs hyp_id hyp tys cs = Inr cs' \<Longrightarrow>
     gentoken_prev_hyp_ids cs' =
       gentoken_prev_hyp_ids cs @ replicate (count_list tys GenTokenAction) hyp_id"
proof (induction tys arbitrary: cs)
  case Nil then show ?case by simp
next
  case (Cons a tys)
  from Cons.prems obtain c1 where
    c1: "(case a of ApplyRuleAction \<Rightarrow>
                apply_rule_candidates E outs hyp_id hyp (get_valid_continuating_productions E hyp) cs
            | ReduceAction \<Rightarrow> reduce_candidate E outs hyp_id hyp cs
            | GenTokenAction \<Rightarrow> gen_token_candidates E agg outs hyp_id cs) = Inr c1"
    and rest: "collect_types E agg outs hyp_id hyp tys c1 = Inr cs'"
    by (auto simp: ebind_eq_Inr)
  have s1: "gentoken_prev_hyp_ids c1 =
      gentoken_prev_hyp_ids cs @ (if a = GenTokenAction then [hyp_id] else [])"
  proof (cases a)
    case ApplyRuleAction
    with c1 have "apply_rule_candidates E outs hyp_id hyp (get_valid_continuating_productions E hyp) cs = Inr c1"
      by simp
    from apply_rule_candidates_Inr[OF this] ApplyRuleAction show ?thesis by simp
  next
    case ReduceAction
    with c1 have "reduce_candidate E outs hyp_id hyp cs = Inr c1" by simp
    from reduce_candidate_Inr[OF this] ReduceAction show ?thesis by simp
  next
    case GenTokenAction
    with c1 have "gen_token_candidates E agg outs hyp_id cs = Inr c1" by simp
    from gen_token_candidates_Inr[OF this] GenTokenAction show ?thesis by simp
  qed
  from Cons.IH[OF rest] s1 show ?case by (simp add: replicate_app_Cons_same)
qed

lemma collect_hyps_count:
  "collect_hyps E agg outs i hyps cs = Inr cs' \<Longrightarrow>
     count_list (gentoken_prev_hyp_ids cs') k = count_list (gentoken_prev_hyp_ids cs) k +
       (if i \<le> k \<and> k < i + length hyps
        then count_list (get_valid_continuation_types E (hyps ! (k - i))) GenTokenAction else 0)"
proof (induction hyps arbitrary: i cs)
  case Nil then show ?case by simp
next
  case (Cons h hyps)
  from Cons.prems obtain c1 where
    c1: "collect_types E agg outs i h (get_valid_continuation_types E h) cs = Inr c1"
    and rest: "collect_hyps E agg outs (Suc i) hyps c1 = Inr cs'"
    by (auto simp: ebind_eq_Inr)
  from collect_types_count[OF c1]
  have a: "count_list (gentoken_prev_hyp_ids c1) k = count_list (gentoken_prev_hyp_ids cs) k +
       (if k = i then count_list (get_valid_continuation_types E h) GenTokenAction else 0)"
    by (simp add: count_list_replicate)
  from Cons.IH[OF rest]
  have b: "count_list (gentoken_prev_hyp_ids cs') k = count_list (gentoken_prev_hyp_ids c1) k +
       (if Suc i \<le> k \<and> k < Suc i + length hyps
        then count_list (get_valid_continuation_types E (hyps ! (k - Suc i))) GenTokenAction else 0)" .
  consider "k < i" | "k = i" | "i < k" by linarith
  then show ?case
  proof cases
    case 1 with a b show ?thesis by simp
  next
    case 2 with a b show ?thesis by simp
  next
    case 3
    then have "(h # hyps) ! (k - i) = hyps ! (k - Suc i)" by (simp add: nth_Cons')
    with 3 a b show ?thesis by simp
  qed
qed

lemma best_unk_max:
  assumes "tok \<in> set src" and "prim_vocab E tok = None"
  shows "(tok, copy_mass (primitive_copy_prob so) (snd (primitive_predictor_prob so))
                 (occurrences src tok)) \<in> set (unk_copy_infos E src so) \<and>
         copy_mass (primitive_copy_prob so) (snd (primitive_predictor_prob so))
                 (occurrences src tok) \<le> snd (best_unk E src so)"
proof -
  let ?U = "unk_copy_infos E src so"
  let ?m = "copy_mass (primitive_copy_prob so) (snd (primitive_predictor_prob so))
                 (occurrences src tok)"
  from assms aggregated_keys(2)[of src] have mem: "(tok, ?m) \<in> set ?U"
    by (auto simp: unk_copy_infos_def)
  then have ne: "map snd ?U \<noteq> []" by auto
  from mem have "?m \<in> set (map snd ?U)" by force
  with argmax_prop[OF ne] have "?m \<le> map snd ?U ! argmax (map snd ?U)" by blast
  moreover from argmax_prop[OF ne] have "argmax (map snd ?U) < length ?U" by simp
  ultimately have "?m \<le> snd (best_unk E src so)" by (simp add: best_unk_def)
  with mem show ?thesis by simp
qed

text \<open>
  Claim C2.  Take a step with copy enabled and a hypothesis for which the transition
  system lists GenToken (once).  After the candidate loop the hypothesis's row of
  \<open>primitive_prob\<close> holds, at every vocabulary slot, the generation probability weighted
  by the generate gate plus the copy masses of the distinct surface tokens of the
  utterance that the vocabulary maps to the slot; the copy mass of a token is the copy
  gate times the copy attention summed over all positions at which the token occurs.
  A token outside the vocabulary is an unknown-copy candidate under its own text, with
  that mass; when there is one, the unknown slot is afterwards set to the mass of the
  best candidate (lines 797-802), which is at least the mass of every candidate.  For
  the utterance \<open>a a b\<close> the mass of \<open>a\<close> is the gate times the attention at the
  positions 0 and 1.
\<close>

theorem copy_mass_aggregation:
  assumes sc: "step_candidates E src_sent b = Inr (cs, scores)"
    and nc: "\<not> no_copy E"
    and h: "hyp_id < length (hypotheses b)"
    and once: "count_list (get_valid_continuation_types E (hypotheses b ! hyp_id))
                 GenTokenAction = 1"
    and so: "so = step_outs E src_sent b hyp_id"
  shows "length (primitive_prob cs hyp_id) = length (gen_from_vocab_prob so) \<and>
         (\<forall>j<length (gen_from_vocab_prob so).
            primitive_prob cs hyp_id ! j =
              (if j = unk E \<and> (\<exists>token\<in>set src_sent. prim_vocab E token = None)
               then snd (best_unk E src_sent so)
               else fst (primitive_predictor_prob so) * gen_from_vocab_prob so ! j +
                    sum_list (map (\<lambda>token. copy_mass (primitive_copy_prob so)
                                      (snd (primitive_predictor_prob so))
                                      (occurrences src_sent token))
                               (filter (\<lambda>token. prim_vocab E token = Some j)
                                  (remdups src_sent))))) \<and>
         (\<forall>token\<in>set src_sent. prim_vocab E token = None \<longrightarrow>
            (token, copy_mass (primitive_copy_prob so) (snd (primitive_predictor_prob so))
                      (occurrences src_sent token)) \<in> set (unk_copy_infos E src_sent so) \<and>
            copy_mass (primitive_copy_prob so) (snd (primitive_predictor_prob so))
                      (occurrences src_sent token) \<le> snd (best_unk E src_sent so)) \<and>
         copy_mass (primitive_copy_prob so) (snd (primitive_predictor_prob so))
             (occurrences [''a'', ''a'', ''b''] ''a'')
           = snd (primitive_predictor_prob so)
               * (primitive_copy_prob so ! 0 + primitive_copy_prob so ! 1)"
proof -
  let ?outs = "step_outs E src_sent b"
  let ?init = "init_primitive_prob E so"
  from step_candidates_outs[OF sc]
  have ch: "collect_hyps E (aggregated_primitive_tokens src_sent) ?outs 0 (hypotheses b)
              (init_cands E ?outs) = Inr cs" .
  from collect_hyps_count[OF ch, of hyp_id] h once
  have cnt: "count_list (gentoken_prev_hyp_ids cs) hyp_id = 1"
    by (simp add: init_cands_def)
  from collect_hyps_rows_passed[OF ch nc]
  have "primitive_prob cs hyp_id =
          (copy_pass E src_sent (?outs hyp_id) ^^ count_list (gentoken_prev_hyp_ids cs) hyp_id)
            (init_primitive_prob E (?outs hyp_id))"
    by (simp add: rows_passed_def)
  with cnt so have row: "primitive_prob cs hyp_id = copy_pass E src_sent so ?init" by simp
  have li: "length ?init = length (gen_from_vocab_prob so)"
    by (simp add: init_primitive_prob_def)
  have ij: "?init ! j = fst (primitive_predictor_prob so) * gen_from_vocab_prob so ! j"
    if "j < length (gen_from_vocab_prob so)" for j
    using that nc by (simp add: init_primitive_prob_def)
  have l: "length (primitive_prob cs hyp_id) = length (gen_from_vocab_prob so)"
    unfolding row copy_pass_def Let_def by (simp add: li)
  have v: "primitive_prob cs hyp_id ! j =
              (if j = unk E \<and> (\<exists>token\<in>set src_sent. prim_vocab E token = None)
               then snd (best_unk E src_sent so)
               else fst (primitive_predictor_prob so) * gen_from_vocab_prob so ! j +
                    sum_list (map (\<lambda>token. copy_mass (primitive_copy_prob so)
                                      (snd (primitive_predictor_prob so))
                                      (occurrences src_sent token))
                               (filter (\<lambda>token. prim_vocab E token = Some j)
                                  (remdups src_sent))))"
    if j: "j < length (gen_from_vocab_prob so)" for j
  proof (cases "\<exists>token\<in>set src_sent. prim_vocab E token = None")
    case True
    then have "unk_copy_infos E src_sent so \<noteq> []" by (simp add: unk_copy_infos_empty_iff)
    with True j show ?thesis
      unfolding row copy_pass_def Let_def
      by (simp add: li ij nth_list_update slot_mass_def)
  next
    case False
    then have "unk_copy_infos E src_sent so = []" by (simp add: unk_copy_infos_empty_iff)
    with False j show ?thesis
      unfolding row copy_pass_def Let_def
      by (auto simp: li ij slot_mass_def)
  qed
  have ex: "copy_mass (primitive_copy_prob so) (snd (primitive_predictor_prob so))
             (occurrences [''a'', ''a'', ''b''] ''a'')
           = snd (primitive_predictor_prob so)
               * (primitive_copy_prob so ! 0 + primitive_copy_prob so ! 1)"
    by (simp add: copy_mass_def occurrences_def upt_conv_Cons)
  from l v best_unk_max[of _ src_sent E so] ex show ?thesis by blast
qed

lemma mass_copy_tokens:
  "copy_tokens (prim_vocab mass_env) [1/8, 1/8, 3/4] (3/4) [(''a'', [0, Suc 0]), (''b'', [2])] [1/8, 1/8] []
     = Inr ([1/8, 5/16], [(''b'', [2], 9/16)])"
  by (simp add: mass_env_def demo_env_def nth_err_def)

lemma mass_gen:
  "gen_token_candidates mass_env (aggregated_primitive_tokens demo_src) (\<lambda>i. mass_out) 0
      (init_cands mass_env (\<lambda>i. mass_out))
   = Inr ((init_cands mass_env (\<lambda>i. mass_out))
           \<lparr>gentoken_prev_hyp_ids := [0], gentoken_new_hyp_unks := [''b''],
            primitive_prob := (\<lambda>i. if i = 0 then [9/16, 5/16] else [1/8, 1/8])\<rparr>)"
proof -
  have a: "primitive_prob (init_cands mass_env (\<lambda>i. mass_out)) = (\<lambda>i. [1/8, 1/8])"
    by (simp add: init_cands_def init_primitive_prob_def mass_env_def demo_env_def mass_out_def)
  have b: "primitive_copy_prob mass_out = [1/8, 1/8, 3/4]"
    "snd (primitive_predictor_prob mass_out) = 3/4" by (simp_all add: mass_out_def)
  have c: "\<not> no_copy mass_env" "unk mass_env = 0" by (simp_all add: mass_env_def demo_env_def)
  have d: "(\<lambda>i. [1/8, 1/8::real])(0 := [9/16, 5/16]) = (\<lambda>i. if i = 0 then [9/16, 5/16] else [1/8, 1/8])"
    by auto
  have ct: "copy_tokens (prim_vocab mass_env) (primitive_copy_prob mass_out)
              (snd (primitive_predictor_prob mass_out))
              (aggregated_primitive_tokens demo_src)
              (primitive_prob (init_cands mass_env (\<lambda>i. mass_out)) 0) []
            = Inr ([1/8, 5/16], [(''b'', [2], 9/16)])"
    by (simp only: a b demo_agg_Suc mass_copy_tokens)
  show ?thesis
    unfolding gen_token_candidates_def Let_def ct
    by (simp add: a c d argmax_def) (simp add: init_cands_def)
qed

lemma mass_collect:
  "collect_hyps mass_env (aggregated_primitive_tokens demo_src) (\<lambda>i. mass_out) 0 [demo_hyp1]
      (init_cands mass_env (\<lambda>i. mass_out)) = Inr mass_cands1"
proof -
  have t: "get_valid_continuation_types mass_env demo_hyp1 = [GenTokenAction, ReduceAction]"
    by (simp add: mass_env_def demo_env_def demo_types_def demo_hyp1_def)
  have r: "reduce_candidate mass_env (\<lambda>i. mass_out) 0 demo_hyp1 c
            = Inr (add_applyrule (Fin 0) (Suc 0) 0 c)" for c
    by (simp add: reduce_candidate_def mass_env_def demo_env_def mass_out_def nth_err_def
          demo_hyp1_def)
  have "collect_hyps mass_env (aggregated_primitive_tokens demo_src) (\<lambda>i. mass_out) 0 [demo_hyp1]
      (init_cands mass_env (\<lambda>i. mass_out))
    = Inr (add_applyrule (Fin 0) (Suc 0) 0 ((init_cands mass_env (\<lambda>i. mass_out))
           \<lparr>gentoken_prev_hyp_ids := [0], gentoken_new_hyp_unks := [''b''],
            primitive_prob := (\<lambda>i. if i = 0 then [9/16, 5/16] else [1/8, 1/8])\<rparr>))"
    by (simp add: t mass_gen r)
  then show ?thesis
    by (simp add: add_applyrule_def mass_cands1_def init_cands_def)
qed

lemma mass_scores:
  "new_hyp_scores [Fin 0] mass_cands1 = Inr [Fin 0, Fin (ln (9/16)), Fin (ln (5/16))]"
  by (simp add: new_hyp_scores_def mass_cands1_def nth_err_def torch_log_def)

lemma mass_step_candidates:
  "step_candidates mass_env demo_src demo_beam1
     = Inr (mass_cands1, [Fin 0, Fin (ln (9/16)), Fin (ln (5/16))])"
proof -
  have s: "scorer mass_env demo_src (Suc 0) [demo_hyp1] [[([], [], [])]] [([], [])] [[]]
            = (\<lambda>i. mass_out)"
    by (simp add: mass_env_def)
  show ?thesis
    by (simp add: step_candidates_def Let_def demo_beam1_def s mass_collect mass_scores
          del: collect_hyps.simps)
qed

lemma mass_unk_infos:
  "unk_copy_infos mass_env demo_src mass_out = [(''b'', 9/16)]"
proof -
  have "aggregated_primitive_tokens demo_src = [(''a'', [0, Suc 0]), (''b'', [2])]"
    by (rule demo_agg_Suc)
  then show ?thesis
    by (simp add: unk_copy_infos_def mass_env_def demo_env_def demo_occ copy_mass_def mass_out_def)
qed

theorem copy_mass_aggregation_witness:
  "step_candidates mass_env demo_src demo_beam1
     = Inr (mass_cands1, [Fin 0, Fin (ln (9/16)), Fin (ln (5/16))]) \<and>
   \<not> no_copy mass_env \<and> (0::nat) < length (hypotheses demo_beam1) \<and>
   count_list (get_valid_continuation_types mass_env (hypotheses demo_beam1 ! 0))
     GenTokenAction = 1 \<and>
   mass_out = step_outs mass_env demo_src demo_beam1 0 \<and>
   demo_src = [''a'', ''a'', ''b''] \<and>
   prim_vocab mass_env ''a'' = Some 1 \<and> prim_vocab mass_env ''b'' = None \<and>
   unk mass_env = 0 \<and>
   length (primitive_prob mass_cands1 0) = 2 \<and>
   primitive_prob mass_cands1 0 ! 1 = 1/4 * (1/2) + 3/4 * (1/8 + 1/8) \<and>
   primitive_prob mass_cands1 0 ! 0 = 3/4 * (3/4) \<and>
   (''b'', 3/4 * (3/4)) \<in> set (unk_copy_infos mass_env demo_src mass_out)"
proof -
  have nc: "\<not> no_copy mass_env" by (simp add: mass_env_def demo_env_def)
  have h: "(0::nat) < length (hypotheses demo_beam1)" by (simp add: demo_beam1_def)
  have once: "count_list (get_valid_continuation_types mass_env (hypotheses demo_beam1 ! 0))
     GenTokenAction = 1"
    by (simp add: mass_env_def demo_env_def demo_beam1_def demo_types_def demo_hyp1_def)
  have so: "mass_out = step_outs mass_env demo_src demo_beam1 0"
    by (simp add: step_outs_def mass_env_def)
  have voc: "prim_vocab mass_env ''a'' = Some 1" "prim_vocab mass_env ''b'' = None"
    "unk mass_env = 0"
    by (simp_all add: mass_env_def demo_env_def)
  have src: "demo_src = [''a'', ''a'', ''b'']" by (simp add: demo_src_def)
  have oov: "\<exists>token\<in>set demo_src. prim_vocab mass_env token = None"
    using voc(2) by (auto simp: demo_src_def)
  have best: "snd (best_unk mass_env demo_src mass_out) = 9/16"
    by (simp add: best_unk_def mass_unk_infos argmax_def)
  have slot: "filter (\<lambda>token. prim_vocab mass_env token = Some (Suc 0)) (remdups demo_src) = [''a'']"
    by (simp add: demo_src_def mass_env_def demo_env_def)
  have g: "length (gen_from_vocab_prob mass_out) = 2"
    "gen_from_vocab_prob mass_out ! Suc 0 = 1/2"
    "fst (primitive_predictor_prob mass_out) = 1/4"
    by (simp_all add: mass_out_def)
  have ma: "copy_mass (primitive_copy_prob mass_out) (snd (primitive_predictor_prob mass_out))
              (occurrences demo_src ''a'') = 3/4 * (1/8 + 1/8)"
    "copy_mass (primitive_copy_prob mass_out) (snd (primitive_predictor_prob mass_out))
              (occurrences demo_src ''b'') = 3/4 * (3/4)"
    by (simp_all add: demo_occ copy_mass_def mass_out_def)
  note main = copy_mass_aggregation[OF mass_step_candidates nc h once so]
  from main have l: "length (primitive_prob mass_cands1 0) = 2" by (simp add: g)
  from main have v: "\<And>j. j < 2 \<Longrightarrow> primitive_prob mass_cands1 0 ! j =
              (if j = unk mass_env \<and> (\<exists>token\<in>set demo_src. prim_vocab mass_env token = None)
               then snd (best_unk mass_env demo_src mass_out)
               else fst (primitive_predictor_prob mass_out) * gen_from_vocab_prob mass_out ! j +
                    sum_list (map (\<lambda>token. copy_mass (primitive_copy_prob mass_out)
                                      (snd (primitive_predictor_prob mass_out))
                                      (occurrences demo_src token))
                               (filter (\<lambda>token. prim_vocab mass_env token = Some j)
                                  (remdups demo_src))))"
    by (simp add: g)
  from v[of "Suc 0"] have v1: "primitive_prob mass_cands1 0 ! 1 = 1/4 * (1/2) + 3/4 * (1/8 + 1/8)"
    by (simp add: voc slot g ma)
  from v[of 0] oov have v0: "primitive_prob mass_cands1 0 ! 0 = 3/4 * (3/4)"
    by (simp add: voc best)
  from main voc(2) have u: "(''b'', 3/4 * (3/4)) \<in> set (unk_copy_infos mass_env demo_src mass_out)"
    unfolding ma[symmetric] by (simp add: demo_src_def)
  from mass_step_candidates nc h once so src voc l v1 v0 u show ?thesis by blast
qed

subsection \<open>The candidate list and its cut\<close>

lemma take_sorted_topk_ok:
  assumes s: "set l = {..<length xs}" and d: "distinct l"
    and o: "sorted_wrt (\<lambda>p q. xs ! q \<le> xs ! p) l" and k: "k \<le> length l"
  shows "topk_ok xs k (take k l)"
proof -
  have 1: "length (take k l) = k" using k by simp
  have 2: "distinct (take k l)" using d by simp
  have 3: "\<forall>p\<in>set (take k l). p < length xs"
    using s by (auto dest: in_set_takeD)
  have 4: "sorted_wrt (\<lambda>p q. xs ! q \<le> xs ! p) (take k l)"
    using o by (rule sorted_wrt_take)
  have "sorted_wrt (\<lambda>p q. xs ! q \<le> xs ! p) (take k l @ drop k l)" using o by simp
  then have ap: "\<forall>p\<in>set (take k l). \<forall>i\<in>set (drop k l). xs ! i \<le> xs ! p"
    by (simp only: sorted_wrt_append) blast
  have 5: "\<forall>i\<in>set [0..<length xs]. i \<notin> set (take k l) \<longrightarrow> (\<forall>p\<in>set (take k l). xs ! i \<le> xs ! p)"
  proof (intro ballI impI)
    fix i p assume i: "i \<in> set [0..<length xs]" "i \<notin> set (take k l)" and p: "p \<in> set (take k l)"
    from i(1) s have "i \<in> set l" by simp
    then have "i \<in> set (take k l) \<union> set (drop k l)" by (metis append_take_drop_id set_append)
    with i(2) have "i \<in> set (drop k l)" by simp
    with ap p show "xs ! i \<le> xs ! p" by blast
  qed
  from 1 2 3 4 5 show ?thesis unfolding topk_ok_def by blast
qed


lemma topk_last_ok: "k \<le> length xs \<Longrightarrow> topk_ok xs k (topk_last xs k)"
  unfolding topk_last_def
proof (rule take_sorted_topk_ok)
  show "set (rev (sort_key (\<lambda>i. xs ! i) [0..<length xs])) = {..<length xs}" by auto
  show "distinct (rev (sort_key (\<lambda>i. xs ! i) [0..<length xs]))" by simp
  have "sorted (map (\<lambda>i. xs ! i) (sort_key (\<lambda>i. xs ! i) [0..<length xs]))"
    by (rule sorted_sort_key)
  then have "sorted_wrt (\<lambda>p q. xs ! p \<le> xs ! q) (sort_key (\<lambda>i. xs ! i) [0..<length xs])"
    by (simp add: sorted_wrt_map)
  then show "sorted_wrt (\<lambda>p q. xs ! q \<le> xs ! p) (rev (sort_key (\<lambda>i. xs ! i) [0..<length xs]))"
    by (simp add: sorted_wrt_rev)
  show "k \<le> length xs \<Longrightarrow> k \<le> length (rev (sort_key (\<lambda>i. xs ! i) [0..<length xs]))" by simp
qed











lemma tie_step_candidates:
  "step_candidates tie_env demo_src demo_beam1 = Inr (tie_cands, [Fin 0, Fin 0, NegInf])"
proof -
  have s: "scorer tie_env demo_src (Suc 0) [demo_hyp1] [[([], [], [])]] [([], [])] [[]]
            = (\<lambda>i. tie_out (Suc 0))"
    by (simp add: tie_env_def)
  have t: "get_valid_continuation_types tie_env demo_hyp1 = [GenTokenAction, ReduceAction]"
    by (simp add: tie_env_def demo_env_def demo_types_def demo_hyp1_def)
  have g: "gen_token_candidates tie_env agg (\<lambda>i. tie_out (Suc 0)) 0 c
             = Inr (c\<lparr>gentoken_prev_hyp_ids := gentoken_prev_hyp_ids c @ [0]\<rparr>)" for agg c
    by (simp add: gen_token_candidates_def tie_env_def)
  have r: "reduce_candidate tie_env (\<lambda>i. tie_out (Suc 0)) 0 demo_hyp1 c
            = Inr (add_applyrule (Fin 0) (Suc 0) 0 c)" for c
    by (simp add: reduce_candidate_def tie_env_def demo_env_def tie_out_def demo_out_def
          nth_err_def demo_hyp1_def)
  have "collect_hyps tie_env (aggregated_primitive_tokens demo_src) (\<lambda>i. tie_out (Suc 0)) 0
          [demo_hyp1] (init_cands tie_env (\<lambda>i. tie_out (Suc 0)))
        = Inr (add_applyrule (Fin 0) (Suc 0) 0
                 ((init_cands tie_env (\<lambda>i. tie_out (Suc 0)))
                    \<lparr>gentoken_prev_hyp_ids :=
                       gentoken_prev_hyp_ids (init_cands tie_env (\<lambda>i. tie_out (Suc 0))) @ [0]\<rparr>))"
    by (simp add: t g r)
  then have c: "collect_hyps tie_env (aggregated_primitive_tokens demo_src) (\<lambda>i. tie_out (Suc 0)) 0
          [demo_hyp1] (init_cands tie_env (\<lambda>i. tie_out (Suc 0))) = Inr tie_cands"
    by (simp add: add_applyrule_def init_cands_def tie_cands_def init_primitive_prob_def
          tie_env_def tie_out_def)
  have n: "new_hyp_scores [Fin 0] tie_cands = Inr [Fin 0, Fin 0, NegInf]"
    by (simp add: new_hyp_scores_def tie_cands_def nth_err_def torch_log_def)
  show ?thesis
    by (simp add: step_candidates_def Let_def demo_beam1_def s c n del: collect_hyps.simps)
qed

section \<open>Teacher-forced scoring\<close>

lemma logp_add_assoc: "logp_add (logp_add a b) c = logp_add a (logp_add b c)"
  by (cases a; cases b; cases c) simp_all

lemma logp_add_0 [simp]: "logp_add a (Fin 0) = a" "logp_add (Fin 0) a = a"
  by (cases a; simp)+

lemma mul_mask_True [simp]: "mul_mask x True = Num x"
  by (cases x) simp_all

lemma sum_steps_Num:
  assumes "\<forall>s\<in>set steps. f s = Inr (Num (g s))"
  shows "sum_steps f steps (Num a) = Inr (Num (logp_add a (logp_sum (map g steps))))"
  using assms
proof (induction steps arbitrary: a)
  case Nil
  then show ?case by (simp add: logp_sum_def)
next
  case (Cons s steps)
  from Cons.prems have fs: "f s = Inr (Num (g s))" and rest: "\<forall>s\<in>set steps. f s = Inr (Num (g s))"
    by simp_all
  from Cons.IH[OF rest, of "logp_add a (g s)"] fs show ?case
    by (simp add: logp_sum_def logp_add_assoc)
qed

lemma logp_sum_Fin: "logp_sum (map (\<lambda>s. Fin (h s)) steps) = Fin (\<Sum>s\<leftarrow>steps. h s)"
  by (induction steps) (simp_all add: logp_sum_def)

lemma action_prob_copy_value:
  assumes "apply_rule_idx s < length (apply_rule_prob s)"
    and "primitive_idx s < length (gen_vocab_prob s)"
  shows "action_prob_copy s
           = Inr (Num (if action_mask_pad s then Fin 0 else torch_log (gold_action_prob s)))"
proof (cases "action_mask_pad s")
  case True
  have "torch_log (1 / 10 ^ 7) = Fin (ln (1 / 10 ^ 7))" by (simp add: torch_log_def)
  with True assms show ?thesis
    by (simp add: action_prob_copy_def nth_err_def Let_def)
next
  case False
  have "apply_rule_prob s ! apply_rule_idx s * of_bool (apply_rule_mask s)
        + fst (predictor s) * gen_vocab_prob s ! primitive_idx s * of_bool (gen_token_mask s)
        + snd (predictor s) * tgt_primitive_copy_prob s * of_bool (primitive_copy_mask s)
        = gold_action_prob s"
    by (simp add: gold_action_prob_def)
  with False assms show ?thesis
    by (simp add: action_prob_copy_def nth_err_def Let_def)
qed










section \<open>Non-finite scores\<close>

lemma tie_topk3: "topk_last [Fin 0, Fin 0, NegInf] 3 = [Suc 0, 0, 2]"
  by (simp add: topk_last_def upt_conv_Cons)

text \<open>
  Claim C8 as stated fails in \<open>parse\<close>, where nothing is replaced before the logarithm
  (lines 810-813).  In this step the vocabulary probability of the token \<open>a\<close> is zero;
  its candidate has the score minus infinity, is selected with a beam of three, and the
  hypothesis built from it enters the beam with that score.
\<close>

theorem zero_probability_enters_beam:
  "step_candidates tie_env demo_src demo_beam1 = Inr (tie_cands, [Fin 0, Fin 0, NegInf]) \<and>
   primitive_prob tie_cands 0 = [1, 0] \<and>
   step_selection tie_env demo_src False 3 demo_beam1
     = Inr \<lparr>live_hyp_ids = [0, 0], new_hypotheses = [tie_hyp2, tie_hyp3],
            sel_completed = [demo_hyp2], sel_saved = []\<rparr> \<and>
   score tie_hyp3 = NegInf \<and> \<not> finite_score (score tie_hyp3) \<and>
   map_sum id (\<lambda>r. (fst r, hypotheses (snd r), hyp_scores (snd r)))
     (beam_step tie_env demo_src False 3 demo_beam1)
     = Inr (True, [tie_hyp2, tie_hyp3], [Fin 0, NegInf])"
proof -
  have k: "step_k 3 demo_beam1 [Fin 0, Fin 0, NegInf] = 3"
    by (simp add: step_k_def demo_beam1_def)
  have t: "topk tie_env = topk_last" by (simp add: tie_env_def)
  have s0: "select_action tie_env [demo_hyp1] tie_cands 0 = Inr (0, demo_hyp1, Reduce)"
    by (simp add: select_action_def tie_cands_def nth_err_def tie_env_def demo_env_def)
  have s1: "select_action tie_env [demo_hyp1] tie_cands (Suc 0)
     = Inr (0, demo_hyp1, GenToken ''<unk>'')"
    by (simp add: select_action_def tie_cands_def size1_def nth_err_def tie_env_def demo_env_def)
  have s2: "select_action tie_env [demo_hyp1] tie_cands 2
     = Inr (0, demo_hyp1, GenToken ''a'')"
    by (simp add: select_action_def tie_cands_def size1_def nth_err_def tie_env_def demo_env_def
          lookup_err_def)
  have hy: "hypotheses demo_beam1 = [demo_hyp1]" by (simp add: demo_beam1_def)
  have mk0: "(clone_and_apply_action_info demo_hyp1
               (make_action_info tie_env (aggregated_primitive_tokens demo_src) (Suc 0) demo_hyp1
                  Reduce))\<lparr>score := Fin 0\<rparr> = demo_hyp2"
    by (simp add: clone_and_apply_action_info_def make_action_info_def demo_hyp1_def demo_hyp2_def
          tie_env_def demo_env_def)
  have mk1: "(clone_and_apply_action_info demo_hyp1
               (make_action_info tie_env (aggregated_primitive_tokens demo_src) (Suc 0) demo_hyp1
                  (GenToken ''<unk>'')))\<lparr>score := Fin 0\<rparr> = tie_hyp2"
    by (simp add: clone_and_apply_action_info_def make_action_info_def demo_hyp1_def tie_hyp2_def
          tie_env_def demo_env_def demo_agg_Suc)
  have mk2: "(clone_and_apply_action_info demo_hyp1
               (make_action_info tie_env (aggregated_primitive_tokens demo_src) (Suc 0) demo_hyp1
                  (GenToken ''a'')))\<lparr>score := NegInf\<rparr> = tie_hyp3"
    by (simp add: clone_and_apply_action_info_def make_action_info_def demo_hyp1_def tie_hyp3_def
          tie_env_def demo_env_def demo_agg_Suc)
  have cp0: "completed tie_env demo_hyp2"
    by (simp add: tie_env_def demo_env_def demo_completed_def demo_hyp2_def)
  have cp1: "\<not> completed tie_env tie_hyp2"
    by (simp add: tie_env_def demo_env_def demo_completed_def tie_hyp2_def)
  have cp2: "\<not> completed tie_env tie_hyp3"
    by (simp add: tie_env_def demo_env_def demo_completed_def tie_hyp3_def)
  have ap0: "apply_pick tie_env (aggregated_primitive_tokens demo_src) False (Suc 0) [demo_hyp1]
              sts outs tie_cands [Fin 0, Fin 0, NegInf] 0 sel
            = Inr (sel\<lparr>sel_completed := sel_completed sel @ [demo_hyp2]\<rparr>)" for sts outs sel
    unfolding apply_pick_def Let_def
    using s0 by (simp add: nth_err_def mk0 cp0)
  have ap1: "apply_pick tie_env (aggregated_primitive_tokens demo_src) False (Suc 0) [demo_hyp1]
              sts outs tie_cands [Fin 0, Fin 0, NegInf] (Suc 0) sel
            = Inr (sel\<lparr>new_hypotheses := new_hypotheses sel @ [tie_hyp2],
                       live_hyp_ids := live_hyp_ids sel @ [0]\<rparr>)" for sts outs sel
    unfolding apply_pick_def Let_def
    using s1 by (simp add: nth_err_def mk1 cp1)
  have ap2: "apply_pick tie_env (aggregated_primitive_tokens demo_src) False (Suc 0) [demo_hyp1]
              sts outs tie_cands [Fin 0, Fin 0, NegInf] 2 sel
            = Inr (sel\<lparr>new_hypotheses := new_hypotheses sel @ [tie_hyp3],
                       live_hyp_ids := live_hyp_ids sel @ [0]\<rparr>)" for sts outs sel
    unfolding apply_pick_def Let_def
    using s2 by (simp add: nth_err_def mk2 cp2)
  have pp: "process_picks tie_env (aggregated_primitive_tokens demo_src) False (Suc 0) [demo_hyp1]
              sts outs tie_cands [Fin 0, Fin 0, NegInf] [Suc 0, 0, 2]
              \<lparr>live_hyp_ids = [], new_hypotheses = [], sel_completed = [], sel_saved = []\<rparr>
            = Inr \<lparr>live_hyp_ids = [0, 0], new_hypotheses = [tie_hyp2, tie_hyp3],
                   sel_completed = [demo_hyp2], sel_saved = []\<rparr>" for sts outs
    by (simp add: ap0 ap1 ap2)
  have ss: "step_selection tie_env demo_src False 3 demo_beam1
     = Inr \<lparr>live_hyp_ids = [0, 0], new_hypotheses = [tie_hyp2, tie_hyp3],
            sel_completed = [demo_hyp2], sel_saved = []\<rparr>"
    unfolding step_selection_def tie_step_candidates
    apply (simp add: k t tie_topk3 del: process_picks.simps)
    apply (simp add: demo_beam1_def pp del: process_picks.simps)
    done
  have pr: "primitive_prob tie_cands 0 = [1, 0]" by (simp add: tie_cands_def)
  have sc: "score tie_hyp3 = NegInf" "\<not> finite_score (score tie_hyp3)"
    by (simp_all add: tie_hyp3_def finite_score_def)
  have bs: "map_sum id (\<lambda>r. (fst r, hypotheses (snd r), hyp_scores (snd r)))
     (beam_step tie_env demo_src False 3 demo_beam1)
     = Inr (True, [tie_hyp2, tie_hyp3], [Fin 0, NegInf])"
    unfolding beam_step_def Let_def ss
    by (simp add: demo_beam1_def nth_err_def tie_hyp2_def tie_hyp3_def)
  from tie_step_candidates pr ss sc bs show ?thesis by simp
qed

text \<open>
  Without copy the logarithms are multiplied by the masks as they are (line 340): a
  masked-out probability of zero gives minus infinity times zero.
\<close>

lemma no_copy_masked_zero_is_nan:
  "action_prob_no_copy False gold_pad = Inr NaN \<and>
   score_example True False [gold_apply, gold_pad] = Inr NaN"
  by (simp add: action_prob_no_copy_def score_example_def gold_pad_def gold_apply_def
        nth_err_def torch_log_def)

text \<open>
  Claim C8, amended.  The replacement is made in teacher-forced scoring with copy
  enabled only (lines 373-376): at a padding position, where none of the three masks is
  set, the probability is replaced by \<open>1e-7\<close> before the logarithm and the position
  contributes exactly zero, whatever the probabilities there are.  If in addition the gold
  action has a positive probability at every other position, the score of the example is
  a finite number.
\<close>

theorem padding_is_filled_before_log:
  assumes "gathers_in_range steps"
    and "\<forall>s\<in>set steps. action_mask_pad s \<or> 0 < gold_action_prob s"
  shows "(\<forall>s\<in>set steps. action_mask_pad s \<longrightarrow> action_prob_copy s = Inr (Num (Fin 0))) \<and>
         (\<exists>r. score_example False smoothing steps = Inr (Num (Fin r)))"
proof (intro conjI ballI impI)
  fix s assume "s \<in> set steps" "action_mask_pad s"
  with assms(1) action_prob_copy_value[of s] show "action_prob_copy s = Inr (Num (Fin 0))"
    by (simp add: gathers_in_range_def)
next
  let ?h = "\<lambda>s. if action_mask_pad s then 0 else ln (gold_action_prob s)"
  have "\<forall>s\<in>set steps. action_prob_copy s = Inr (Num (Fin (?h s)))"
  proof
    fix s assume s: "s \<in> set steps"
    with assms(1) have "action_prob_copy s
           = Inr (Num (if action_mask_pad s then Fin 0 else torch_log (gold_action_prob s)))"
      using action_prob_copy_value[of s] by (simp add: gathers_in_range_def)
    moreover from s assms(2) have "action_mask_pad s \<or> 0 < gold_action_prob s" by blast
    ultimately show "action_prob_copy s = Inr (Num (Fin (?h s)))"
      by (auto simp: torch_log_def)
  qed
  from sum_steps_Num[of steps action_prob_copy "\<lambda>s. Fin (?h s)", OF this, of "Fin 0"]
  show "\<exists>r. score_example False smoothing steps = Inr (Num (Fin r))"
    by (simp add: score_example_def logp_sum_Fin)
qed

theorem padding_is_filled_before_log_witness:
  "gathers_in_range [gold_apply, gold_pad] \<and>
   action_mask_pad gold_pad \<and> \<not> action_mask_pad gold_apply \<and>
   0 < gold_action_prob gold_apply \<and>
   apply_rule_prob gold_pad ! apply_rule_idx gold_pad = 0 \<and>
   action_prob_copy gold_pad = Inr (Num (Fin 0)) \<and>
   (\<exists>r. score_example False False [gold_apply, gold_pad] = Inr (Num (Fin r)))"
proof -
  have g: "gathers_in_range [gold_apply, gold_pad]"
    by (simp add: gathers_in_range_def gold_apply_def gold_pad_def)
  have p: "action_mask_pad gold_pad" "\<not> action_mask_pad gold_apply"
    by (simp_all add: action_mask_pad_def gold_pad_def gold_apply_def)
  have q: "0 < gold_action_prob gold_apply"
    by (simp add: gold_action_prob_def gold_apply_def)
  have z: "apply_rule_prob gold_pad ! apply_rule_idx gold_pad = 0"
    by (simp add: gold_pad_def)
  have h: "\<forall>s\<in>set [gold_apply, gold_pad]. action_mask_pad s \<or> 0 < gold_action_prob s"
    using p q by simp
  from padding_is_filled_before_log[OF g h, of False] p
  have "action_prob_copy gold_pad = Inr (Num (Fin 0))"
    "\<exists>r. score_example False False [gold_apply, gold_pad] = Inr (Num (Fin r))"
    by simp_all
  with g p q z show ?thesis by simp
qed

end
